theory Spec2Isabelle
  imports Complex_Main
begin

section \<open>JSON values as the scripts hold them in memory\<close>

text \<open>
  The three scripts (\<^verbatim>\<open>validate-config.js\<close>, \<^verbatim>\<open>auto-fix-config.js\<close>,
  \<^verbatim>\<open>automate.js\<close>) work on the value \<^verbatim>\<open>JSON.parse\<close> returns for the
  configuration file. A number is the rational value of the parsed double. A string is
  a \<open>string\<close>. An object is the list of its own properties, in insertion order, with
  distinct names. An array carries its elements and, second, the named properties that
  JavaScript allows an assignment such as \<^verbatim>\<open>arr.caching = {}\<close> to add to it (none
  after parsing). The value \<^verbatim>\<open>undefined\<close> is \<open>None\<close> of \<open>json option\<close>.
\<close>

datatype json =
    JNull
  | JBool bool
  | JNum rat
  | JStr string
  | JArr "json list" "(string \<times> json) list"
  | JObj "(string \<times> json) list"

text \<open>Truthiness, as \<^verbatim>\<open>if (x)\<close>, \<^verbatim>\<open>!x\<close>, \<^verbatim>\<open>x && y\<close> and \<^verbatim>\<open>x || y\<close> test it.\<close>

fun truthy :: "json \<Rightarrow> bool" where
  "truthy JNull = False"
| "truthy (JBool b) = b"
| "truthy (JNum n) = (n \<noteq> 0)"
| "truthy (JStr s) = (s \<noteq> [])"
| "truthy (JArr xs ps) = True"
| "truthy (JObj ps) = True"

definition truthy_opt :: "json option \<Rightarrow> bool" where
  "truthy_opt v = (case v of None \<Rightarrow> False | Some j \<Rightarrow> truthy j)"

text \<open>
  \<open>jget v k\<close> is the property read \<^verbatim>\<open>v.k\<close> on a value other than \<^verbatim>\<open>null\<close>, for
  the property names the scripts use (none of them is an index, \<^verbatim>\<open>length\<close> or a
  name found on a prototype): a primitive has no such property.
\<close>

fun jget :: "json \<Rightarrow> string \<Rightarrow> json option" where
  "jget (JObj ps) k = map_of ps k"
| "jget (JArr xs ps) k = map_of ps k"
| "jget v k = None"

text \<open>\<open>dot\<close> reads a property of the result of an earlier read.\<close>

definition dot :: "json option \<Rightarrow> string \<Rightarrow> json option" where
  "dot v k = (case v of None \<Rightarrow> None | Some j \<Rightarrow> jget j k)"

text \<open>
  An assignment \<^verbatim>\<open>o.k = v\<close> replaces the property in place or appends it. The class body
  of \<^verbatim>\<open>ConfigAutoFix\<close> is strict-mode code, where the assignment throws a
  \<^verbatim>\<open>TypeError\<close> on a primitive and on \<^verbatim>\<open>null\<close> (\<open>None\<close> here).
\<close>

fun upd :: "string \<Rightarrow> json \<Rightarrow> (string \<times> json) list \<Rightarrow> (string \<times> json) list" where
  "upd k v [] = [(k, v)]"
| "upd k v (p # ps) = (if fst p = k then (k, v) # ps else p # upd k v ps)"

fun set_prop :: "json \<Rightarrow> string \<Rightarrow> json \<Rightarrow> json option" where
  "set_prop (JObj ps) k v = Some (JObj (upd k v ps))"
| "set_prop (JArr xs ps) k v = Some (JArr xs (upd k v ps))"
| "set_prop j k v = None"

text \<open>
  What the engine itself computes is a parameter: the conversions of strings, arrays
  and objects to numbers and of values other than strings to strings, the WHATWG URL
  parser and \<^verbatim>\<open>String.prototype.trim\<close>.
\<close>

record js_runtime =
  ToNumber_ext :: "json \<Rightarrow> rat option"
  ToString_ext :: "json \<Rightarrow> string"
  URL_protocol :: "string \<Rightarrow> string option"
  trim :: "string \<Rightarrow> string"

text \<open>\<^verbatim>\<open>ToNumber\<close>; \<open>None\<close> is \<^verbatim>\<open>NaN\<close>.\<close>

definition ToNumber :: "js_runtime \<Rightarrow> json \<Rightarrow> rat option" where
  "ToNumber rt v =
     (case v of
        JNull \<Rightarrow> Some 0
      | JBool b \<Rightarrow> Some (if b then 1 else 0)
      | JNum n \<Rightarrow> Some n
      | _ \<Rightarrow> ToNumber_ext rt v)"

text \<open>\<^verbatim>\<open>v < n\<close> and \<^verbatim>\<open>v > n\<close> against a number literal: false on \<^verbatim>\<open>NaN\<close>.\<close>

definition js_lt :: "js_runtime \<Rightarrow> json \<Rightarrow> rat \<Rightarrow> bool" where
  "js_lt rt v n = (case ToNumber rt v of None \<Rightarrow> False | Some x \<Rightarrow> x < n)"

definition js_gt :: "js_runtime \<Rightarrow> json \<Rightarrow> rat \<Rightarrow> bool" where
  "js_gt rt v n = (case ToNumber rt v of None \<Rightarrow> False | Some x \<Rightarrow> n < x)"

definition ToString :: "js_runtime \<Rightarrow> json \<Rightarrow> string" where
  "ToString rt v = (case v of JStr s \<Rightarrow> s | _ \<Rightarrow> ToString_ext rt v)"

text \<open>On the result of a property read: \<^verbatim>\<open>undefined\<close> converts to \<^verbatim>\<open>NaN\<close> and to \<^verbatim>\<open>"undefined"\<close>.\<close>

definition lt_opt :: "js_runtime \<Rightarrow> json option \<Rightarrow> rat \<Rightarrow> bool" where
  "lt_opt rt v n = (case v of None \<Rightarrow> False | Some j \<Rightarrow> js_lt rt j n)"

definition gt_opt :: "js_runtime \<Rightarrow> json option \<Rightarrow> rat \<Rightarrow> bool" where
  "gt_opt rt v n = (case v of None \<Rightarrow> False | Some j \<Rightarrow> js_gt rt j n)"

definition ToString_opt :: "js_runtime \<Rightarrow> json option \<Rightarrow> string" where
  "ToString_opt rt v = (case v of None \<Rightarrow> ''undefined'' | Some j \<Rightarrow> ToString rt j)"

text \<open>
  \<^verbatim>\<open>list.includes(v)\<close> on an array literal of strings compares with SameValueZero: only
  a string equal to a member is included.
\<close>

definition includes_str :: "string list \<Rightarrow> json option \<Rightarrow> bool" where
  "includes_str xs v = (case v of Some (JStr s) \<Rightarrow> s \<in> set xs | _ \<Rightarrow> False)"

section \<open>The validator (validate-config.js)\<close>

text \<open>
  What reading and parsing a path yields: no such file, a file that cannot be read or
  parsed, or a document. The validator is modelled by what it throws; the lines it
  writes are left out.
\<close>

datatype disk_file = NoFile | Unparsable | Doc json

datatype verror =
    ConfigNotFound
  | InvalidJSON
  | TypeError
  | MissingSections "string list"
  | PlatformFieldsMissing
  | VersionNotSemantic
  | InvalidEnvironment
  | EnabledNotBoolean
  | TimezoneRequired
  | SessionTimeoutTooSmall
  | MaxLoginAttemptsOutOfRange
  | BaseUrlInvalid
  | ApiTimeoutTooSmall
  | InvalidLoggingLevel

text \<open>\<^verbatim>\<open>/^\d+\.\d+\.\d+$/.test(s)\<close>: \<^verbatim>\<open>\d\<close> is an ASCII digit, the anchors are the ends of the input.\<close>

definition is_digit :: "char \<Rightarrow> bool" where
  "is_digit c = (c \<in> set ''0123456789'')"

definition versionRegex_test :: "string \<Rightarrow> bool" where
  "versionRegex_test s =
     (let a = takeWhile is_digit s; r1 = dropWhile is_digit s in
      a \<noteq> [] \<and>
      (case r1 of
         [] \<Rightarrow> False
       | c1 # r2 \<Rightarrow>
           c1 = CHR ''.'' \<and>
           (let b = takeWhile is_digit r2; r3 = dropWhile is_digit r2 in
            b \<noteq> [] \<and>
            (case r3 of
               [] \<Rightarrow> False
             | c2 # r4 \<Rightarrow> c2 = CHR ''.'' \<and> r4 \<noteq> [] \<and> list_all is_digit r4))))"

text \<open>The checks of \<^verbatim>\<open>validateConfiguration\<close>, in the order of the source; \<open>None\<close> passes.\<close>

definition requiredSections :: "string list" where
  "requiredSections = [''platform'', ''global'']"

definition check_sections :: "json \<Rightarrow> verror option" where
  "check_sections config =
     (if config = JNull then Some TypeError
      else (let missingSections = filter (\<lambda>s. \<not> truthy_opt (jget config s)) requiredSections
            in if length missingSections > 0 then Some (MissingSections missingSections) else None))"

definition validEnvironments :: "string list" where
  "validEnvironments = [''production'', ''staging'', ''development'']"

definition check_platform :: "js_runtime \<Rightarrow> json \<Rightarrow> verror option" where
  "check_platform rt config =
     (let platform = jget config ''platform'' in
      if \<not> truthy_opt (dot platform ''name'') \<or> \<not> truthy_opt (dot platform ''version'')
         \<or> \<not> truthy_opt (dot platform ''environment'')
      then Some PlatformFieldsMissing
      else if \<not> versionRegex_test (ToString_opt rt (dot platform ''version''))
      then Some VersionNotSemantic
      else if \<not> includes_str validEnvironments (dot platform ''environment'')
      then Some InvalidEnvironment
      else None)"

definition check_global :: "json \<Rightarrow> verror option" where
  "check_global config =
     (let global = jget config ''global'' in
      case dot global ''enabled'' of
        Some (JBool b) \<Rightarrow>
          if \<not> truthy_opt (dot global ''timezone'') then Some TimezoneRequired else None
      | _ \<Rightarrow> Some EnabledNotBoolean)"

definition check_authentication :: "js_runtime \<Rightarrow> json \<Rightarrow> verror option" where
  "check_authentication rt config =
     (let authentication = jget config ''authentication'' in
      if truthy_opt authentication then
        (let sessionTimeout = dot authentication ''sessionTimeout'';
             maxLoginAttempts = dot authentication ''maxLoginAttempts'' in
         if truthy_opt sessionTimeout \<and> lt_opt rt sessionTimeout 60
         then Some SessionTimeoutTooSmall
         else if truthy_opt maxLoginAttempts
                 \<and> (lt_opt rt maxLoginAttempts 1 \<or> gt_opt rt maxLoginAttempts 10)
         then Some MaxLoginAttemptsOutOfRange
         else None)
      else None)"

definition check_api :: "js_runtime \<Rightarrow> json \<Rightarrow> verror option" where
  "check_api rt config =
     (let api = jget config ''api'' in
      if truthy_opt api then
        (let baseUrl = dot api ''baseUrl''; timeout = dot api ''timeout'' in
         if truthy_opt baseUrl \<and> URL_protocol rt (ToString_opt rt baseUrl) = None
         then Some BaseUrlInvalid
         else if truthy_opt timeout \<and> lt_opt rt timeout 1000
         then Some ApiTimeoutTooSmall
         else None)
      else None)"

definition validLevels :: "string list" where
  "validLevels = [''debug'', ''info'', ''warn'', ''error'']"

definition check_logging :: "json \<Rightarrow> verror option" where
  "check_logging config =
     (let logging = jget config ''logging'' in
      if truthy_opt logging then
        (let level = dot logging ''level'' in
         if truthy_opt level \<and> \<not> includes_str validLevels level
         then Some InvalidLoggingLevel
         else None)
      else None)"

text \<open>The first failing check throws; a later check is not reached.\<close>

fun first_failure :: "verror option list \<Rightarrow> verror + unit" where
  "first_failure [] = Inr ()"
| "first_failure (None # cs) = first_failure cs"
| "first_failure (Some e # cs) = Inl e"

definition validateConfiguration :: "js_runtime \<Rightarrow> disk_file \<Rightarrow> verror + unit" where
  "validateConfiguration rt f =
     (case f of
        NoFile \<Rightarrow> Inl ConfigNotFound
      | Unparsable \<Rightarrow> Inl InvalidJSON
      | Doc config \<Rightarrow>
          first_failure
            [check_sections config, check_platform rt config, check_global config,
             check_authentication rt config, check_api rt config, check_logging config])"

text \<open>The script exits with 0 when \<^verbatim>\<open>validateConfiguration\<close> returns and with 1 when it throws.\<close>

definition validate_exit :: "js_runtime \<Rightarrow> disk_file \<Rightarrow> nat" where
  "validate_exit rt f = (case validateConfiguration rt f of Inr u \<Rightarrow> 0 | Inl e \<Rightarrow> 1)"

section \<open>The auto-fixer (auto-fix-config.js)\<close>

subsection \<open>State of a \<^verbatim>\<open>ConfigAutoFix\<close> object\<close>

record fix_entry =
  fix_field :: string
  fix_from :: "json option"
  fix_to :: json
  fix_reason :: string

record warning =
  warn_type :: string
  warn_field :: string
  warn_current :: json
  warn_issue :: string

text \<open>What \<^verbatim>\<open>run\<close> can throw, and what interrupts a method.\<close>

datatype thrown = FailedToLoad | JsTypeError | FailedToSave

datatype interrupt =
    Throw thrown
  | Pending \<comment> \<open>a prompt whose question is never answered: the promise never settles\<close>

text \<open>
  The status lines written by \<^verbatim>\<open>log\<close>, each with the colour the source gives it.
  Banners, rules and blank lines are left out.
\<close>

datatype colour = Green | Red | Yellow | Blue | Cyan | Magenta

datatype line =
    LoadingConfiguration
  | LoadedSuccessfully
  | Analyzing
  | PlaceholderDetected
  | ProductionShouldUseHttps
  | SkippingApiUrlUpdate
  | UpdatedApiUrl string
  | InvalidUrlFormat
  | HintInteractiveApiUrl
  | WildcardInProduction
  | SkippingOriginProtocol string
  | SkippingOriginUrl string
  | UpdatedCorsOrigins "string list"
  | HintInteractiveCors
  | WildcardAcceptable "json option"
  | AdjustedDevelopment
  | AdjustedProduction
  | EnabledCaching
  | EnabledCompression
  | CreatedLogDirectory string
  | CouldNotCreateLogDirectory string
  | AppliedFixes "fix_entry list"
  | NoFixesNeeded
  | WarningsSummary "warning list"
  | ChangesNotSaved
  | SavedSuccessfully
  | ErrorLine thrown

fun colour_of :: "line \<Rightarrow> colour" where
  "colour_of LoadingConfiguration = Blue"
| "colour_of LoadedSuccessfully = Green"
| "colour_of Analyzing = Blue"
| "colour_of PlaceholderDetected = Yellow"
| "colour_of ProductionShouldUseHttps = Yellow"
| "colour_of SkippingApiUrlUpdate = Yellow"
| "colour_of (UpdatedApiUrl u) = Green"
| "colour_of InvalidUrlFormat = Red"
| "colour_of HintInteractiveApiUrl = Cyan"
| "colour_of WildcardInProduction = Yellow"
| "colour_of (SkippingOriginProtocol u) = Yellow"
| "colour_of (SkippingOriginUrl u) = Yellow"
| "colour_of (UpdatedCorsOrigins us) = Green"
| "colour_of HintInteractiveCors = Cyan"
| "colour_of (WildcardAcceptable e) = Cyan"
| "colour_of AdjustedDevelopment = Green"
| "colour_of AdjustedProduction = Green"
| "colour_of EnabledCaching = Green"
| "colour_of EnabledCompression = Green"
| "colour_of (CreatedLogDirectory d) = Green"
| "colour_of (CouldNotCreateLogDirectory d) = Yellow"
| "colour_of (AppliedFixes fs) = Green"
| "colour_of NoFixesNeeded = Green"
| "colour_of (WarningsSummary ws) = Yellow"
| "colour_of ChangesNotSaved = Yellow"
| "colour_of SavedSuccessfully = Green"
| "colour_of (ErrorLine e) = Red"

text \<open>
  The fields of the object, the lines written so far and the lines of standard input
  not yet read by a prompt.
\<close>

record ConfigAutoFix =
  interactive :: bool
  config :: json
  fixes_list :: "fix_entry list"
  warnings :: "warning list"
  out :: "line list"
  answers :: "string list"

type_synonym outcome = "interrupt option \<times> ConfigAutoFix"

definition log_line :: "line \<Rightarrow> ConfigAutoFix \<Rightarrow> ConfigAutoFix" where
  "log_line l s = s\<lparr>out := out s @ [l]\<rparr>"

definition push_fix :: "fix_entry \<Rightarrow> ConfigAutoFix \<Rightarrow> ConfigAutoFix" where
  "push_fix f s = s\<lparr>fixes_list := fixes_list s @ [f]\<rparr>"

definition push_warning :: "warning \<Rightarrow> ConfigAutoFix \<Rightarrow> ConfigAutoFix" where
  "push_warning w s = s\<lparr>warnings := warnings s @ [w]\<rparr>"

text \<open>\<^verbatim>\<open>await this.prompt(question)\<close>: the next line of standard input, if there is one.\<close>

definition prompt :: "ConfigAutoFix \<Rightarrow> (string \<times> ConfigAutoFix) option" where
  "prompt s = (case answers s of [] \<Rightarrow> None | a # rest \<Rightarrow> Some (a, s\<lparr>answers := rest\<rparr>))"

text \<open>\<^verbatim>\<open>answer.toLowerCase() !== 'y'\<close> is false for \<^verbatim>\<open>"y"\<close> and \<^verbatim>\<open>"Y"\<close> only.\<close>

definition is_yes :: "string \<Rightarrow> bool" where
  "is_yes a = (a = ''y'' \<or> a = ''Y'')"

text \<open>
  The host as the scripts meet it. \<open>dir_exists d\<close>: \<^verbatim>\<open>fs.existsSync\<close> finds the
  directory setting \<open>d\<close>, resolved against the directory of the configuration file;
  \<open>mkdir_fails d\<close>: \<^verbatim>\<open>fs.mkdirSync\<close> throws on it; \<open>write_fails\<close>:
  \<^verbatim>\<open>fs.writeFileSync\<close> throws on the configuration path; \<open>node_available\<close>:
  \<^verbatim>\<open>spawn('node', ...)\<close> starts a process.
\<close>

record host =
  dir_exists :: "string \<Rightarrow> bool"
  mkdir_fails :: "string \<Rightarrow> bool"
  write_fails :: bool
  node_available :: bool

subsection \<open>Reads and assignments two and three levels deep\<close>

text \<open>
  \<^verbatim>\<open>this.config.platform.environment\<close>, read without a guard: \<open>None\<close> when the read
  throws, because \<^verbatim>\<open>platform\<close> is \<^verbatim>\<open>undefined\<close> or \<^verbatim>\<open>null\<close>.
\<close>

definition platform_environment :: "json \<Rightarrow> json option option" where
  "platform_environment c =
     (case jget c ''platform'' of
        None \<Rightarrow> None
      | Some JNull \<Rightarrow> None
      | Some p \<Rightarrow> Some (jget p ''environment''))"

text \<open>\<^verbatim>\<open>this.config.a.k = v\<close> and \<^verbatim>\<open>this.config.a.b.k = v\<close>; \<open>None\<close> when the assignment throws.\<close>

definition assign2 :: "string \<Rightarrow> string \<Rightarrow> json \<Rightarrow> json \<Rightarrow> json option" where
  "assign2 a k v c =
     (case jget c a of
        None \<Rightarrow> None
      | Some x \<Rightarrow> (case set_prop x k v of None \<Rightarrow> None | Some x' \<Rightarrow> set_prop c a x'))"

definition assign3 :: "string \<Rightarrow> string \<Rightarrow> string \<Rightarrow> json \<Rightarrow> json \<Rightarrow> json option" where
  "assign3 a b k v c =
     (case jget c a of
        None \<Rightarrow> None
      | Some x \<Rightarrow> (case assign2 b k v x of None \<Rightarrow> None | Some x' \<Rightarrow> set_prop c a x'))"

subsection \<open>\<^verbatim>\<open>analyzeAndFix\<close>: the sections are ensured first\<close>

text \<open>\<^verbatim>\<open>if (!o.k) o.k = {}\<close>; \<open>None\<close> when it throws.\<close>

definition ensure :: "string \<Rightarrow> json \<Rightarrow> json option" where
  "ensure k x =
     (if x = JNull then None
      else if truthy_opt (jget x k) then Some x
      else set_prop x k (JObj []))"

fun ensure_all :: "string list \<Rightarrow> json \<Rightarrow> interrupt option \<times> json" where
  "ensure_all [] c = (None, c)"
| "ensure_all (k # ks) c =
     (case ensure k c of
        None \<Rightarrow> (Some (Throw JsTypeError), c)
      | Some c' \<Rightarrow> ensure_all ks c')"

definition ensure_nested :: "string \<Rightarrow> string \<Rightarrow> json \<Rightarrow> interrupt option \<times> json" where
  "ensure_nested a k c =
     (case jget c a of
        None \<Rightarrow> (Some (Throw JsTypeError), c)
      | Some x \<Rightarrow>
          (case ensure k x of
             None \<Rightarrow> (Some (Throw JsTypeError), c)
           | Some x' \<Rightarrow>
               (case set_prop c a x' of
                  None \<Rightarrow> (Some (Throw JsTypeError), c)
                | Some c' \<Rightarrow> (None, c'))))"

definition sections :: "string list" where
  "sections = [''platform'', ''global'', ''api'', ''security'', ''database'', ''logging'',
               ''performance'']"

definition ensure_sections :: "json \<Rightarrow> interrupt option \<times> json" where
  "ensure_sections c =
     (case ensure_all sections c of
        (Some i, c1) \<Rightarrow> (Some i, c1)
      | (None, c1) \<Rightarrow>
          (case ensure_nested ''performance'' ''caching'' c1 of
             (Some i, c2) \<Rightarrow> (Some i, c2)
           | (None, c2) \<Rightarrow> ensure_nested ''performance'' ''compression'' c2))"

subsection \<open>The rules\<close>

definition and_then :: "(ConfigAutoFix \<Rightarrow> outcome) \<Rightarrow> (ConfigAutoFix \<Rightarrow> outcome) \<Rightarrow> ConfigAutoFix \<Rightarrow> outcome" where
  "and_then f g s = (case f s of (None, s') \<Rightarrow> g s' | (Some i, s') \<Rightarrow> (Some i, s'))"

definition placeholder :: string where
  "placeholder = ''https://api.example.com''"

definition update_api_url :: "js_runtime \<Rightarrow> string \<Rightarrow> ConfigAutoFix \<Rightarrow> outcome" where
  "update_api_url rt newUrl s =
     (case assign2 ''api'' ''baseUrl'' (JStr (trim rt newUrl)) (config s) of
        None \<Rightarrow> (None, log_line InvalidUrlFormat s)
      | Some c' \<Rightarrow>
          (None, log_line (UpdatedApiUrl (trim rt newUrl))
             (push_fix \<lparr>fix_field = ''api.baseUrl'', fix_from = Some (JStr placeholder),
                        fix_to = JStr (trim rt newUrl),
                        fix_reason = ''Replaced placeholder with actual API URL''\<rparr>
                (s\<lparr>config := c'\<rparr>))))"

text \<open>
  Inside the \<^verbatim>\<open>try\<close> of \<^verbatim>\<open>fixPlaceholderApiUrl\<close> every exception, the one of
  \<^verbatim>\<open>new URL\<close> included, is caught and logged as an invalid URL format.
\<close>

definition fixPlaceholderApiUrl :: "js_runtime \<Rightarrow> ConfigAutoFix \<Rightarrow> outcome" where
  "fixPlaceholderApiUrl rt s =
     (let api = jget (config s) ''api'' in
      if truthy_opt api \<and> dot api ''baseUrl'' = Some (JStr placeholder) then
        (let s1 = log_line PlaceholderDetected
                    (push_warning \<lparr>warn_type = ''placeholder'', warn_field = ''api.baseUrl'',
                                    warn_current = JStr placeholder,
                                    warn_issue = ''Using placeholder API URL''\<rparr> s) in
         if interactive s1 then
           (case prompt s1 of
              None \<Rightarrow> (Some Pending, s1)
            | Some (newUrl, s2) \<Rightarrow>
                if newUrl \<noteq> [] \<and> trim rt newUrl \<noteq> [] then
                  (case URL_protocol rt newUrl of
                     None \<Rightarrow> (None, log_line InvalidUrlFormat s2)
                   | Some protocol \<Rightarrow>
                       (case platform_environment (config s2) of
                          None \<Rightarrow> (None, log_line InvalidUrlFormat s2)
                        | Some env \<Rightarrow>
                            if env = Some (JStr ''production'') \<and> protocol \<noteq> ''https:'' then
                              (let s3 = log_line ProductionShouldUseHttps s2 in
                               case prompt s3 of
                                 None \<Rightarrow> (Some Pending, s3)
                               | Some (proceed, s4) \<Rightarrow>
                                   if \<not> is_yes proceed
                                   then (None, log_line SkippingApiUrlUpdate s4)
                                   else update_api_url rt newUrl s4)
                            else update_api_url rt newUrl s2))
                else (None, s2))
         else (None, log_line HintInteractiveApiUrl s1))
      else (None, s))"

text \<open>
  \<^verbatim>\<open>allowedOrigins.includes('*')\<close> on a truthy value: the method of arrays and of
  strings; \<open>None\<close> when the value has no such method and the call throws.
\<close>

fun includes_star :: "json \<Rightarrow> bool option" where
  "includes_star (JArr xs ps) =
     (if map_of ps ''includes'' = None then Some (JStr ''*'' \<in> set xs) else None)"
| "includes_star (JStr s) = Some (CHR ''*'' \<in> set s)"
| "includes_star v = None"

text \<open>\<^verbatim>\<open>response.split(',')\<close>.\<close>

fun split_comma :: "string \<Rightarrow> string list" where
  "split_comma [] = [[]]"
| "split_comma (c # cs) =
     (if c = CHR '','' then [] # split_comma cs
      else (case split_comma cs of [] \<Rightarrow> [[c]] | w # ws \<Rightarrow> (c # w) # ws))"

definition origin_ok :: "js_runtime \<Rightarrow> string \<Rightarrow> bool" where
  "origin_ok rt origin =
     (case URL_protocol rt origin of
        None \<Rightarrow> False
      | Some protocol \<Rightarrow> \<not> (protocol \<noteq> ''https:'' \<and> protocol \<noteq> ''http:''))"

definition origin_line :: "js_runtime \<Rightarrow> string \<Rightarrow> line list" where
  "origin_line rt origin =
     (case URL_protocol rt origin of
        None \<Rightarrow> [SkippingOriginUrl origin]
      | Some protocol \<Rightarrow>
          if protocol \<noteq> ''https:'' \<and> protocol \<noteq> ''http:''
          then [SkippingOriginProtocol origin] else [])"

definition replace_origins :: "js_runtime \<Rightarrow> string \<Rightarrow> ConfigAutoFix \<Rightarrow> outcome" where
  "replace_origins rt response s =
     (let origins = filter (\<lambda>o'. o' \<noteq> []) (map (trim rt) (split_comma response));
          validOrigins = filter (origin_ok rt) origins;
          s1 = s\<lparr>out := out s @ concat (map (origin_line rt) origins)\<rparr> in
      if length validOrigins > 0 then
        (case assign2 ''security'' ''allowedOrigins'' (JArr (map JStr validOrigins) []) (config s1) of
           None \<Rightarrow> (Some (Throw JsTypeError), s1)
         | Some c' \<Rightarrow>
             (None, log_line (UpdatedCorsOrigins validOrigins)
                (push_fix \<lparr>fix_field = ''security.allowedOrigins'',
                           fix_from = Some (JArr [JStr ''*''] []),
                           fix_to = JArr (map JStr validOrigins) [],
                           fix_reason = ''Replaced wildcard CORS with explicit origins for production''\<rparr>
                   (s1\<lparr>config := c'\<rparr>))))
      else (None, s1))"

definition fixWildcardCors :: "js_runtime \<Rightarrow> ConfigAutoFix \<Rightarrow> outcome" where
  "fixWildcardCors rt s =
     (let security = jget (config s) ''security'' in
      case dot security ''allowedOrigins'' of
        None \<Rightarrow> (None, s)
      | Some allowedOrigins \<Rightarrow>
          if truthy_opt security \<and> truthy_opt (dot security ''corsEnabled'') \<and> truthy allowedOrigins
          then
            (case includes_star allowedOrigins of
               None \<Rightarrow> (Some (Throw JsTypeError), s)
             | Some False \<Rightarrow> (None, s)
             | Some True \<Rightarrow>
                 (case platform_environment (config s) of
                    None \<Rightarrow> (Some (Throw JsTypeError), s)
                  | Some env \<Rightarrow>
                      if env = Some (JStr ''production'') then
                        (let s1 = log_line WildcardInProduction
                                    (push_warning
                                       \<lparr>warn_type = ''security'',
                                        warn_field = ''security.allowedOrigins'',
                                        warn_current = allowedOrigins,
                                        warn_issue = ''Wildcard CORS in production is a security risk''\<rparr>
                                       s) in
                         if interactive s1 then
                           (case prompt s1 of
                              None \<Rightarrow> (Some Pending, s1)
                            | Some (response, s2) \<Rightarrow>
                                if response \<noteq> [] \<and> trim rt response \<noteq> []
                                then replace_origins rt response s2
                                else (None, s2))
                         else (None, log_line HintInteractiveCors s1))
                      else (None, log_line (WildcardAcceptable env) s)))
          else (None, s))"

text \<open>
  The block \<^verbatim>\<open>if (this.config.a && this.config.a.k === bad) { this.config.a.k = !bad;
  changed = true; this.fixes.push({...}) }\<close>, which the source writes four times. The
  second component is whether it set \<^verbatim>\<open>changed\<close>.
\<close>

definition flip_flag ::
  "string \<Rightarrow> string \<Rightarrow> bool \<Rightarrow> string \<Rightarrow> string \<Rightarrow> ConfigAutoFix \<Rightarrow> interrupt option \<times> bool \<times> ConfigAutoFix" where
  "flip_flag a k bad field_name reason s =
     (let x = jget (config s) a in
      if truthy_opt x \<and> dot x k = Some (JBool bad) then
        (case assign2 a k (JBool (\<not> bad)) (config s) of
           None \<Rightarrow> (Some (Throw JsTypeError), False, s)
         | Some c' \<Rightarrow>
             (None, True,
              push_fix \<lparr>fix_field = field_name, fix_from = Some (JBool bad),
                         fix_to = JBool (\<not> bad), fix_reason = reason\<rparr>
                (s\<lparr>config := c'\<rparr>)))
      else (None, False, s))"

definition set_debug_level :: "ConfigAutoFix \<Rightarrow> interrupt option \<times> bool \<times> ConfigAutoFix" where
  "set_debug_level s =
     (let logging = jget (config s) ''logging'' in
      if truthy_opt logging \<and> dot logging ''level'' \<noteq> Some (JStr ''debug'') then
        (let originalLevel = dot logging ''level'' in
         case assign2 ''logging'' ''level'' (JStr ''debug'') (config s) of
           None \<Rightarrow> (Some (Throw JsTypeError), False, s)
         | Some c' \<Rightarrow>
             (None, True,
              push_fix \<lparr>fix_field = ''logging.level'', fix_from = originalLevel,
                         fix_to = JStr ''debug'',
                         fix_reason = ''Set debug logging level for development environment''\<rparr>
                (s\<lparr>config := c'\<rparr>)))
      else (None, False, s))"

definition fixEnvironmentSettings :: "ConfigAutoFix \<Rightarrow> outcome" where
  "fixEnvironmentSettings s =
     (case platform_environment (config s) of
        None \<Rightarrow> (Some (Throw JsTypeError), s)
      | Some env \<Rightarrow>
          if env = Some (JStr ''development'') then
            (case flip_flag ''database'' ''enableLogging'' False ''database.enableLogging''
                    ''Enabled database logging for development environment'' s of
               (Some i, changed1, s1) \<Rightarrow> (Some i, s1)
             | (None, changed1, s1) \<Rightarrow>
                 (case set_debug_level s1 of
                    (Some i, changed2, s2) \<Rightarrow> (Some i, s2)
                  | (None, changed2, s2) \<Rightarrow>
                      (None, if changed1 \<or> changed2 then log_line AdjustedDevelopment s2 else s2)))
          else (None, s))"

definition fixProductionSecurity :: "ConfigAutoFix \<Rightarrow> outcome" where
  "fixProductionSecurity s =
     (case platform_environment (config s) of
        None \<Rightarrow> (Some (Throw JsTypeError), s)
      | Some env \<Rightarrow>
          if env = Some (JStr ''production'') then
            (case flip_flag ''security'' ''enableSSL'' False ''security.enableSSL''
                    ''Enabled SSL for production environment'' s of
               (Some i, changed1, s1) \<Rightarrow> (Some i, s1)
             | (None, changed1, s1) \<Rightarrow>
                 (case flip_flag ''security'' ''enableHSTS'' False ''security.enableHSTS''
                         ''Enabled HSTS for production environment'' s1 of
                    (Some i, changed2, s2) \<Rightarrow> (Some i, s2)
                  | (None, changed2, s2) \<Rightarrow>
                      (case flip_flag ''database'' ''enableLogging'' True ''database.enableLogging''
                              ''Disabled database logging for production performance'' s2 of
                         (Some i, changed3, s3) \<Rightarrow> (Some i, s3)
                       | (None, changed3, s3) \<Rightarrow>
                           (None, if changed1 \<or> changed2 \<or> changed3
                                  then log_line AdjustedProduction s3 else s3))))
          else (None, s))"

definition enable_performance :: "string \<Rightarrow> string \<Rightarrow> string \<Rightarrow> line \<Rightarrow> ConfigAutoFix \<Rightarrow> outcome" where
  "enable_performance b field_name reason l s =
     (let x = dot (jget (config s) ''performance'') b in
      if truthy_opt x \<and> dot x ''enabled'' = Some (JBool False) then
        (case assign3 ''performance'' b ''enabled'' (JBool True) (config s) of
           None \<Rightarrow> (Some (Throw JsTypeError), s)
         | Some c' \<Rightarrow>
             (None, log_line l
                (push_fix \<lparr>fix_field = field_name, fix_from = Some (JBool False),
                           fix_to = JBool True, fix_reason = reason\<rparr>
                   (s\<lparr>config := c'\<rparr>))))
      else (None, s))"

definition optimizePerformanceSettings :: "ConfigAutoFix \<Rightarrow> outcome" where
  "optimizePerformanceSettings =
     and_then
       (enable_performance ''caching'' ''performance.caching.enabled''
          ''Enabled caching for better performance'' EnabledCaching)
       (enable_performance ''compression'' ''performance.compression.enabled''
          ''Enabled compression for better performance'' EnabledCompression)"

text \<open>
  \<^verbatim>\<open>path.resolve\<close> throws a \<^verbatim>\<open>TypeError\<close> on a directory setting that is not a
  string; an exception of \<^verbatim>\<open>mkdirSync\<close> is caught and logged.
\<close>

definition fixLoggingSettings :: "host \<Rightarrow> ConfigAutoFix \<Rightarrow> outcome" where
  "fixLoggingSettings h s =
     (let logging = jget (config s) ''logging'' in
      if truthy_opt logging \<and> truthy_opt (dot logging ''enableFile'') then
        (case (if truthy_opt (dot logging ''logDirectory'') then dot logging ''logDirectory''
               else Some (JStr ''./logs'')) of
           Some (JStr logDir) \<Rightarrow>
             if dir_exists h logDir then (None, s)
             else if mkdir_fails h logDir then (None, log_line (CouldNotCreateLogDirectory logDir) s)
             else (None, log_line (CreatedLogDirectory logDir) s)
         | _ \<Rightarrow> (Some (Throw JsTypeError), s))
      else (None, s))"

definition analyzeAndFix :: "js_runtime \<Rightarrow> host \<Rightarrow> ConfigAutoFix \<Rightarrow> outcome" where
  "analyzeAndFix rt h s =
     (case ensure_sections (config s) of
        (Some i, c) \<Rightarrow> (Some i, (log_line Analyzing s)\<lparr>config := c\<rparr>)
      | (None, c) \<Rightarrow>
          and_then (fixPlaceholderApiUrl rt)
            (and_then (fixWildcardCors rt)
               (and_then fixEnvironmentSettings
                  (and_then fixProductionSecurity
                     (and_then optimizePerformanceSettings (fixLoggingSettings h)))))
            ((log_line Analyzing s)\<lparr>config := c\<rparr>))"

subsection \<open>\<^verbatim>\<open>run\<close> and the command line\<close>

definition displaySummary :: "ConfigAutoFix \<Rightarrow> ConfigAutoFix" where
  "displaySummary s =
     (let s1 = (if length (fixes_list s) > 0 then log_line (AppliedFixes (fixes_list s)) s
                else log_line NoFixesNeeded s) in
      if length (warnings s1) > 0 then log_line (WarningsSummary (warnings s1)) s1 else s1)"

text \<open>
  What parsing gives back for the text \<^verbatim>\<open>JSON.stringify\<close> writes: the named
  properties added to an array are not serialised.
\<close>

fun reparse :: "json \<Rightarrow> json" where
  "reparse (JArr xs ps) = JArr (map reparse xs) []"
| "reparse (JObj ps) = JObj (map (\<lambda>(k, v). (k, reparse v)) ps)"
| "reparse v = v"

definition saveConfig :: "host \<Rightarrow> disk_file \<Rightarrow> ConfigAutoFix \<Rightarrow> interrupt option \<times> ConfigAutoFix \<times> disk_file" where
  "saveConfig h f s =
     (let write = (\<lambda>s'. if write_fails h then (Some (Throw FailedToSave), s', f)
                         else (None, log_line SavedSuccessfully s', Doc (reparse (config s')))) in
      if interactive s then
        (case prompt s of
           None \<Rightarrow> (Some Pending, s, f)
         | Some (response, s1) \<Rightarrow>
             if \<not> is_yes response then (None, log_line ChangesNotSaved s1, f) else write s1)
      else write s)"

definition loadConfig :: "disk_file \<Rightarrow> ConfigAutoFix \<Rightarrow> outcome" where
  "loadConfig f s =
     (case f of
        Doc c \<Rightarrow> (None, log_line LoadedSuccessfully ((log_line LoadingConfiguration s)\<lparr>config := c\<rparr>))
      | _ \<Rightarrow> (Some (Throw FailedToLoad), log_line LoadingConfiguration s))"

text \<open>The \<^verbatim>\<open>catch\<close> of \<^verbatim>\<open>run\<close>; a pending prompt is not an exception, and \<^verbatim>\<open>run\<close> never returns.\<close>

definition caught :: "interrupt \<Rightarrow> ConfigAutoFix \<Rightarrow> disk_file \<Rightarrow> bool option \<times> ConfigAutoFix \<times> disk_file" where
  "caught i s f =
     (case i of
        Throw e \<Rightarrow> (Some False, log_line (ErrorLine e) s, f)
      | Pending \<Rightarrow> (None, s, f))"

definition run :: "js_runtime \<Rightarrow> host \<Rightarrow> disk_file \<Rightarrow> ConfigAutoFix \<Rightarrow> bool option \<times> ConfigAutoFix \<times> disk_file" where
  "run rt h f s =
     (case loadConfig f s of
        (Some i, s1) \<Rightarrow> caught i s1 f
      | (None, s1) \<Rightarrow>
          (case analyzeAndFix rt h s1 of
             (Some i, s2) \<Rightarrow> caught i s2 f
           | (None, s2) \<Rightarrow>
               (let s3 = displaySummary s2 in
                if length (fixes_list s3) > 0 then
                  (case saveConfig h f s3 of
                     (Some i, s4, f') \<Rightarrow> caught i s4 f'
                   | (None, s4, f') \<Rightarrow>
                       (Some (length (fixes_list s4) = 0 \<and> length (warnings s4) = 0), s4, f'))
                else (Some (length (fixes_list s3) = 0 \<and> length (warnings s3) = 0), s3, f))))"

text \<open>\<^verbatim>\<open>new ConfigAutoFix(configPath, { interactive })\<close>, with standard input.\<close>

definition new_ConfigAutoFix :: "bool \<Rightarrow> string list \<Rightarrow> ConfigAutoFix" where
  "new_ConfigAutoFix i stdin =
     \<lparr>interactive = i, config = JNull, fixes_list = [], warnings = [], out = [], answers = stdin\<rparr>"

definition default_path :: string where
  "default_path = ''./liveplatform.config.json''"

text \<open>
  \<^verbatim>\<open>main\<close> of auto-fix-config.js: the exit code (\<open>None\<close> when \<^verbatim>\<open>process.exit\<close> is never
  reached), the lines written and the files.
\<close>

definition autofix_main ::
  "js_runtime \<Rightarrow> host \<Rightarrow> string list \<Rightarrow> string list \<Rightarrow> (string \<Rightarrow> disk_file)
     \<Rightarrow> nat option \<times> ConfigAutoFix \<times> (string \<Rightarrow> disk_file)" where
  "autofix_main rt h args stdin files =
     (let interactive = (''--no-interactive'' \<notin> set args);
          configPath = (case find (\<lambda>arg. take 2 arg \<noteq> ''--'') args of
                          None \<Rightarrow> default_path
                        | Some p \<Rightarrow> if p = [] then default_path else p) in
      if ''--help'' \<in> set args then (Some 0, new_ConfigAutoFix interactive stdin, files)
      else
        (case run rt h (files configPath) (new_ConfigAutoFix interactive stdin) of
           (success, s, f') \<Rightarrow>
             ((case success of None \<Rightarrow> None | Some b \<Rightarrow> Some (if b then 0 else 1)),
              s, files(configPath := f'))))"

section \<open>The orchestrator (automate.js)\<close>

text \<open>
  \<^verbatim>\<open>runCommand\<close> starts \<^verbatim>\<open>node\<close> in the directory of the scripts, where the
  validator's \<^verbatim>\<open>liveplatform.config.json\<close> and the fixer's default path are the same
  file; it rejects when \<^verbatim>\<open>node\<close> cannot be started, and \<^verbatim>\<open>main\<close> then returns 1.
\<close>

definition automate_main ::
  "js_runtime \<Rightarrow> host \<Rightarrow> string list \<Rightarrow> string list \<Rightarrow> (string \<Rightarrow> disk_file)
     \<Rightarrow> nat \<times> (string \<Rightarrow> disk_file)" where
  "automate_main rt h args stdin files =
     (let skipFix = (''--validate-only'' \<in> set args);
          noInteractive = (''--no-interactive'' \<in> set args) in
      if ''--help'' \<in> set args then (0, files)
      else if \<not> node_available h then (1, files)
      else
        (let validateCode = validate_exit rt (files default_path) in
         if validateCode = 0 \<and> skipFix then (0, files)
         else if \<not> skipFix then
           (let fixArgs = (if noInteractive then [''--no-interactive''] else []) in
            case autofix_main rt h fixArgs stdin files of
              (fixCode, s, files') \<Rightarrow>
                (let revalidateCode = validate_exit rt (files' default_path) in
                 if revalidateCode = 0 then (0, files') else (1, files')))
         else (0, files)))"

section \<open>Auxiliary notions for the proofs\<close>

text \<open>The shape three non-empty runs of digits separated by two dots, written out.\<close>

definition semver_shaped :: "string \<Rightarrow> bool" where
  "semver_shaped s =
     (\<exists>a b c. s = a @ ''.'' @ b @ ''.'' @ c \<and> a \<noteq> [] \<and> b \<noteq> [] \<and> c \<noteq> []
        \<and> list_all is_digit a \<and> list_all is_digit b \<and> list_all is_digit c)"

text \<open>An engine for closed examples: no conversion of containers, no URL parses, trimming is the identity.\<close>

definition plain_engine :: js_runtime where
  "plain_engine =
     \<lparr>ToNumber_ext = (\<lambda>v. None), ToString_ext = (\<lambda>v. []), URL_protocol = (\<lambda>s. None),
      trim = (\<lambda>s. s)\<rparr>"

text \<open>The ranges of the authentication section as the specification words them.\<close>

definition spec_auth_in_range :: "json \<Rightarrow> bool" where
  "spec_auth_in_range a =
     ((case jget a ''sessionTimeout'' of Some (JNum n) \<Rightarrow> 60 \<le> n | _ \<Rightarrow> False)
      \<and> (case jget a ''maxLoginAttempts'' of Some (JNum n) \<Rightarrow> 1 \<le> n \<and> n \<le> 10 | _ \<Rightarrow> False))"

text \<open>The smallest configuration with the required sections, followed by further sections.\<close>

definition cfg_minimal :: "string \<Rightarrow> string \<Rightarrow> (string \<times> json) list \<Rightarrow> json" where
  "cfg_minimal version environment extra =
     JObj ([(''platform'', JObj [(''name'', JStr ''Live''), (''version'', JStr version),
                                 (''environment'', JStr environment)]),
            (''global'', JObj [(''enabled'', JBool True), (''timezone'', JStr ''UTC'')])] @ extra)"

text \<open>The configuration is unchanged outside the paths of \<^verbatim>\<open>E2\<close> (two levels) and \<^verbatim>\<open>E3\<close> (three levels).\<close>

definition frame :: "(string \<times> string) set \<Rightarrow> (string \<times> string \<times> string) set \<Rightarrow> json \<Rightarrow> json \<Rightarrow> bool" where
  "frame E2 E3 c c' =
     ((\<forall>a. (\<forall>k. (a, k) \<notin> E2) \<and> (\<forall>b k. (a, b, k) \<notin> E3) \<longrightarrow> jget c' a = jget c a)
      \<and> (\<forall>a k. (a, k) \<notin> E2 \<and> (\<forall>k'. (a, k, k') \<notin> E3) \<longrightarrow> dot (jget c' a) k = dot (jget c a) k)
      \<and> (\<forall>a b k. (a, b) \<notin> E2 \<and> (a, b, k) \<notin> E3 \<longrightarrow>
            dot (dot (jget c' a) b) k = dot (dot (jget c a) b) k))"

text \<open>What one rule may do: append fixes on fields of \<^verbatim>\<open>F\<close>, append warnings on fields of \<^verbatim>\<open>W\<close>, and assign inside the frame.\<close>

definition step :: "string set \<Rightarrow> string set \<Rightarrow> (string \<times> string) set \<Rightarrow> (string \<times> string \<times> string) set
    \<Rightarrow> ConfigAutoFix \<Rightarrow> ConfigAutoFix \<Rightarrow> bool" where
  "step F W E2 E3 s s' =
     (interactive s' = interactive s
      \<and> (\<exists>fs. fixes_list s' = fixes_list s @ fs \<and> fix_field ` set fs \<subseteq> F)
      \<and> (\<exists>ws. warnings s' = warnings s @ ws \<and> warn_field ` set ws \<subseteq> W)
      \<and> frame E2 E3 (config s) (config s'))"

text \<open>The fix entry a rule records when it flips a boolean.\<close>

definition flip_entry :: "bool \<Rightarrow> string \<Rightarrow> string \<Rightarrow> fix_entry" where
  "flip_entry bad field_name reason =
     \<lparr>fix_field = field_name, fix_from = Some (JBool bad), fix_to = JBool (\<not> bad), fix_reason = reason\<rparr>"

text \<open>A value is kept, or was falsy and is now the empty object.\<close>

definition inserted :: "json option \<Rightarrow> json option \<Rightarrow> bool" where
  "inserted v v' = (v' = v \<or> (\<not> truthy_opt v \<and> v' = Some (JObj [])))"

text \<open>What the insertion of the default sub-objects may change.\<close>

definition ensured :: "json \<Rightarrow> json \<Rightarrow> bool" where
  "ensured c c' =
     ((\<forall>a. a \<notin> set sections \<longrightarrow> jget c' a = jget c a)
      \<and> (\<forall>a. a \<noteq> ''performance'' \<longrightarrow> inserted (jget c a) (jget c' a))
      \<and> (\<forall>a b. (a, b) \<noteq> (''performance'', ''caching'') \<and> (a, b) \<noteq> (''performance'', ''compression'')
             \<longrightarrow> dot (jget c' a) b = dot (jget c a) b)
      \<and> (\<forall>a b. inserted (dot (jget c a) b) (dot (jget c' a) b))
      \<and> (\<forall>a b k. dot (dot (jget c' a) b) k = dot (dot (jget c a) b) k))"


text \<open>A value after a flip rule: changed only where it was exactly the bad boolean.\<close>

definition flipped :: "bool \<Rightarrow> json option \<Rightarrow> json option" where
  "flipped bad v = (if v = Some (JBool bad) then Some (JBool (\<not> bad)) else v)"


text \<open>A host on which every directory exists, the file can be written and node is found.\<close>

definition plain_host :: host where
  "plain_host =
     \<lparr>dir_exists = (\<lambda>d. True), mkdir_fails = (\<lambda>d. False), write_fails = False,
      node_available = True\<rparr>"


text \<open>
  The fields every mode of the fixer may assign: their names as the fix entries give
  them, and their paths two and three levels deep.
\<close>

definition auto_fields :: "string set" where
  "auto_fields =
     {''database.enableLogging'', ''logging.level'', ''security.enableSSL'', ''security.enableHSTS'',
      ''performance.caching.enabled'', ''performance.compression.enabled''}"

definition auto_paths2 :: "(string \<times> string) set" where
  "auto_paths2 =
     {(''database'', ''enableLogging''), (''logging'', ''level''), (''security'', ''enableSSL''),
      (''security'', ''enableHSTS'')}"

definition auto_paths3 :: "(string \<times> string \<times> string) set" where
  "auto_paths3 =
     {(''performance'', ''caching'', ''enabled''), (''performance'', ''compression'', ''enabled'')}"


definition wildcard_warning :: "json \<Rightarrow> warning" where
  "wildcard_warning origins =
     \<lparr>warn_type = ''security'', warn_field = ''security.allowedOrigins'', warn_current = origins,
      warn_issue = ''Wildcard CORS in production is a security risk''\<rparr>"


text \<open>
  A production configuration with the placeholder API URL, wildcard CORS, SSL switched
  off and one section the fixer does not know.
\<close>

definition cfg_wildcard :: json where
  "cfg_wildcard =
     cfg_minimal ''1.2.3'' ''production''
       [(''api'', JObj [(''baseUrl'', JStr ''https://api.example.com'')]),
        (''security'', JObj [(''corsEnabled'', JBool True),
                             (''allowedOrigins'', JArr [JStr ''*''] []),
                             (''enableSSL'', JBool False)]),
        (''features'', JObj [(''enabled'', JBool True)])]"


text \<open>A file system that holds one file, at the default path.\<close>

definition only_file :: "disk_file \<Rightarrow> string \<Rightarrow> disk_file" where
  "only_file f = (\<lambda>p. if p = default_path then f else NoFile)"

definition lines_of_colour :: "colour \<Rightarrow> line list \<Rightarrow> line list" where
  "lines_of_colour c ls = filter (\<lambda>l. colour_of l = c) ls"

text \<open>A development configuration whose database logging is switched off.\<close>

definition cfg_development :: json where
  "cfg_development =
     cfg_minimal ''1.2.3'' ''development'' [(''database'', JObj [(''enableLogging'', JBool False)])]"


text \<open>Two objects that differ at most in the lines written.\<close>

definition same_but_out :: "ConfigAutoFix \<Rightarrow> ConfigAutoFix \<Rightarrow> bool" where
  "same_but_out s t =
     (interactive t = interactive s \<and> config t = config s \<and> fixes_list t = fixes_list s
      \<and> warnings t = warnings s \<and> answers t = answers s)"

text \<open>A host on which no directory exists, none can be created and the file cannot be written.\<close>

definition broken_host :: host where
  "broken_host =
     \<lparr>dir_exists = (\<lambda>d. False), mkdir_fails = (\<lambda>d. True), write_fails = True,
      node_available = True\<rparr>"

text \<open>
  A development configuration that logs to files, in a directory of its own, and whose
  database logging is switched off.
\<close>

definition cfg_file_logging :: json where
  "cfg_file_logging =
     cfg_minimal ''1.2.3'' ''development''
       [(''database'', JObj [(''enableLogging'', JBool False)]),
        (''logging'', JObj [(''level'', JStr ''debug''), (''enableFile'', JBool True),
                            (''logDirectory'', JStr ''./var/log'')])]"


definition alike :: "outcome \<Rightarrow> outcome \<Rightarrow> bool" where
  "alike x y = (fst x = fst y \<and> same_but_out (snd x) (snd y))"


text \<open>
  No rule of the fixer finds the value it corrects; wildcard CORS is detected; no
  prompt would be raised in production.
\<close>

definition no_rule_applies :: "json \<Rightarrow> bool" where
  "no_rule_applies c =
     (dot (jget c ''security'') ''enableSSL'' \<noteq> Some (JBool False)
      \<and> dot (jget c ''security'') ''enableHSTS'' \<noteq> Some (JBool False)
      \<and> dot (jget c ''database'') ''enableLogging'' \<noteq> Some (JBool True)
      \<and> dot (dot (jget c ''performance'') ''caching'') ''enabled'' \<noteq> Some (JBool False)
      \<and> dot (dot (jget c ''performance'') ''compression'') ''enabled'' \<noteq> Some (JBool False))"

definition wildcard_detected :: "json \<Rightarrow> bool" where
  "wildcard_detected c =
     (truthy_opt (dot (jget c ''security'') ''corsEnabled'')
      \<and> (case dot (jget c ''security'') ''allowedOrigins'' of
            None \<Rightarrow> False
          | Some allowedOrigins \<Rightarrow> truthy allowedOrigins \<and> includes_star allowedOrigins = Some True))"

definition no_prompt :: "json \<Rightarrow> bool" where
  "no_prompt c =
     (dot (jget c ''api'') ''baseUrl'' \<noteq> Some (JStr placeholder) \<and> \<not> wildcard_detected c)"

definition settled :: "ConfigAutoFix \<Rightarrow> bool" where
  "settled s =
     (dot (jget (config s) ''platform'') ''environment'' = Some (JStr ''production'')
      \<and> no_rule_applies (config s)
      \<and> (\<not> interactive s \<or> no_prompt (config s)))"

text \<open>A production configuration that passes validation and has SSL switched off.\<close>

definition cfg_ssl_off :: json where
  "cfg_ssl_off =
     cfg_minimal ''1.2.3'' ''production'' [(''security'', JObj [(''enableSSL'', JBool False)])]"


text \<open>
  The shape the fixer relies on, as the data model gives it: the document and, where
  present, the sections \<^verbatim>\<open>performance\<close> and \<^verbatim>\<open>logging\<close> are objects (or arrays, which
  take named properties too); \<^verbatim>\<open>security.allowedOrigins\<close>, where CORS is enabled, is
  an array or a string; \<^verbatim>\<open>logging.logDirectory\<close>, where file logging is enabled, is a
  string.
\<close>

definition is_container :: "json \<Rightarrow> bool" where
  "is_container v = (case v of JObj ps \<Rightarrow> True | JArr xs ps \<Rightarrow> True | _ \<Rightarrow> False)"

definition container_or_missing :: "json option \<Rightarrow> bool" where
  "container_or_missing v = (case v of None \<Rightarrow> True | Some j \<Rightarrow> \<not> truthy j \<or> is_container j)"

definition origins_ok :: "json \<Rightarrow> bool" where
  "origins_ok c =
     (case dot (jget c ''security'') ''allowedOrigins'' of
        None \<Rightarrow> True
      | Some allowedOrigins \<Rightarrow>
          \<not> truthy_opt (dot (jget c ''security'') ''corsEnabled'') \<or> \<not> truthy allowedOrigins
          \<or> includes_star allowedOrigins \<noteq> None)"

definition log_directory_ok :: "json \<Rightarrow> bool" where
  "log_directory_ok c =
     (\<not> truthy_opt (dot (jget c ''logging'') ''enableFile'')
      \<or> (case dot (jget c ''logging'') ''logDirectory'' of
            None \<Rightarrow> True
          | Some (JStr d) \<Rightarrow> True
          | Some j \<Rightarrow> \<not> truthy j))"

definition well_shaped :: "json \<Rightarrow> bool" where
  "well_shaped c =
     (is_container c \<and> container_or_missing (jget c ''performance'')
      \<and> container_or_missing (jget c ''logging'') \<and> origins_ok c \<and> log_directory_ok c)"

section \<open>Properties\<close>

lemma dot_not_digit [simp]: "\<not> is_digit CHR ''.''"
  by (simp add: is_digit_def)

lemma takeWhile_digits: "list_all is_digit a \<Longrightarrow> takeWhile is_digit (a @ CHR ''.'' # r) = a"
  by (induction a) auto

lemma dropWhile_digits: "list_all is_digit a \<Longrightarrow> dropWhile is_digit (a @ CHR ''.'' # r) = CHR ''.'' # r"
  by (induction a) auto

lemma list_all_takeWhile: "list_all P (takeWhile P xs)"
  by (induction xs) auto

lemma versionRegex_test_imp: "versionRegex_test s \<Longrightarrow> semver_shaped s"
proof -
  assume t: "versionRegex_test s"
  define a where "a = takeWhile is_digit s"
  define r1 where "r1 = dropWhile is_digit s"
  have s: "s = a @ r1" by (simp add: a_def r1_def)
  from t have a: "a \<noteq> []" by (simp add: versionRegex_test_def Let_def a_def)
  from t obtain r2 where r1: "r1 = CHR ''.'' # r2"
    by (auto simp: versionRegex_test_def Let_def r1_def split: list.splits)
  define b where "b = takeWhile is_digit r2"
  define r3 where "r3 = dropWhile is_digit r2"
  have r2: "r2 = b @ r3" by (simp add: b_def r3_def)
  from t r1 have b: "b \<noteq> []"
    by (auto simp: versionRegex_test_def Let_def r1_def b_def split: list.splits)
  from t r1 obtain c where r3: "r3 = CHR ''.'' # c" and c: "c \<noteq> []" "list_all is_digit c"
    by (auto simp: versionRegex_test_def Let_def r1_def r3_def split: list.splits)
  have "s = a @ ''.'' @ b @ ''.'' @ c" using s r1 r2 r3 by simp
  moreover have "list_all is_digit a" "list_all is_digit b"
    by (simp_all add: a_def b_def list_all_takeWhile)
  ultimately show ?thesis unfolding semver_shaped_def using a b c by blast
qed

lemma semver_shaped_imp: "semver_shaped s \<Longrightarrow> versionRegex_test s"
  unfolding semver_shaped_def
  by (auto simp: versionRegex_test_def Let_def takeWhile_digits dropWhile_digits)

lemma versionRegex_test_iff: "versionRegex_test s = semver_shaped s"
  using versionRegex_test_imp semver_shaped_imp by blast

lemma first_failure_Inr: "(first_failure cs = Inr ()) = (\<forall>c \<in> set cs. c = None)"
  by (induction cs rule: first_failure.induct) auto

lemma validate_Doc_iff:
  "(validateConfiguration rt (Doc c) = Inr ()) =
     (check_sections c = None \<and> check_platform rt c = None \<and> check_global c = None
      \<and> check_authentication rt c = None \<and> check_api rt c = None \<and> check_logging c = None)"
  by (simp add: validateConfiguration_def first_failure_Inr)

lemma check_platform_version:
  "check_platform rt c = None \<Longrightarrow>
     \<exists>v. dot (jget c ''platform'') ''version'' = Some v \<and> versionRegex_test (ToString rt v)"
  by (cases "dot (jget c ''platform'') ''version''")
     (auto simp: check_platform_def Let_def truthy_opt_def ToString_opt_def split: if_splits)

lemma check_platform_not_VersionNotSemantic:
  "dot (jget c ''platform'') ''version'' = Some (JStr ''1.2.3'') \<Longrightarrow> check_platform rt c \<noteq> Some VersionNotSemantic"
  by (simp add: check_platform_def Let_def ToString_def ToString_opt_def versionRegex_test_def is_digit_def)

lemma first_failure_Inl: "first_failure cs = Inl e \<Longrightarrow> Some e \<in> set cs"
  by (induction cs rule: first_failure.induct) auto

lemma check_sections_range: "check_sections c \<noteq> Some VersionNotSemantic"
  by (simp add: check_sections_def Let_def)
lemma check_global_range: "check_global c \<noteq> Some VersionNotSemantic"
  by (simp add: check_global_def Let_def split: option.splits json.splits)
lemma check_authentication_range: "check_authentication rt c \<noteq> Some VersionNotSemantic"
  by (simp add: check_authentication_def Let_def)
lemma check_api_range: "check_api rt c \<noteq> Some VersionNotSemantic"
  by (simp add: check_api_def Let_def)
lemma check_logging_range: "check_logging c \<noteq> Some VersionNotSemantic"
  by (simp add: check_logging_def Let_def)

lemmas eval_simps = cfg_minimal_def plain_engine_def validateConfiguration_def check_sections_def
  check_platform_def check_global_def check_authentication_def check_api_def check_logging_def
  requiredSections_def validEnvironments_def validLevels_def truthy_opt_def dot_def
  includes_str_def ToString_def ToNumber_def js_lt_def js_gt_def versionRegex_test_def is_digit_def
  ToString_opt_def lt_opt_def gt_opt_def
  Let_def

lemma map_of_upd: "map_of (upd k v ps) k' = (if k' = k then Some v else map_of ps k')"
  by (induction ps) auto

lemma jget_set_prop:
  "set_prop x k v = Some x' \<Longrightarrow> jget x' k' = (if k' = k then Some v else jget x k')"
  by (cases x) (auto simp: map_of_upd)

lemma set_prop_Some_iff: "(\<exists>x'. set_prop x k v = Some x') = (\<exists>y. jget x k = y \<and> (case x of JObj ps \<Rightarrow> True | JArr xs ps \<Rightarrow> True | _ \<Rightarrow> False))"
  by (cases x) auto

lemma jget_Some_set_prop: "jget x k = Some y \<Longrightarrow> \<exists>x'. set_prop x k' v = Some x'"
  by (cases x) auto

lemma dot_Some_set_prop: "dot w k = Some y \<Longrightarrow> \<exists>x. w = Some x \<and> (\<exists>x'. set_prop x k' v = Some x')"
  by (cases w) (auto simp: dot_def dest: jget_Some_set_prop)

lemma assign2_jget:
  "assign2 a k v c = Some c' \<Longrightarrow> a' \<noteq> a \<Longrightarrow> jget c' a' = jget c a'"
  by (auto simp: assign2_def jget_set_prop split: option.splits)

lemma assign2_dot:
  "assign2 a k v c = Some c' \<Longrightarrow> dot (jget c' a) k' = (if k' = k then Some v else dot (jget c a) k')"
  by (auto simp: assign2_def jget_set_prop dot_def split: option.splits)

lemma assign2_succeeds:
  "dot (jget c a) k' = Some y \<Longrightarrow> \<exists>c'. assign2 a k v c = Some c'"
proof -
  assume h: "dot (jget c a) k' = Some y"
  then obtain x where x: "jget c a = Some x" and y: "jget x k' = Some y"
    by (cases "jget c a") (auto simp: dot_def)
  from jget_Some_set_prop [OF y] obtain x' where x': "set_prop x k v = Some x'" by blast
  from jget_Some_set_prop [OF x] obtain c' where "set_prop c a x' = Some c'" by blast
  with x x' show ?thesis by (simp add: assign2_def)
qed

lemma assign3_jget:
  "assign3 a b k v c = Some c' \<Longrightarrow> a' \<noteq> a \<Longrightarrow> jget c' a' = jget c a'"
  by (auto simp: assign3_def jget_set_prop split: option.splits)

lemma assign3_dot:
  "assign3 a b k v c = Some c' \<Longrightarrow> b' \<noteq> b \<Longrightarrow> dot (jget c' a) b' = dot (jget c a) b'"
  by (auto simp: assign3_def jget_set_prop dot_def dest: assign2_jget split: option.splits)

lemma assign3_dot_dot:
  "assign3 a b k v c = Some c' \<Longrightarrow>
     dot (dot (jget c' a) b) k' = (if k' = k then Some v else dot (dot (jget c a) b) k')"
proof -
  assume h: "assign3 a b k v c = Some c'"
  then obtain x x' where x: "jget c a = Some x" and x': "assign2 b k v x = Some x'"
    and c': "set_prop c a x' = Some c'"
    by (auto simp: assign3_def split: option.splits)
  have "jget c' a = Some x'" using jget_set_prop [OF c', of a] by simp
  then show ?thesis using assign2_dot [OF x', of k'] x by (simp add: dot_def)
qed

lemma assign3_succeeds:
  "dot (dot (jget c a) b) k' = Some y \<Longrightarrow> \<exists>c'. assign3 a b k v c = Some c'"
proof -
  assume h: "dot (dot (jget c a) b) k' = Some y"
  then obtain x where x: "jget c a = Some x" by (cases "jget c a") (auto simp: dot_def)
  with h have "dot (jget x b) k' = Some y" by (simp add: dot_def)
  from assign2_succeeds [OF this] obtain x' where "assign2 b k v x = Some x'" by blast
  with x jget_Some_set_prop [OF x] show ?thesis by (auto simp: assign3_def)
qed

lemma frame_refl: "frame E2 E3 c c"
  by (simp add: frame_def)

lemma frame_jget:
  "frame E2 E3 c c' \<Longrightarrow> \<forall>k. (a, k) \<notin> E2 \<Longrightarrow> \<forall>b k. (a, b, k) \<notin> E3 \<Longrightarrow> jget c' a = jget c a"
  by (simp add: frame_def)

lemma frame_dot:
  "frame E2 E3 c c' \<Longrightarrow> (a, k) \<notin> E2 \<Longrightarrow> \<forall>k'. (a, k, k') \<notin> E3 \<Longrightarrow>
     dot (jget c' a) k = dot (jget c a) k"
  by (simp add: frame_def)

lemma frame_dot_dot:
  "frame E2 E3 c c' \<Longrightarrow> (a, b) \<notin> E2 \<Longrightarrow> (a, b, k) \<notin> E3 \<Longrightarrow>
     dot (dot (jget c' a) b) k = dot (dot (jget c a) b) k"
  by (simp add: frame_def)

lemma frame_trans:
  assumes 1: "frame E2 E3 c c'" and 2: "frame E2' E3' c' c''"
  shows "frame (E2 \<union> E2') (E3 \<union> E3') c c''"
  unfolding frame_def
proof (intro conjI allI impI)
  fix a
  assume h: "(\<forall>k. (a, k) \<notin> E2 \<union> E2') \<and> (\<forall>b k. (a, b, k) \<notin> E3 \<union> E3')"
  have "jget c'' a = jget c' a" by (rule frame_jget [OF 2]) (use h in simp_all)
  also have "\<dots> = jget c a" by (rule frame_jget [OF 1]) (use h in simp_all)
  finally show "jget c'' a = jget c a" .
next
  fix a k
  assume h: "(a, k) \<notin> E2 \<union> E2' \<and> (\<forall>k'. (a, k, k') \<notin> E3 \<union> E3')"
  have "dot (jget c'' a) k = dot (jget c' a) k" by (rule frame_dot [OF 2]) (use h in simp_all)
  also have "\<dots> = dot (jget c a) k" by (rule frame_dot [OF 1]) (use h in simp_all)
  finally show "dot (jget c'' a) k = dot (jget c a) k" .
next
  fix a b k
  assume h: "(a, b) \<notin> E2 \<union> E2' \<and> (a, b, k) \<notin> E3 \<union> E3'"
  have "dot (dot (jget c'' a) b) k = dot (dot (jget c' a) b) k"
    by (rule frame_dot_dot [OF 2]) (use h in simp_all)
  also have "\<dots> = dot (dot (jget c a) b) k" by (rule frame_dot_dot [OF 1]) (use h in simp_all)
  finally show "dot (dot (jget c'' a) b) k = dot (dot (jget c a) b) k" .
qed

lemma frame_mono:
  assumes 1: "frame E2 E3 c c'" and s2: "E2 \<subseteq> E2'" and s3: "E3 \<subseteq> E3'"
  shows "frame E2' E3' c c'"
  unfolding frame_def
proof (intro conjI allI impI)
  fix a
  assume h: "(\<forall>k. (a, k) \<notin> E2') \<and> (\<forall>b k. (a, b, k) \<notin> E3')"
  show "jget c' a = jget c a" by (rule frame_jget [OF 1]) (use h s2 s3 in blast)+
next
  fix a k
  assume h: "(a, k) \<notin> E2' \<and> (\<forall>k'. (a, k, k') \<notin> E3')"
  show "dot (jget c' a) k = dot (jget c a) k" by (rule frame_dot [OF 1]) (use h s2 s3 in blast)+
next
  fix a b k
  assume h: "(a, b) \<notin> E2' \<and> (a, b, k) \<notin> E3'"
  show "dot (dot (jget c' a) b) k = dot (dot (jget c a) b) k"
    by (rule frame_dot_dot [OF 1]) (use h s2 s3 in blast)+
qed

lemma frame_assign2: "assign2 a k v c = Some c' \<Longrightarrow> frame {(a, k)} {} c c'"
  unfolding frame_def
proof (intro conjI allI impI)
  assume h: "assign2 a k v c = Some c'"
  { fix a' assume "(\<forall>k'. (a', k') \<notin> {(a, k)}) \<and> (\<forall>b k'. (a', b, k') \<notin> ({} :: (string \<times> string \<times> string) set))"
    then have "a' \<noteq> a" by auto
    then show "jget c' a' = jget c a'" using assign2_jget [OF h] by simp }
  { fix a' k' assume "(a', k') \<notin> {(a, k)} \<and> (\<forall>k''. (a', k', k'') \<notin> ({} :: (string \<times> string \<times> string) set))"
    then have d: "a' \<noteq> a \<or> k' \<noteq> k" by auto
    show "dot (jget c' a') k' = dot (jget c a') k'"
    proof (cases "a' = a")
      case True with d assign2_dot [OF h, of k'] show ?thesis by simp
    next
      case False with assign2_jget [OF h, of a'] show ?thesis by simp
    qed }
  { fix a' b' k' assume "(a', b') \<notin> {(a, k)} \<and> (a', b', k') \<notin> ({} :: (string \<times> string \<times> string) set)"
    then have d: "a' \<noteq> a \<or> b' \<noteq> k" by auto
    have "dot (jget c' a') b' = dot (jget c a') b'"
    proof (cases "a' = a")
      case True with d assign2_dot [OF h, of b'] show ?thesis by simp
    next
      case False with assign2_jget [OF h, of a'] show ?thesis by simp
    qed
    then show "dot (dot (jget c' a') b') k' = dot (dot (jget c a') b') k'" by simp }
qed

lemma frame_assign3: "assign3 a b k v c = Some c' \<Longrightarrow> frame {} {(a, b, k)} c c'"
  unfolding frame_def
proof (intro conjI allI impI)
  assume h: "assign3 a b k v c = Some c'"
  { fix a' assume "(\<forall>k'. (a', k') \<notin> ({} :: (string \<times> string) set)) \<and> (\<forall>b' k'. (a', b', k') \<notin> {(a, b, k)})"
    then have "a' \<noteq> a" by auto
    then show "jget c' a' = jget c a'" using assign3_jget [OF h] by simp }
  { fix a' b' assume "(a', b') \<notin> ({} :: (string \<times> string) set) \<and> (\<forall>k''. (a', b', k'') \<notin> {(a, b, k)})"
    then have d: "a' \<noteq> a \<or> b' \<noteq> b" by auto
    show "dot (jget c' a') b' = dot (jget c a') b'"
    proof (cases "a' = a")
      case True with d assign3_dot [OF h, of b'] show ?thesis by simp
    next
      case False with assign3_jget [OF h, of a'] show ?thesis by simp
    qed }
  { fix a' b' k' assume "(a', b') \<notin> ({} :: (string \<times> string) set) \<and> (a', b', k') \<notin> {(a, b, k)}"
    then have d: "a' \<noteq> a \<or> b' \<noteq> b \<or> k' \<noteq> k" by auto
    show "dot (dot (jget c' a') b') k' = dot (dot (jget c a') b') k'"
    proof (cases "a' = a")
      case False with assign3_jget [OF h, of a'] show ?thesis by simp
    next
      case a: True
      show ?thesis
      proof (cases "b' = b")
        case False with a assign3_dot [OF h, of b'] show ?thesis by simp
      next
        case True with a d assign3_dot_dot [OF h, of k'] show ?thesis by simp
      qed
    qed }
qed

lemma step_refl: "step F W E2 E3 s s"
  by (simp add: step_def frame_refl)

lemma step_trans:
  "step F W E2 E3 s s' \<Longrightarrow> step F' W' E2' E3' s' s'' \<Longrightarrow>
     step (F \<union> F') (W \<union> W') (E2 \<union> E2') (E3 \<union> E3') s s''"
  unfolding step_def
  apply (elim conjE exE)
  apply (intro conjI)
     apply simp
    apply (rule_tac x = "fs @ fsa" in exI, auto)[1]
   apply (rule_tac x = "ws @ wsa" in exI, auto)[1]
  apply (erule (1) frame_trans)
  done

lemma step_mono:
  "step F W E2 E3 s s' \<Longrightarrow> F \<subseteq> F' \<Longrightarrow> W \<subseteq> W' \<Longrightarrow> E2 \<subseteq> E2' \<Longrightarrow> E3 \<subseteq> E3' \<Longrightarrow>
     step F' W' E2' E3' s s'"
  unfolding step_def
  apply (elim conjE exE)
  apply (intro conjI)
     apply simp
    apply (rule_tac x = fs in exI, blast)
   apply (rule_tac x = ws in exI, blast)
  apply (erule (2) frame_mono)
  done

lemma step_log [simp]: "step F W E2 E3 s (log_line l s') = step F W E2 E3 s s'"
  by (simp add: step_def log_line_def)

lemma dot_Some_truthy: "dot w k = Some y \<Longrightarrow> truthy_opt w"
  by (cases w; cases "the w") (auto simp: dot_def truthy_opt_def)

lemma step_fix2:
  "assign2 a k v (config s) = Some c' \<Longrightarrow> fix_field f = fn \<Longrightarrow>
     step {fn} {} {(a, k)} {} s (push_fix f (s\<lparr>config := c'\<rparr>))"
  by (simp add: step_def push_fix_def frame_assign2)

lemma step_fix3:
  "assign3 a b k v (config s) = Some c' \<Longrightarrow> fix_field f = fn \<Longrightarrow>
     step {fn} {} {} {(a, b, k)} s (push_fix f (s\<lparr>config := c'\<rparr>))"
  by (simp add: step_def push_fix_def frame_assign3)

lemma step_warn: "warn_field w = fn \<Longrightarrow> step {} {fn} {} {} s (push_warning w s)"
  by (simp add: step_def push_warning_def frame_refl)

lemma step_out [simp]: "step F W E2 E3 s (s'\<lparr>out := x\<rparr>) = step F W E2 E3 s s'"
  by (simp add: step_def)

lemma step_answers [simp]: "step F W E2 E3 s (s'\<lparr>answers := x\<rparr>) = step F W E2 E3 s s'"
  by (simp add: step_def)

lemma prompt_step: "prompt s = Some (a, s') \<Longrightarrow> step {} {} {} {} s s'"
  by (auto simp: prompt_def step_refl split: list.splits)

lemma flip_flag_hit:
  assumes "dot (jget (config s) a) k = Some (JBool bad)"
  shows "\<exists>c'. assign2 a k (JBool (\<not> bad)) (config s) = Some c'
           \<and> flip_flag a k bad fn r s = (None, True, push_fix (flip_entry bad fn r) (s\<lparr>config := c'\<rparr>))"
proof -
  from assign2_succeeds [OF assms] obtain c' where "assign2 a k (JBool (\<not> bad)) (config s) = Some c'"
    by blast
  with assms dot_Some_truthy [OF assms] show ?thesis
    by (simp add: flip_flag_def flip_entry_def)
qed

lemma flip_flag_miss:
  "dot (jget (config s) a) k \<noteq> Some (JBool bad) \<Longrightarrow> flip_flag a k bad fn r s = (None, False, s)"
  by (simp add: flip_flag_def)

lemma flip_flag_effect:
  assumes "flip_flag a k bad fn r s = (i, ch, s')"
  shows "i = None"
    and "step {fn} {} {(a, k)} {} s s'"
    and "dot (jget (config s') a) k =
           (if dot (jget (config s) a) k = Some (JBool bad) then Some (JBool (\<not> bad))
            else dot (jget (config s) a) k)"
    and "fixes_list s' =
           (if dot (jget (config s) a) k = Some (JBool bad) then fixes_list s @ [flip_entry bad fn r]
            else fixes_list s)"
    and "ch = (dot (jget (config s) a) k = Some (JBool bad))"
    and "out s' = out s"
proof -
  show "i = None" using assms flip_flag_hit [of s a k bad fn r] flip_flag_miss [of s a k bad fn r]
    by (cases "dot (jget (config s) a) k = Some (JBool bad)") auto
  show "step {fn} {} {(a, k)} {} s s'"
    using assms flip_flag_hit [of s a k bad fn r] flip_flag_miss [of s a k bad fn r]
    by (cases "dot (jget (config s) a) k = Some (JBool bad)")
       (auto simp: step_refl flip_entry_def intro!: step_fix2)
  show "dot (jget (config s') a) k =
           (if dot (jget (config s) a) k = Some (JBool bad) then Some (JBool (\<not> bad))
            else dot (jget (config s) a) k)"
    using assms flip_flag_hit [of s a k bad fn r] flip_flag_miss [of s a k bad fn r]
    by (cases "dot (jget (config s) a) k = Some (JBool bad)")
       (auto simp: push_fix_def assign2_dot)
  show "fixes_list s' =
           (if dot (jget (config s) a) k = Some (JBool bad) then fixes_list s @ [flip_entry bad fn r]
            else fixes_list s)"
    using assms flip_flag_hit [of s a k bad fn r] flip_flag_miss [of s a k bad fn r]
    by (cases "dot (jget (config s) a) k = Some (JBool bad)") (auto simp: push_fix_def)
  show "ch = (dot (jget (config s) a) k = Some (JBool bad))"
    using assms flip_flag_hit [of s a k bad fn r] flip_flag_miss [of s a k bad fn r]
    by (cases "dot (jget (config s) a) k = Some (JBool bad)") auto
  show "out s' = out s"
    using assms flip_flag_hit [of s a k bad fn r] flip_flag_miss [of s a k bad fn r]
    by (cases "dot (jget (config s) a) k = Some (JBool bad)") (auto simp: push_fix_def)
qed

lemma set_debug_level_step:
  "set_debug_level s = (i, ch, s') \<Longrightarrow> step {''logging.level''} {} {(''logging'', ''level'')} {} s s'"
  by (auto simp: set_debug_level_def Let_def step_refl split: if_splits option.splits intro!: step_fix2)

lemma enable_performance_step:
  "enable_performance b fn r l s = (i, s') \<Longrightarrow> step {fn} {} {} {(''performance'', b, ''enabled'')} s s'"
  by (auto simp: enable_performance_def Let_def step_refl split: if_splits option.splits intro!: step_fix3)

lemma step_extend:
  "step F W E2 E3 s0 s \<Longrightarrow> step F' W' E2' E3' s s' \<Longrightarrow> F' \<subseteq> F \<Longrightarrow> W' \<subseteq> W \<Longrightarrow> E2' \<subseteq> E2 \<Longrightarrow> E3' \<subseteq> E3
     \<Longrightarrow> step F W E2 E3 s0 s'"
proof -
  assume a: "step F W E2 E3 s0 s" and b: "step F' W' E2' E3' s s'"
    and sub: "F' \<subseteq> F" "W' \<subseteq> W" "E2' \<subseteq> E2" "E3' \<subseteq> E3"
  show ?thesis by (rule step_mono [OF step_trans [OF a b]]) (use sub in auto)
qed

lemma update_api_url_step:
  "update_api_url rt u s = (i, s') \<Longrightarrow> step {''api.baseUrl''} {} {(''api'', ''baseUrl'')} {} s s'"
  by (auto simp: update_api_url_def step_refl split: option.splits intro!: step_fix2)

lemma prompt_SomeD: "prompt s = Some (a, s') \<Longrightarrow> answers s = a # answers s' \<and> s' = s\<lparr>answers := answers s'\<rparr>"
  by (auto simp: prompt_def split: list.splits)

lemmas mut_defs = push_fix_def push_warning_def log_line_def

lemma fixPlaceholderApiUrl_step:
  assumes "fixPlaceholderApiUrl rt s = (i, s')"
  shows "step {''api.baseUrl''} {''api.baseUrl''} {(''api'', ''baseUrl'')} {} s s'"
  using assms unfolding fixPlaceholderApiUrl_def update_api_url_def Let_def
  by (auto simp: step_def mut_defs frame_refl prompt_def
      split: if_splits option.splits prod.splits list.splits intro: frame_assign2)


lemma fixWildcardCors_step:
  assumes "fixWildcardCors rt s = (i, s')"
  shows "step {''security.allowedOrigins''} {''security.allowedOrigins''}
           {(''security'', ''allowedOrigins'')} {} s s'"
  using assms unfolding fixWildcardCors_def replace_origins_def Let_def
  by (auto simp: step_def mut_defs frame_refl prompt_def
      split: if_splits option.splits prod.splits list.splits bool.splits intro: frame_assign2)

lemma fixEnvironmentSettings_step:
  assumes "fixEnvironmentSettings s = (i, s')"
  shows "step {''database.enableLogging'', ''logging.level''} {}
           {(''database'', ''enableLogging''), (''logging'', ''level'')} {} s s'"
proof -
  let ?goal = "\<lambda>t. step {''database.enableLogging'', ''logging.level''} {}
           {(''database'', ''enableLogging''), (''logging'', ''level'')} {} s t"
  obtain i1 ch1 s1 where f1: "flip_flag ''database'' ''enableLogging'' False ''database.enableLogging''
                    ''Enabled database logging for development environment'' s = (i1, ch1, s1)"
    by (metis prod_cases3)
  obtain i2 ch2 s2 where f2: "set_debug_level s1 = (i2, ch2, s2)" by (metis prod_cases3)
  have 1: "?goal s1" by (rule step_mono [OF flip_flag_effect(2) [OF f1]]) auto
  have 2: "?goal s2" by (rule step_extend [OF 1 set_debug_level_step [OF f2]]) auto
  have 0: "?goal s" by (rule step_refl)
  from assms f1 f2 flip_flag_effect(1) [OF f1] 0 1 2 show ?thesis
    unfolding fixEnvironmentSettings_def
    by (auto split: option.splits if_splits)
qed

lemma fixProductionSecurity_step:
  assumes "fixProductionSecurity s = (i, s')"
  shows "step {''security.enableSSL'', ''security.enableHSTS'', ''database.enableLogging''} {}
           {(''security'', ''enableSSL''), (''security'', ''enableHSTS''), (''database'', ''enableLogging'')} {} s s'"
proof -
  let ?goal = "\<lambda>t. step {''security.enableSSL'', ''security.enableHSTS'', ''database.enableLogging''} {}
           {(''security'', ''enableSSL''), (''security'', ''enableHSTS''), (''database'', ''enableLogging'')} {} s t"
  obtain i1 ch1 s1 where f1: "flip_flag ''security'' ''enableSSL'' False ''security.enableSSL''
                    ''Enabled SSL for production environment'' s = (i1, ch1, s1)"
    by (metis prod_cases3)
  obtain i2 ch2 s2 where f2: "flip_flag ''security'' ''enableHSTS'' False ''security.enableHSTS''
                         ''Enabled HSTS for production environment'' s1 = (i2, ch2, s2)"
    by (metis prod_cases3)
  obtain i3 ch3 s3 where f3: "flip_flag ''database'' ''enableLogging'' True ''database.enableLogging''
                              ''Disabled database logging for production performance'' s2 = (i3, ch3, s3)"
    by (metis prod_cases3)
  have 0: "?goal s" by (rule step_refl)
  have 1: "?goal s1" by (rule step_mono [OF flip_flag_effect(2) [OF f1]]) auto
  have 2: "?goal s2" by (rule step_extend [OF 1 flip_flag_effect(2) [OF f2]]) auto
  have 3: "?goal s3" by (rule step_extend [OF 2 flip_flag_effect(2) [OF f3]]) auto
  from assms f1 f2 f3 flip_flag_effect(1) [OF f1] flip_flag_effect(1) [OF f2]
    flip_flag_effect(1) [OF f3] 0 1 2 3 show ?thesis
    unfolding fixProductionSecurity_def
    by (auto split: option.splits if_splits)
qed

lemma and_then_cases:
  assumes "and_then f g s = (i, s')"
  obtains (stop) j where "f s = (Some j, s')" "i = Some j"
        | (go) s1 where "f s = (None, s1)" "g s1 = (i, s')"
  using assms by (auto simp: and_then_def split: prod.splits option.splits)

lemma optimizePerformanceSettings_step:
  assumes "optimizePerformanceSettings s = (i, s')"
  shows "step {''performance.caching.enabled'', ''performance.compression.enabled''} {} {}
           {(''performance'', ''caching'', ''enabled''), (''performance'', ''compression'', ''enabled'')} s s'"
  using assms unfolding optimizePerformanceSettings_def
proof (cases rule: and_then_cases)
  case (stop j)
  show ?thesis by (rule step_mono [OF enable_performance_step [OF stop(1)]]) auto
next
  case (go s1)
  have 1: "step {''performance.caching.enabled'', ''performance.compression.enabled''} {} {}
           {(''performance'', ''caching'', ''enabled''), (''performance'', ''compression'', ''enabled'')} s s1"
    by (rule step_mono [OF enable_performance_step [OF go(1)]]) auto
  show ?thesis by (rule step_extend [OF 1 enable_performance_step [OF go(2)]]) auto
qed

lemma fixLoggingSettings_same:
  assumes "fixLoggingSettings h s = (i, s')"
  shows "config s' = config s" "fixes_list s' = fixes_list s" "warnings s' = warnings s"
    "interactive s' = interactive s" "answers s' = answers s"
  using assms unfolding fixLoggingSettings_def Let_def
  by (auto simp: mut_defs split: if_splits option.splits json.splits)

lemma fixLoggingSettings_step: "fixLoggingSettings h s = (i, s') \<Longrightarrow> step {} {} {} {} s s'"
  by (simp add: step_def fixLoggingSettings_same frame_refl)

lemma falsy_dot: "\<not> truthy_opt w \<Longrightarrow> dot w b = None"
  by (cases w; cases "the w") (auto simp: dot_def truthy_opt_def)

lemma ensure_jget:
  "ensure k x = Some x' \<Longrightarrow>
     jget x' k' = (if k' = k \<and> \<not> truthy_opt (jget x k) then Some (JObj []) else jget x k')"
  by (auto simp: ensure_def jget_set_prop split: if_splits)

lemma ensure_dot: "ensure k x = Some x' \<Longrightarrow> dot (jget x' a) b = dot (jget x a) b"
  by (auto simp: ensure_jget falsy_dot) (simp add: dot_def)

lemma inserted_refl [simp]: "inserted v v"
  by (simp add: inserted_def)

lemma inserted_trans: "inserted v v' \<Longrightarrow> inserted v' v'' \<Longrightarrow> inserted v v''"
  by (auto simp: inserted_def)

lemma inserted_dot: "inserted v v' \<Longrightarrow> dot v' k = dot v k"
  by (auto simp: inserted_def falsy_dot) (simp add: dot_def)

lemma inserted_truthy: "inserted v v' \<Longrightarrow> truthy_opt v \<Longrightarrow> v' = v"
  by (auto simp: inserted_def)

lemma ensure_inserted: "ensure k x = Some x' \<Longrightarrow> inserted (jget x a) (jget x' a)"
  by (auto simp: ensure_jget inserted_def)

lemma ensure_truthy: "ensure k x = Some x' \<Longrightarrow> truthy_opt (jget x' k)"
  by (auto simp: ensure_jget truthy_opt_def)

lemma ensure_keeps_truthy: "ensure k x = Some x' \<Longrightarrow> truthy_opt (jget x a) \<Longrightarrow> truthy_opt (jget x' a)"
  by (auto simp: ensure_jget truthy_opt_def)

lemma ensure_result_truthy: "ensure k x = Some x' \<Longrightarrow> truthy x'"
  by (cases x) (auto simp: ensure_def truthy_opt_def split: if_splits)

lemma ensure_all_facts:
  "ensure_all ks c = (i, c') \<Longrightarrow>
     (\<forall>a. a \<notin> set ks \<longrightarrow> jget c' a = jget c a)
     \<and> (\<forall>a. inserted (jget c a) (jget c' a))
     \<and> (i = None \<longrightarrow> (\<forall>a \<in> set ks. truthy_opt (jget c' a)))
     \<and> (\<forall>a. truthy_opt (jget c a) \<longrightarrow> truthy_opt (jget c' a))"
proof (induction ks arbitrary: c)
  case Nil
  then show ?case by simp
next
  case (Cons k ks)
  show ?case
  proof (cases "ensure k c")
    case None
    with Cons.prems show ?thesis by auto
  next
    case (Some c1)
    with Cons.prems have r: "ensure_all ks c1 = (i, c')" by simp
    note ih = Cons.IH [OF r]
    have a: "\<forall>a. a \<notin> set (k # ks) \<longrightarrow> jget c' a = jget c a"
      using ih ensure_jget [OF Some] by auto
    have b: "\<forall>a. inserted (jget c a) (jget c' a)"
      using ih ensure_inserted [OF Some] inserted_trans by blast
    have d: "\<forall>a. truthy_opt (jget c a) \<longrightarrow> truthy_opt (jget c' a)"
      using ih ensure_keeps_truthy [OF Some] by blast
    have e: "i = None \<longrightarrow> (\<forall>a \<in> set (k # ks). truthy_opt (jget c' a))"
      using ih ensure_truthy [OF Some] by auto
    from a b d e show ?thesis by blast
  qed
qed

lemma ensure_nested_facts:
  assumes "ensure_nested a k c = (i, c')"
  shows "\<forall>a'. a' \<noteq> a \<longrightarrow> jget c' a' = jget c a'"
    and "\<forall>b. inserted (dot (jget c a) b) (dot (jget c' a) b)"
    and "\<forall>b. b \<noteq> k \<longrightarrow> dot (jget c' a) b = dot (jget c a) b"
    and "truthy_opt (jget c a) \<longrightarrow> truthy_opt (jget c' a)"
proof -
  consider (same) "c' = c" | (upd) x x' where "jget c a = Some x" "ensure k x = Some x'" "set_prop c a x' = Some c'"
    using assms by (auto simp: ensure_nested_def split: option.splits)
  then have "(\<forall>a'. a' \<noteq> a \<longrightarrow> jget c' a' = jget c a')
      \<and> (\<forall>b. inserted (dot (jget c a) b) (dot (jget c' a) b))
      \<and> (\<forall>b. b \<noteq> k \<longrightarrow> dot (jget c' a) b = dot (jget c a) b)
      \<and> (truthy_opt (jget c a) \<longrightarrow> truthy_opt (jget c' a))"
  proof cases
    case same
    then show ?thesis by simp
  next
    case upd
    have g: "jget c' a = Some x'" using jget_set_prop [OF upd(3), of a] by simp
    have t: "truthy_opt (Some x')" using ensure_result_truthy [OF upd(2)] by (simp add: truthy_opt_def)
    show ?thesis
      using jget_set_prop [OF upd(3)] g upd(1) ensure_inserted [OF upd(2)] ensure_jget [OF upd(2)] t
      by (auto simp: dot_def)
  qed
  then show "\<forall>a'. a' \<noteq> a \<longrightarrow> jget c' a' = jget c a'"
    and "\<forall>b. inserted (dot (jget c a) b) (dot (jget c' a) b)"
    and "\<forall>b. b \<noteq> k \<longrightarrow> dot (jget c' a) b = dot (jget c a) b"
    and "truthy_opt (jget c a) \<longrightarrow> truthy_opt (jget c' a)" by blast+
qed

lemma ensure_sections_ensured:
  assumes "ensure_sections c = (i, c')"
  shows "ensured c c'"
proof -
  obtain i1 c1 where e1: "ensure_all sections c = (i1, c1)" by (cases "ensure_all sections c")
  obtain i2 c2 where e2: "ensure_nested ''performance'' ''caching'' c1 = (i2, c2)"
    by (cases "ensure_nested ''performance'' ''caching'' c1")
  obtain i3 c3 where e3: "ensure_nested ''performance'' ''compression'' c2 = (i3, c3)"
    by (cases "ensure_nested ''performance'' ''compression'' c2")
  note f1 = ensure_all_facts [OF e1]
  note f2 = ensure_nested_facts [OF e2]
  note f3 = ensure_nested_facts [OF e3]
  have d1: "\<forall>a b. dot (jget c1 a) b = dot (jget c a) b" using f1 inserted_dot by blast
  have p1: "ensured c c1"
    unfolding ensured_def using f1 d1 by simp
  have p12: "ensured c1 c2"
    unfolding ensured_def using f2
    apply (intro conjI allI impI)
        apply (simp add: sections_def)
       apply simp
      apply (case_tac "a = ''performance''"; simp)
     apply (case_tac "a = ''performance''"; simp)
    apply (case_tac "a = ''performance''"; simp add: inserted_dot)
    done
  have p23: "ensured c2 c3"
    unfolding ensured_def using f3
    apply (intro conjI allI impI)
        apply (simp add: sections_def)
       apply simp
      apply (case_tac "a = ''performance''"; simp)
     apply (case_tac "a = ''performance''"; simp)
    apply (case_tac "a = ''performance''"; simp add: inserted_dot)
    done
  have tr: "\<And>x y z. ensured x y \<Longrightarrow> ensured y z \<Longrightarrow> ensured x z"
    unfolding ensured_def
    apply (intro conjI allI impI)
        apply simp
       apply (meson inserted_trans)
      apply simp
     apply (meson inserted_trans)
    apply simp
    done
  from assms e1 e2 e3 consider "c' = c1" | "c' = c2" | "c' = c3"
    by (auto simp: ensure_sections_def split: option.splits)
  then show ?thesis using p1 tr [OF p1 p12] tr [OF tr [OF p1 p12] p23] by cases simp_all
qed

lemma step_frame: "step F W E2 E3 s s' \<Longrightarrow> frame E2 E3 (config s) (config s')"
  by (simp add: step_def)

lemma step_dot:
  "step F W E2 E3 s s' \<Longrightarrow> (a, k) \<notin> E2 \<Longrightarrow> \<forall>k'. (a, k, k') \<notin> E3 \<Longrightarrow>
     dot (jget (config s') a) k = dot (jget (config s) a) k"
  by (rule frame_dot [OF step_frame])

lemma step_dot_dot:
  "step F W E2 E3 s s' \<Longrightarrow> (a, b) \<notin> E2 \<Longrightarrow> (a, b, k) \<notin> E3 \<Longrightarrow>
     dot (dot (jget (config s') a) b) k = dot (dot (jget (config s) a) b) k"
  by (rule frame_dot_dot [OF step_frame])

lemma step_jget:
  "step F W E2 E3 s s' \<Longrightarrow> \<forall>k. (a, k) \<notin> E2 \<Longrightarrow> \<forall>b k. (a, b, k) \<notin> E3 \<Longrightarrow>
     jget (config s') a = jget (config s) a"
  by (rule frame_jget [OF step_frame])

lemma step_interactive: "step F W E2 E3 s s' \<Longrightarrow> interactive s' = interactive s"
  by (simp add: step_def)

lemma step_fixes_mono: "step F W E2 E3 s s' \<Longrightarrow> set (fixes_list s) \<subseteq> set (fixes_list s')"
  by (auto simp: step_def)

lemma platform_environment_Some:
  "platform_environment c = Some e \<Longrightarrow> dot (jget c ''platform'') ''environment'' = e"
  by (auto simp: platform_environment_def dot_def split: option.splits json.splits)

lemma platform_environment_dot:
  "dot (jget c ''platform'') ''environment'' = Some v \<Longrightarrow> platform_environment c = Some (Some v)"
  by (auto simp: platform_environment_def dot_def split: option.splits json.splits)

lemma and_then_None:
  "(and_then f g s = (None, s')) = (\<exists>s1. f s = (None, s1) \<and> g s1 = (None, s'))"
  by (auto simp: and_then_def split: prod.splits option.splits)

lemma and_then_rel:
  assumes tr: "\<And>s t u. R s t \<Longrightarrow> R t u \<Longrightarrow> R s u"
    and f: "\<And>s j t. f s = (j, t) \<Longrightarrow> R s t"
    and g: "\<And>s j t. g s = (j, t) \<Longrightarrow> R s t"
    and r: "and_then f g s = (i, s')"
  shows "R s s'"
  using r
proof (cases rule: and_then_cases)
  case (stop j)
  then show ?thesis using f by blast
next
  case (go s1)
  then show ?thesis using f g tr by blast
qed

lemma fixPlaceholderApiUrl_quiet:
  assumes "fixPlaceholderApiUrl rt s = (i, s')" and "\<not> interactive s"
  shows "step {} {''api.baseUrl''} {} {} s s'" and "i = None"
  using assms unfolding fixPlaceholderApiUrl_def Let_def
  by (auto simp: step_def mut_defs frame_refl split: if_splits)

lemma fixWildcardCors_quiet:
  assumes "fixWildcardCors rt s = (i, s')" and "\<not> interactive s"
  shows "step {} {''security.allowedOrigins''} {} {} s s'"
  using assms unfolding fixWildcardCors_def Let_def
  by (auto simp: step_def mut_defs frame_refl split: if_splits option.splits bool.splits)

lemma fixEnvironmentSettings_other:
  assumes "fixEnvironmentSettings s = (i, s')"
    and "dot (jget (config s) ''platform'') ''environment'' \<noteq> Some (JStr ''development'')"
  shows "s' = s"
  using assms unfolding fixEnvironmentSettings_def
  by (auto split: option.splits if_splits dest: platform_environment_Some)

lemma fixProductionSecurity_other:
  assumes "fixProductionSecurity s = (i, s')"
    and "dot (jget (config s) ''platform'') ''environment'' \<noteq> Some (JStr ''production'')"
  shows "s' = s"
  using assms unfolding fixProductionSecurity_def
  by (auto split: option.splits if_splits dest: platform_environment_Some)

lemma fixProductionSecurity_effect:
  assumes r: "fixProductionSecurity s = (i, s')"
    and env: "dot (jget (config s) ''platform'') ''environment'' = Some (JStr ''production'')"
  shows "i = None"
    and "dot (jget (config s') ''security'') ''enableSSL''
           = flipped False (dot (jget (config s) ''security'') ''enableSSL'')"
    and "dot (jget (config s') ''security'') ''enableHSTS''
           = flipped False (dot (jget (config s) ''security'') ''enableHSTS'')"
    and "dot (jget (config s') ''database'') ''enableLogging''
           = flipped True (dot (jget (config s) ''database'') ''enableLogging'')"
proof -
  obtain i1 ch1 s1 where f1: "flip_flag ''security'' ''enableSSL'' False ''security.enableSSL''
                    ''Enabled SSL for production environment'' s = (i1, ch1, s1)"
    by (metis prod_cases3)
  obtain i2 ch2 s2 where f2: "flip_flag ''security'' ''enableHSTS'' False ''security.enableHSTS''
                         ''Enabled HSTS for production environment'' s1 = (i2, ch2, s2)"
    by (metis prod_cases3)
  obtain i3 ch3 s3 where f3: "flip_flag ''database'' ''enableLogging'' True ''database.enableLogging''
                              ''Disabled database logging for production performance'' s2 = (i3, ch3, s3)"
    by (metis prod_cases3)
  note e1 = flip_flag_effect [OF f1] and e2 = flip_flag_effect [OF f2] and e3 = flip_flag_effect [OF f3]
  from r f1 f2 f3 e1(1) e2(1) e3(1) platform_environment_dot [OF env]
  have res: "i = None" "config s' = config s3"
    unfolding fixProductionSecurity_def by (auto simp: log_line_def)
  show "i = None" by fact
  have "dot (jget (config s3) ''security'') ''enableSSL'' = dot (jget (config s1) ''security'') ''enableSSL''"
    using step_dot [OF e3(2), of "''security''" "''enableSSL''"]
      step_dot [OF e2(2), of "''security''" "''enableSSL''"] by simp
  then show "dot (jget (config s') ''security'') ''enableSSL''
           = flipped False (dot (jget (config s) ''security'') ''enableSSL'')"
    using e1(3) res by (simp add: flipped_def)
  have "dot (jget (config s3) ''security'') ''enableHSTS'' = dot (jget (config s2) ''security'') ''enableHSTS''"
    "dot (jget (config s1) ''security'') ''enableHSTS'' = dot (jget (config s) ''security'') ''enableHSTS''"
    using step_dot [OF e3(2), of "''security''" "''enableHSTS''"]
      step_dot [OF e1(2), of "''security''" "''enableHSTS''"] by simp_all
  then show "dot (jget (config s') ''security'') ''enableHSTS''
           = flipped False (dot (jget (config s) ''security'') ''enableHSTS'')"
    using e2(3) res by (simp add: flipped_def)
  have "dot (jget (config s2) ''database'') ''enableLogging'' = dot (jget (config s) ''database'') ''enableLogging''"
    using step_dot [OF e1(2), of "''database''" "''enableLogging''"]
      step_dot [OF e2(2), of "''database''" "''enableLogging''"] by simp
  then show "dot (jget (config s') ''database'') ''enableLogging''
           = flipped True (dot (jget (config s) ''database'') ''enableLogging'')"
    using e3(3) res by (simp add: flipped_def)
qed

lemma analyzeAndFix_chain:
  assumes "analyzeAndFix rt h s = (None, s')"
  obtains c1 s1 s2 s3 s4 s5 where
    "ensure_sections (config s) = (None, c1)"
    "fixPlaceholderApiUrl rt ((log_line Analyzing s)\<lparr>config := c1\<rparr>) = (None, s1)"
    "fixWildcardCors rt s1 = (None, s2)"
    "fixEnvironmentSettings s2 = (None, s3)"
    "fixProductionSecurity s3 = (None, s4)"
    "optimizePerformanceSettings s4 = (None, s5)"
    "fixLoggingSettings h s5 = (None, s')"
proof -
  obtain j c1 where e: "ensure_sections (config s) = (j, c1)" by (cases "ensure_sections (config s)")
  with assms have j: "j = None" by (auto simp: analyzeAndFix_def split: option.splits)
  from assms e j have "and_then (fixPlaceholderApiUrl rt)
            (and_then (fixWildcardCors rt)
               (and_then fixEnvironmentSettings
                  (and_then fixProductionSecurity
                     (and_then optimizePerformanceSettings (fixLoggingSettings h)))))
            ((log_line Analyzing s)\<lparr>config := c1\<rparr>) = (None, s')"
    by (simp add: analyzeAndFix_def)
  then show ?thesis using that e j unfolding and_then_None by blast
qed

lemma ensured_dot:
  "ensured c c1 \<Longrightarrow> (a, b) \<noteq> (''performance'', ''caching'') \<Longrightarrow> (a, b) \<noteq> (''performance'', ''compression'')
     \<Longrightarrow> dot (jget c1 a) b = dot (jget c a) b"
  by (simp add: ensured_def)

lemma ensured_dot_dot: "ensured c c1 \<Longrightarrow> dot (dot (jget c1 a) b) k = dot (dot (jget c a) b) k"
  by (simp add: ensured_def)

text \<open>What the rules before the environment rule leave alone.\<close>

lemma before_environment_rule:
  assumes e: "ensure_sections (config s) = (j, c1)"
    and p: "fixPlaceholderApiUrl rt ((log_line Analyzing s)\<lparr>config := c1\<rparr>) = (i1, s1)"
    and w: "fixWildcardCors rt s1 = (i2, s2)"
    and a: "a \<noteq> ''api''" "a \<noteq> ''performance''" "(a, k) \<noteq> (''security'', ''allowedOrigins'')"
  shows "dot (jget (config s2) a) k = dot (jget (config s) a) k"
proof -
  have 0: "dot (jget c1 a) k = dot (jget (config s) a) k"
    using ensured_dot [OF ensure_sections_ensured [OF e], of a k] a by simp
  have 1: "dot (jget (config s1) a) k = dot (jget c1 a) k"
    using step_dot [OF fixPlaceholderApiUrl_step [OF p], of a k] a by simp
  have 2: "dot (jget (config s2) a) k = dot (jget (config s1) a) k"
    using step_dot [OF fixWildcardCors_step [OF w], of a k] a by simp
  from 0 1 2 show ?thesis by simp
qed

lemma fixEnvironmentSettings_effect:
  assumes r: "fixEnvironmentSettings s = (None, s')"
    and env: "dot (jget (config s) ''platform'') ''environment'' = Some (JStr ''development'')"
  shows "dot (jget (config s') ''database'') ''enableLogging''
           = flipped False (dot (jget (config s) ''database'') ''enableLogging'')"
    and "dot (jget (config s) ''database'') ''enableLogging'' = Some (JBool False) \<Longrightarrow>
           flip_entry False ''database.enableLogging''
             ''Enabled database logging for development environment'' \<in> set (fixes_list s')"
proof -
  obtain i1 ch1 s1 where f1: "flip_flag ''database'' ''enableLogging'' False ''database.enableLogging''
                    ''Enabled database logging for development environment'' s = (i1, ch1, s1)"
    by (metis prod_cases3)
  obtain i2 ch2 s2 where f2: "set_debug_level s1 = (i2, ch2, s2)" by (metis prod_cases3)
  note e1 = flip_flag_effect [OF f1]
  note st2 = set_debug_level_step [OF f2]
  from r f1 f2 e1(1) platform_environment_dot [OF env]
  have res: "config s' = config s2" "fixes_list s' = fixes_list s2"
    unfolding fixEnvironmentSettings_def by (auto simp: log_line_def split: option.splits if_splits)
  have "dot (jget (config s2) ''database'') ''enableLogging'' = dot (jget (config s1) ''database'') ''enableLogging''"
    using step_dot [OF st2, of "''database''" "''enableLogging''"] by simp
  then show "dot (jget (config s') ''database'') ''enableLogging''
           = flipped False (dot (jget (config s) ''database'') ''enableLogging'')"
    using e1(3) res by (simp add: flipped_def)
  show "flip_entry False ''database.enableLogging''
             ''Enabled database logging for development environment'' \<in> set (fixes_list s')"
    if "dot (jget (config s) ''database'') ''enableLogging'' = Some (JBool False)"
    using that e1(4) step_fixes_mono [OF st2] res by auto
qed

lemmas run_simps = eval_simps plain_host_def new_ConfigAutoFix_def analyzeAndFix_def ensure_sections_def
  sections_def ensure_nested_def ensure_def and_then_def fixPlaceholderApiUrl_def placeholder_def
  fixWildcardCors_def fixEnvironmentSettings_def fixProductionSecurity_def flip_flag_def
  set_debug_level_def optimizePerformanceSettings_def enable_performance_def fixLoggingSettings_def
  platform_environment_def assign2_def assign3_def log_line_def push_fix_def push_warning_def
  run_def loadConfig_def caught_def displaySummary_def saveConfig_def prompt_def is_yes_def
  autofix_main_def automate_main_def validate_exit_def default_path_def

lemma step_same_trans:
  "step F W E2 E3 s t \<Longrightarrow> step F W E2 E3 t u \<Longrightarrow> step F W E2 E3 s u"
  by (erule (1) step_extend) simp_all

lemma environment_rules_step:
  assumes "and_then fixEnvironmentSettings
             (and_then fixProductionSecurity
                (and_then optimizePerformanceSettings (fixLoggingSettings h))) s = (i, s')"
  shows "step auto_fields {} auto_paths2 auto_paths3 s s'"
proof -
  let ?R = "step auto_fields {} auto_paths2 auto_paths3"
  have v: "\<And>s j t. fixEnvironmentSettings s = (j, t) \<Longrightarrow> ?R s t"
    by (erule step_mono [OF fixEnvironmentSettings_step])
       (simp_all add: auto_fields_def auto_paths2_def)
  have f: "\<And>s j t. fixProductionSecurity s = (j, t) \<Longrightarrow> ?R s t"
    by (erule step_mono [OF fixProductionSecurity_step])
       (simp_all add: auto_fields_def auto_paths2_def)
  have o: "\<And>s j t. optimizePerformanceSettings s = (j, t) \<Longrightarrow> ?R s t"
    by (erule step_mono [OF optimizePerformanceSettings_step])
       (simp_all add: auto_fields_def auto_paths3_def)
  have l: "\<And>s j t. fixLoggingSettings h s = (j, t) \<Longrightarrow> ?R s t"
    by (erule step_mono [OF fixLoggingSettings_step]) simp_all
  have ol: "\<And>s j t. and_then optimizePerformanceSettings (fixLoggingSettings h) s = (j, t) \<Longrightarrow> ?R s t"
    by (rule and_then_rel [where R = ?R, OF step_same_trans o l])
  have fol: "\<And>s j t. and_then fixProductionSecurity
                (and_then optimizePerformanceSettings (fixLoggingSettings h)) s = (j, t) \<Longrightarrow> ?R s t"
    by (rule and_then_rel [where R = ?R, OF step_same_trans f ol])
  show ?thesis by (rule and_then_rel [where R = ?R, OF step_same_trans v fol assms])
qed

lemma analyzeAndFix_quiet:
  assumes r: "analyzeAndFix rt h s = (i, s')" and ni: "\<not> interactive s"
  obtains j c1 where "ensure_sections (config s) = (j, c1)"
    and "step auto_fields {''api.baseUrl'', ''security.allowedOrigins''} auto_paths2 auto_paths3
           (s\<lparr>config := c1\<rparr>) s'"
proof -
  let ?W = "{''api.baseUrl'', ''security.allowedOrigins''}"
  let ?R = "\<lambda>s t. \<not> interactive s \<longrightarrow> step auto_fields ?W auto_paths2 auto_paths3 s t"
  have tr: "?R s t \<Longrightarrow> ?R t u \<Longrightarrow> ?R s u" for s t u
  proof (rule impI)
    assume 1: "?R s t" and 2: "?R t u" and n: "\<not> interactive s"
    from 1 n have a: "step auto_fields ?W auto_paths2 auto_paths3 s t" by simp
    from step_interactive [OF a] n have "\<not> interactive t" by simp
    with 2 have b: "step auto_fields ?W auto_paths2 auto_paths3 t u" by simp
    show "step auto_fields ?W auto_paths2 auto_paths3 s u" by (rule step_same_trans [OF a b])
  qed
  have p: "\<And>s j t. fixPlaceholderApiUrl rt s = (j, t) \<Longrightarrow> ?R s t"
    by (rule impI, erule step_mono [OF fixPlaceholderApiUrl_quiet(1)]) simp_all
  have w: "\<And>s j t. fixWildcardCors rt s = (j, t) \<Longrightarrow> ?R s t"
    by (rule impI, erule step_mono [OF fixWildcardCors_quiet]) simp_all
  have e: "\<And>s j t. and_then fixEnvironmentSettings
             (and_then fixProductionSecurity
                (and_then optimizePerformanceSettings (fixLoggingSettings h))) s = (j, t) \<Longrightarrow> ?R s t"
    by (rule impI, erule step_mono [OF environment_rules_step]) simp_all
  have we: "\<And>s j t. and_then (fixWildcardCors rt) (and_then fixEnvironmentSettings
             (and_then fixProductionSecurity
                (and_then optimizePerformanceSettings (fixLoggingSettings h)))) s = (j, t) \<Longrightarrow> ?R s t"
    by (rule and_then_rel [where R = ?R, OF tr w e])
  have all: "\<And>s j t. and_then (fixPlaceholderApiUrl rt) (and_then (fixWildcardCors rt)
             (and_then fixEnvironmentSettings
             (and_then fixProductionSecurity
                (and_then optimizePerformanceSettings (fixLoggingSettings h))))) s = (j, t) \<Longrightarrow> ?R s t"
    by (rule and_then_rel [where R = ?R, OF tr p we])
  obtain j c1 where ens: "ensure_sections (config s) = (j, c1)" by (cases "ensure_sections (config s)")
  have "step auto_fields ?W auto_paths2 auto_paths3 (s\<lparr>config := c1\<rparr>) s'"
  proof (cases j)
    case (Some x)
    with r ens have "s' = (log_line Analyzing s)\<lparr>config := c1\<rparr>" by (simp add: analyzeAndFix_def)
    then show ?thesis by (simp add: step_def log_line_def frame_refl)
  next
    case None
    with r ens have "and_then (fixPlaceholderApiUrl rt) (and_then (fixWildcardCors rt)
             (and_then fixEnvironmentSettings
             (and_then fixProductionSecurity
                (and_then optimizePerformanceSettings (fixLoggingSettings h)))))
            ((log_line Analyzing s)\<lparr>config := c1\<rparr>) = (i, s')"
      by (simp add: analyzeAndFix_def)
    from all [OF this] ni
    have "step auto_fields ?W auto_paths2 auto_paths3 ((log_line Analyzing s)\<lparr>config := c1\<rparr>) s'"
      by (simp add: log_line_def)
    then show ?thesis by (simp add: step_def log_line_def)
  qed
  with ens show ?thesis using that by blast
qed


lemma analyzeAndFix_chain2:
  assumes "analyzeAndFix rt h s = (None, s')"
  obtains c1 s1 s2 where
    "ensure_sections (config s) = (None, c1)"
    "fixPlaceholderApiUrl rt ((log_line Analyzing s)\<lparr>config := c1\<rparr>) = (None, s1)"
    "fixWildcardCors rt s1 = (None, s2)"
    "and_then fixEnvironmentSettings
       (and_then fixProductionSecurity
          (and_then optimizePerformanceSettings (fixLoggingSettings h))) s2 = (None, s')"
proof -
  obtain j c1 where e: "ensure_sections (config s) = (j, c1)" by (cases "ensure_sections (config s)")
  with assms have j: "j = None" by (auto simp: analyzeAndFix_def split: option.splits)
  from assms e j have "and_then (fixPlaceholderApiUrl rt)
            (and_then (fixWildcardCors rt)
               (and_then fixEnvironmentSettings
                  (and_then fixProductionSecurity
                     (and_then optimizePerformanceSettings (fixLoggingSettings h)))))
            ((log_line Analyzing s)\<lparr>config := c1\<rparr>) = (None, s')"
    by (simp add: analyzeAndFix_def)
  then obtain s1 s2 where "fixPlaceholderApiUrl rt ((log_line Analyzing s)\<lparr>config := c1\<rparr>) = (None, s1)"
    "fixWildcardCors rt s1 = (None, s2)"
    "and_then fixEnvironmentSettings
       (and_then fixProductionSecurity
          (and_then optimizePerformanceSettings (fixLoggingSettings h))) s2 = (None, s')"
    unfolding and_then_None by blast
  then show ?thesis using that e j by blast
qed

lemma includes_star_truthy: "includes_star v = Some True \<Longrightarrow> truthy v"
  by (cases v) (auto split: if_splits)

lemma fixWildcardCors_warns:
  assumes env: "dot (jget (config s) ''platform'') ''environment'' = Some (JStr ''production'')"
    and cors: "truthy_opt (dot (jget (config s) ''security'') ''corsEnabled'')"
    and ao: "dot (jget (config s) ''security'') ''allowedOrigins'' = Some origins"
    and star: "includes_star origins = Some True"
    and ni: "\<not> interactive s"
  shows "fixWildcardCors rt s
           = (None, log_line HintInteractiveCors
                      (log_line WildcardInProduction (push_warning (wildcard_warning origins) s)))"
  using platform_environment_dot [OF env] cors ao star ni dot_Some_truthy [OF ao]
    includes_star_truthy [OF star]
  by (simp add: fixWildcardCors_def Let_def wildcard_warning_def mut_defs)

lemma step_no_warning: "step F {} E2 E3 s s' \<Longrightarrow> warnings s' = warnings s"
  by (auto simp: step_def)

lemma step_no_fix: "step {} W E2 E3 s s' \<Longrightarrow> fixes_list s' = fixes_list s"
  by (auto simp: step_def)

lemma step_fix_fields:
  assumes "step F W E2 E3 s s'"
  shows "fix_field ` set (fixes_list s') \<subseteq> fix_field ` set (fixes_list s) \<union> F"
proof -
  from assms obtain fs where "fixes_list s' = fixes_list s @ fs" "fix_field ` set fs \<subseteq> F"
    unfolding step_def by blast
  then show ?thesis by auto
qed

lemma step_warnings:
  "step F W E2 E3 s s' \<Longrightarrow> \<exists>ws. warnings s' = warnings s @ ws \<and> warn_field ` set ws \<subseteq> W"
  by (simp add: step_def)

lemma same_but_out_refl [simp]: "same_but_out s s"
  by (simp add: same_but_out_def)

lemma same_but_out_log [simp]: "same_but_out (log_line l s) (log_line l' t) = same_but_out s t"
  "same_but_out (log_line l s) t = same_but_out s t"
  "same_but_out s (log_line l' t) = same_but_out s t"
  by (simp_all add: same_but_out_def log_line_def)

lemma same_but_out_eq:
  "same_but_out s t \<Longrightarrow> t = s\<lparr>out := out t\<rparr>"
  by (cases s; cases t) (simp add: same_but_out_def)

lemma fixLoggingSettings_mkdir:
  "alike (fixLoggingSettings h s) (fixLoggingSettings (h\<lparr>mkdir_fails := m\<rparr>) s)"
  by (simp add: alike_def fixLoggingSettings_def Let_def split: option.splits json.splits)

lemma and_then_alike:
  assumes "\<And>s. alike (g s) (g' s)"
  shows "alike (and_then f g s) (and_then f g' s)"
  using assms [of "snd (f s)"]
  by (cases "f s") (simp add: and_then_def alike_def split: option.splits)

lemma analyzeAndFix_mkdir:
  "alike (analyzeAndFix rt h s) (analyzeAndFix rt (h\<lparr>mkdir_fails := m\<rparr>) s)"
proof (cases "ensure_sections (config s)")
  case (Pair j c)
  show ?thesis
  proof (cases j)
    case None
    with Pair show ?thesis
      unfolding analyzeAndFix_def
      by (simp add: and_then_alike fixLoggingSettings_mkdir)
  next
    case (Some x)
    with Pair show ?thesis by (simp add: analyzeAndFix_def alike_def)
  qed
qed

lemma displaySummary_same: "same_but_out s t \<Longrightarrow> same_but_out (displaySummary s) (displaySummary t)"
  by (simp add: displaySummary_def Let_def same_but_out_def log_line_def)

lemma displaySummary_fields [simp]:
  "fixes_list (displaySummary s) = fixes_list s" "warnings (displaySummary s) = warnings s"
  "interactive (displaySummary s) = interactive s" "answers (displaySummary s) = answers s"
  "config (displaySummary s) = config s"
  by (simp_all add: displaySummary_def Let_def log_line_def)

lemma saveConfig_same:
  assumes "same_but_out s t"
  shows "fst (saveConfig (h\<lparr>mkdir_fails := m\<rparr>) f t) = fst (saveConfig h f s)"
    and "snd (snd (saveConfig (h\<lparr>mkdir_fails := m\<rparr>) f t)) = snd (snd (saveConfig h f s))"
    and "same_but_out (fst (snd (saveConfig h f s))) (fst (snd (saveConfig (h\<lparr>mkdir_fails := m\<rparr>) f t)))"
  using assms
  by (auto simp: saveConfig_def Let_def same_but_out_def prompt_def log_line_def split: list.splits)

lemma caught_same:
  "same_but_out s t \<Longrightarrow>
     fst (caught i t f) = fst (caught i s f) \<and> snd (snd (caught i t f)) = snd (snd (caught i s f))
     \<and> same_but_out (fst (snd (caught i s f))) (fst (snd (caught i t f)))"
  by (cases i) (simp_all add: caught_def)

lemma run_mkdir:
  "fst (run rt (h\<lparr>mkdir_fails := m\<rparr>) f s) = fst (run rt h f s)
   \<and> snd (snd (run rt (h\<lparr>mkdir_fails := m\<rparr>) f s)) = snd (snd (run rt h f s))
   \<and> same_but_out (fst (snd (run rt h f s))) (fst (snd (run rt (h\<lparr>mkdir_fails := m\<rparr>) f s)))"
proof (cases "loadConfig f s")
  case (Pair j s1)
  show ?thesis
  proof (cases j)
    case (Some i)
    with Pair show ?thesis by (simp add: run_def caught_same)
  next
    case None
    obtain i2 s2 where a: "analyzeAndFix rt h s1 = (i2, s2)" by (cases "analyzeAndFix rt h s1")
    obtain i2' t2 where b: "analyzeAndFix rt (h\<lparr>mkdir_fails := m\<rparr>) s1 = (i2', t2)"
      by (cases "analyzeAndFix rt (h\<lparr>mkdir_fails := m\<rparr>) s1")
    from analyzeAndFix_mkdir [of rt h s1 m] a b have i: "i2' = i2" and st: "same_but_out s2 t2"
      by (simp_all add: alike_def)
    show ?thesis
    proof (cases i2)
      case (Some i)
      with Pair None a b i st show ?thesis by (simp add: run_def caught_same)
    next
      case n2: None
      note d = displaySummary_same [OF st]
      from st have fx: "fixes_list t2 = fixes_list s2" "warnings t2 = warnings s2"
        by (simp_all add: same_but_out_def)
      show ?thesis
      proof (cases "fixes_list s2 = []")
        case True
        with Pair None a b i n2 fx d show ?thesis by (simp add: run_def Let_def)
      next
        case False
        obtain i3 s3 f3 where sv: "saveConfig h f (displaySummary s2) = (i3, s3, f3)"
          by (metis prod_cases3)
        obtain i3' t3 f3' where sv': "saveConfig (h\<lparr>mkdir_fails := m\<rparr>) f (displaySummary t2) = (i3', t3, f3')"
          by (metis prod_cases3)
        from saveConfig_same [OF d, where h = h and m = m and f = f] sv sv'
        have e: "i3' = i3" "f3' = f3" "same_but_out s3 t3" by simp_all
        from e(3) have fx3: "fixes_list t3 = fixes_list s3" "warnings t3 = warnings s3"
          by (simp_all add: same_but_out_def)
        show ?thesis
        proof (cases i3)
          case (Some i)
          with Pair None a b i n2 fx False sv sv' e caught_same [OF e(3), of i f3]
          show ?thesis by (simp add: run_def Let_def)
        next
          case n3: None
          with Pair None a b i n2 fx False sv sv' e fx3
          show ?thesis by (simp add: run_def Let_def)
        qed
      qed
    qed
  qed
qed

lemma fixLoggingSettings_mkdir_fails:
  assumes "jget (config s) ''logging'' = Some lg" and "truthy_opt (jget lg ''enableFile'')"
    and "jget lg ''logDirectory'' = Some (JStr d)" and "d \<noteq> []"
    and "\<not> dir_exists h d" and "mkdir_fails h d"
  shows "fixLoggingSettings h s = (None, log_line (CouldNotCreateLogDirectory d) s)"
proof -
  from assms(2) have "truthy lg" by (cases lg) (auto simp: truthy_opt_def)
  with assms show ?thesis
    by (simp add: fixLoggingSettings_def Let_def dot_def truthy_opt_def)
qed

lemma run_write_fails:
  assumes wf: "write_fails h"
    and ld: "loadConfig f s = (None, s1)"
    and pass: "analyzeAndFix rt h s1 = (None, s2)"
    and fx: "fixes_list s2 \<noteq> []"
    and go: "\<not> interactive s2 \<or> (\<exists>a rest. answers s2 = a # rest \<and> is_yes a)"
  shows "fst (run rt h f s) = Some False"
    and "snd (snd (run rt h f s)) = f"
    and "last (out (fst (snd (run rt h f s)))) = ErrorLine FailedToSave"
proof -
  have "\<exists>s3. saveConfig h f (displaySummary s2) = (Some (Throw FailedToSave), s3, f)"
    using wf go by (auto simp: saveConfig_def Let_def prompt_def)
  then obtain s3 where sv: "saveConfig h f (displaySummary s2) = (Some (Throw FailedToSave), s3, f)"
    by blast
  from ld pass fx sv have r: "run rt h f s = (Some False, log_line (ErrorLine FailedToSave) s3, f)"
    by (simp add: run_def Let_def caught_def)
  from r show "fst (run rt h f s) = Some False" "snd (snd (run rt h f s)) = f"
    "last (out (fst (snd (run rt h f s)))) = ErrorLine FailedToSave"
    by (simp_all add: log_line_def)
qed

lemma frame_nothing_eq:
  "frame {} {} c c' \<Longrightarrow>
     dot (jget c' a) k = dot (jget c a) k \<and> dot (dot (jget c' a) b) k = dot (dot (jget c a) b) k"
  by (simp add: frame_def)

lemma settled_step:
  assumes "step {} W {} {} s t" and "settled s"
  shows "settled t"
proof -
  from assms(1) have f: "frame {} {} (config s) (config t)" and i: "interactive t = interactive s"
    by (simp_all add: step_def)
  note e = frame_nothing_eq [OF f]
  from assms(2) show ?thesis
    unfolding settled_def no_rule_applies_def no_prompt_def wildcard_detected_def
    by (simp add: e i)
qed

lemma settled_ensured:
  assumes "ensured c c1" and "settled (s\<lparr>config := c\<rparr>)"
  shows "settled (s\<lparr>config := c1\<rparr>)"
proof -
  have p2: "dot (jget c1 a) k = dot (jget c a) k" if "a \<noteq> ''performance''" for a k
    using ensured_dot [OF assms(1), of a k] that by simp
  note p3 = ensured_dot_dot [OF assms(1)]
  from assms(2) show ?thesis
    unfolding settled_def no_rule_applies_def no_prompt_def wildcard_detected_def
    by (simp add: p2 p3)
qed

lemma fixPlaceholderApiUrl_settled:
  assumes "fixPlaceholderApiUrl rt s = (i, t)" and "settled s"
  shows "step {} {''api.baseUrl'', ''security.allowedOrigins''} {} {} s t"
proof (cases "interactive s")
  case False
  show ?thesis by (rule step_mono [OF fixPlaceholderApiUrl_quiet(1) [OF assms(1) False]]) simp_all
next
  case True
  with assms(2) have "dot (jget (config s) ''api'') ''baseUrl'' \<noteq> Some (JStr placeholder)"
    by (simp add: settled_def no_prompt_def)
  with assms(1) have "t = s" by (simp add: fixPlaceholderApiUrl_def Let_def)
  then show ?thesis by (simp add: step_refl)
qed

lemma fixWildcardCors_settled:
  assumes "fixWildcardCors rt s = (i, t)" and "settled s"
  shows "step {} {''api.baseUrl'', ''security.allowedOrigins''} {} {} s t"
proof (cases "interactive s")
  case False
  show ?thesis by (rule step_mono [OF fixWildcardCors_quiet [OF assms(1) False]]) simp_all
next
  case True
  with assms(2) have "\<not> wildcard_detected (config s)"
    by (simp add: settled_def no_prompt_def)
  with assms(1) have "t = s"
    unfolding fixWildcardCors_def Let_def wildcard_detected_def
    by (auto split: option.splits if_splits bool.splits)
  then show ?thesis by (simp add: step_refl)
qed

lemma fixEnvironmentSettings_settled:
  assumes "fixEnvironmentSettings s = (i, t)" and "settled s"
  shows "step {} {''api.baseUrl'', ''security.allowedOrigins''} {} {} s t"
proof -
  from assms(2) have "dot (jget (config s) ''platform'') ''environment'' \<noteq> Some (JStr ''development'')"
    by (simp add: settled_def)
  from fixEnvironmentSettings_other [OF assms(1) this] show ?thesis by (simp add: step_refl)
qed

lemma fixProductionSecurity_settled:
  assumes "fixProductionSecurity s = (i, t)" and "settled s"
  shows "step {} {''api.baseUrl'', ''security.allowedOrigins''} {} {} s t"
proof -
  from assms(2) have "dot (jget (config s) ''security'') ''enableSSL'' \<noteq> Some (JBool False)"
    "dot (jget (config s) ''security'') ''enableHSTS'' \<noteq> Some (JBool False)"
    "dot (jget (config s) ''database'') ''enableLogging'' \<noteq> Some (JBool True)"
    by (simp_all add: settled_def no_rule_applies_def)
  with assms(1) have "t = s"
    by (auto simp: fixProductionSecurity_def flip_flag_miss split: option.splits if_splits)
  then show ?thesis by (simp add: step_refl)
qed

lemma optimizePerformanceSettings_settled:
  assumes "optimizePerformanceSettings s = (i, t)" and "settled s"
  shows "step {} {''api.baseUrl'', ''security.allowedOrigins''} {} {} s t"
proof -
  from assms(2) have "dot (dot (jget (config s) ''performance'') ''caching'') ''enabled'' \<noteq> Some (JBool False)"
    "dot (dot (jget (config s) ''performance'') ''compression'') ''enabled'' \<noteq> Some (JBool False)"
    by (simp_all add: settled_def no_rule_applies_def)
  with assms(1) have "t = s"
    by (auto simp: optimizePerformanceSettings_def and_then_def enable_performance_def Let_def)
  then show ?thesis by (simp add: step_refl)
qed

lemma fixLoggingSettings_settled:
  assumes "fixLoggingSettings h s = (i, t)"
  shows "step {} {''api.baseUrl'', ''security.allowedOrigins''} {} {} s t"
  by (rule step_mono [OF fixLoggingSettings_step [OF assms]]) simp_all

lemma analyzeAndFix_settled:
  assumes r: "analyzeAndFix rt h s = (i, s')" and st: "settled s"
  shows "fixes_list s' = fixes_list s"
proof -
  let ?W = "{''api.baseUrl'', ''security.allowedOrigins''}"
  let ?R = "\<lambda>s t. settled s \<longrightarrow> step {} ?W {} {} s t"
  have tr: "?R s t \<Longrightarrow> ?R t u \<Longrightarrow> ?R s u" for s t u
  proof (rule impI)
    assume 1: "?R s t" and 2: "?R t u" and n: "settled s"
    from 1 n have a: "step {} ?W {} {} s t" by simp
    from settled_step [OF a n] 2 have b: "step {} ?W {} {} t u" by simp
    show "step {} ?W {} {} s u" by (rule step_same_trans [OF a b])
  qed
  have p: "\<And>s j t. fixPlaceholderApiUrl rt s = (j, t) \<Longrightarrow> ?R s t"
    using fixPlaceholderApiUrl_settled by blast
  have w: "\<And>s j t. fixWildcardCors rt s = (j, t) \<Longrightarrow> ?R s t"
    using fixWildcardCors_settled by blast
  have v: "\<And>s j t. fixEnvironmentSettings s = (j, t) \<Longrightarrow> ?R s t"
    using fixEnvironmentSettings_settled by blast
  have f: "\<And>s j t. fixProductionSecurity s = (j, t) \<Longrightarrow> ?R s t"
    using fixProductionSecurity_settled by blast
  have o: "\<And>s j t. optimizePerformanceSettings s = (j, t) \<Longrightarrow> ?R s t"
    using optimizePerformanceSettings_settled by blast
  have l: "\<And>s j t. fixLoggingSettings h s = (j, t) \<Longrightarrow> ?R s t"
    using fixLoggingSettings_settled by blast
  have ol: "\<And>s j t. and_then optimizePerformanceSettings (fixLoggingSettings h) s = (j, t) \<Longrightarrow> ?R s t"
    by (rule and_then_rel [where R = ?R, OF tr o l])
  have fol: "\<And>s j t. and_then fixProductionSecurity
                (and_then optimizePerformanceSettings (fixLoggingSettings h)) s = (j, t) \<Longrightarrow> ?R s t"
    by (rule and_then_rel [where R = ?R, OF tr f ol])
  have vfol: "\<And>s j t. and_then fixEnvironmentSettings (and_then fixProductionSecurity
                (and_then optimizePerformanceSettings (fixLoggingSettings h))) s = (j, t) \<Longrightarrow> ?R s t"
    by (rule and_then_rel [where R = ?R, OF tr v fol])
  have we: "\<And>s j t. and_then (fixWildcardCors rt) (and_then fixEnvironmentSettings
             (and_then fixProductionSecurity
                (and_then optimizePerformanceSettings (fixLoggingSettings h)))) s = (j, t) \<Longrightarrow> ?R s t"
    by (rule and_then_rel [where R = ?R, OF tr w vfol])
  have all: "\<And>s j t. and_then (fixPlaceholderApiUrl rt) (and_then (fixWildcardCors rt)
             (and_then fixEnvironmentSettings
             (and_then fixProductionSecurity
                (and_then optimizePerformanceSettings (fixLoggingSettings h))))) s = (j, t) \<Longrightarrow> ?R s t"
    by (rule and_then_rel [where R = ?R, OF tr p we])
  obtain j c1 where ens: "ensure_sections (config s) = (j, c1)" by (cases "ensure_sections (config s)")
  show ?thesis
  proof (cases j)
    case (Some x)
    with r ens have "s' = (log_line Analyzing s)\<lparr>config := c1\<rparr>" by (simp add: analyzeAndFix_def)
    then show ?thesis by (simp add: log_line_def)
  next
    case None
    let ?s0 = "(log_line Analyzing s)\<lparr>config := c1\<rparr>"
    from None r ens have c: "and_then (fixPlaceholderApiUrl rt) (and_then (fixWildcardCors rt)
             (and_then fixEnvironmentSettings
             (and_then fixProductionSecurity
                (and_then optimizePerformanceSettings (fixLoggingSettings h))))) ?s0 = (i, s')"
      by (simp add: analyzeAndFix_def)
    have "settled (s\<lparr>config := config s\<rparr>)" using st by simp
    from settled_ensured [OF ensure_sections_ensured [OF ens] this]
    have "settled ?s0" by (simp add: settled_def log_line_def)
    with all [OF c] have "step {} ?W {} {} ?s0 s'" by simp
    from step_no_fix [OF this] show ?thesis by (simp add: log_line_def)
  qed
qed

lemma run_settled:
  assumes st: "settled ((new_ConfigAutoFix i stdin)\<lparr>config := c\<rparr>)"
  shows "fixes_list (fst (snd (run rt h (Doc c) (new_ConfigAutoFix i stdin)))) = []"
    and "snd (snd (run rt h (Doc c) (new_ConfigAutoFix i stdin))) = Doc c"
proof -
  let ?s = "new_ConfigAutoFix i stdin"
  let ?s1 = "log_line LoadedSuccessfully ((log_line LoadingConfiguration ?s)\<lparr>config := c\<rparr>)"
  have ld: "loadConfig (Doc c) ?s = (None, ?s1)" by (simp add: loadConfig_def)
  have st1: "settled ?s1" using st by (simp add: settled_def log_line_def)
  have f1: "fixes_list ?s1 = []" by (simp add: log_line_def new_ConfigAutoFix_def)
  obtain i2 s2 where a: "analyzeAndFix rt h ?s1 = (i2, s2)" by (cases "analyzeAndFix rt h ?s1")
  from analyzeAndFix_settled [OF a st1] f1 have f2: "fixes_list s2 = []" by simp
  have "fixes_list (fst (snd (run rt h (Doc c) ?s))) = []
      \<and> snd (snd (run rt h (Doc c) ?s)) = Doc c"
  proof (cases i2)
    case None
    with ld a f2 show ?thesis by (simp add: run_def Let_def)
  next
    case (Some x)
    with ld a f2 show ?thesis by (cases x) (simp_all add: run_def caught_def log_line_def)
  qed
  then show "fixes_list (fst (snd (run rt h (Doc c) ?s))) = []"
    and "snd (snd (run rt h (Doc c) ?s)) = Doc c" by simp_all
qed

lemma is_container_set_prop: "is_container x \<Longrightarrow> \<exists>x'. set_prop x k v = Some x' \<and> is_container x'"
  by (cases x) (simp_all add: is_container_def)

lemma set_prop_container: "set_prop x k v = Some x' \<Longrightarrow> is_container x'"
  by (cases x) (auto simp: is_container_def)

lemma jget_Some_container: "jget x k = Some y \<Longrightarrow> is_container x"
  by (cases x) (simp_all add: is_container_def)

lemma container_truthy: "is_container x \<Longrightarrow> truthy x"
  by (cases x) (simp_all add: is_container_def)

lemma ensure_container:
  assumes "is_container x"
  shows "\<exists>x'. ensure k x = Some x' \<and> is_container x'"
proof (cases "truthy_opt (jget x k)")
  case True
  with assms show ?thesis by (cases x) (simp_all add: ensure_def is_container_def)
next
  case False
  from is_container_set_prop [OF assms, of k "JObj []"] obtain x' where
    "set_prop x k (JObj []) = Some x'" "is_container x'" by blast
  with False assms show ?thesis by (cases x) (simp_all add: ensure_def is_container_def)
qed

lemma ensure_all_container:
  "is_container c \<Longrightarrow> \<exists>c'. ensure_all ks c = (None, c') \<and> is_container c'"
proof (induction ks arbitrary: c)
  case Nil
  then show ?case by simp
next
  case (Cons k ks)
  from ensure_container [OF Cons.prems, of k] obtain c1 where
    "ensure k c = Some c1" "is_container c1" by blast
  with Cons.IH [of c1] show ?case by simp
qed

lemma inserted_container:
  "inserted v v' \<Longrightarrow> container_or_missing v \<Longrightarrow> truthy_opt v' \<Longrightarrow> \<exists>x. v' = Some x \<and> is_container x"
  by (auto simp: inserted_def container_or_missing_def truthy_opt_def is_container_def
      split: option.splits)

lemma ensure_nested_container:
  assumes "jget c a = Some x" and "is_container x"
  shows "\<exists>c' x'. ensure_nested a k c = (None, c') \<and> jget c' a = Some x' \<and> is_container x'"
proof -
  from ensure_container [OF assms(2), of k] obtain x' where x': "ensure k x = Some x'" "is_container x'"
    by blast
  from jget_Some_set_prop [OF assms(1), of a x'] obtain c' where c': "set_prop c a x' = Some c'"
    by blast
  from jget_set_prop [OF c', of a] have "jget c' a = Some x'" by simp
  with assms(1) x' c' show ?thesis by (simp add: ensure_nested_def)
qed

lemma ensure_sections_succeeds:
  assumes "is_container c" and "container_or_missing (jget c ''performance'')"
  obtains c' where "ensure_sections c = (None, c')"
    and "truthy_opt (jget c' ''platform'')"
    and "inserted (jget c ''logging'') (jget c' ''logging'')"
    and "truthy_opt (jget c' ''logging'')"
proof -
  from ensure_all_container [OF assms(1), of sections] obtain c1 where
    e1: "ensure_all sections c = (None, c1)" by blast
  note f1 = ensure_all_facts [OF e1]
  have t1: "truthy_opt (jget c1 a)" if "a \<in> set sections" for a using f1 that by blast
  have "truthy_opt (jget c1 ''performance'')" by (rule t1) (simp add: sections_def)
  with inserted_container [of "jget c ''performance''" "jget c1 ''performance''"] f1 assms(2)
  obtain x where x: "jget c1 ''performance'' = Some x" "is_container x" by blast
  from ensure_nested_container [OF x, of "''caching''"] obtain c2 x2 where
    e2: "ensure_nested ''performance'' ''caching'' c1 = (None, c2)"
    and x2: "jget c2 ''performance'' = Some x2" "is_container x2" by blast
  from ensure_nested_container [OF x2, of "''compression''"] obtain c3 x3 where
    e3: "ensure_nested ''performance'' ''compression'' c2 = (None, c3)" by blast
  have e: "ensure_sections c = (None, c3)" using e1 e2 e3 by (simp add: ensure_sections_def)
  have k: "jget c3 a = jget c1 a" if "a \<noteq> ''performance''" for a
    using ensure_nested_facts(1) [OF e2] ensure_nested_facts(1) [OF e3] that by simp
  have p: "truthy_opt (jget c3 ''platform'')" using k [of "''platform''"] t1 [of "''platform''"]
    by (simp add: sections_def)
  have l: "truthy_opt (jget c3 ''logging'')" using k [of "''logging''"] t1 [of "''logging''"]
    by (simp add: sections_def)
  have i: "inserted (jget c ''logging'') (jget c3 ''logging'')" using k [of "''logging''"] f1 by simp
  from e p i l show ?thesis using that by blast
qed

lemma truthy_platform_environment:
  "truthy_opt (jget c ''platform'') \<Longrightarrow> platform_environment c \<noteq> None"
  by (auto simp: platform_environment_def truthy_opt_def split: option.splits json.splits)

lemma fixWildcardCors_returns:
  assumes "\<not> interactive s" and "truthy_opt (jget (config s) ''platform'')" and "origins_ok (config s)"
  shows "fst (fixWildcardCors rt s) = None"
  using assms truthy_platform_environment [OF assms(2)]
  unfolding fixWildcardCors_def Let_def origins_ok_def
  by (auto simp: mut_defs split: option.splits bool.splits)

lemma set_debug_level_returns:
  assumes "container_or_missing (jget (config s) ''logging'')"
  shows "fst (set_debug_level s) = None"
proof (cases "truthy_opt (jget (config s) ''logging'')")
  case False
  then show ?thesis by (simp add: set_debug_level_def Let_def)
next
  case True
  with assms obtain lg where lg: "jget (config s) ''logging'' = Some lg" "is_container lg"
    by (auto simp: container_or_missing_def truthy_opt_def split: option.splits)
  from is_container_set_prop [OF lg(2), of "''level''" "JStr ''debug''"] obtain lg' where
    "set_prop lg ''level'' (JStr ''debug'') = Some lg'" by blast
  moreover from jget_Some_set_prop [OF lg(1), of "''logging''" lg'] obtain c' where
    "set_prop (config s) ''logging'' lg' = Some c'" by blast
  ultimately have "assign2 ''logging'' ''level'' (JStr ''debug'') (config s) = Some c'"
    using lg by (simp add: assign2_def)
  then show ?thesis by (simp add: set_debug_level_def Let_def)
qed

lemma fixEnvironmentSettings_returns:
  assumes "truthy_opt (jget (config s) ''platform'')"
    and "container_or_missing (jget (config s) ''logging'')"
  shows "fst (fixEnvironmentSettings s) = None"
proof -
  obtain i1 ch1 s1 where f1: "flip_flag ''database'' ''enableLogging'' False ''database.enableLogging''
                    ''Enabled database logging for development environment'' s = (i1, ch1, s1)"
    by (metis prod_cases3)
  note e1 = flip_flag_effect [OF f1]
  have "jget (config s1) ''logging'' = jget (config s) ''logging''"
    using step_jget [OF e1(2), of "''logging''"] by simp
  with assms(2) have "fst (set_debug_level s1) = None" by (simp add: set_debug_level_returns)
  with f1 e1(1) truthy_platform_environment [OF assms(1)] show ?thesis
    unfolding fixEnvironmentSettings_def
    by (auto split: option.splits prod.splits)
qed

lemma fixProductionSecurity_returns:
  assumes "truthy_opt (jget (config s) ''platform'')"
  shows "fst (fixProductionSecurity s) = None"
proof -
  have "i = None" if "fixProductionSecurity s = (i, t)" for i t
  proof -
    obtain i1 ch1 s1 where f1: "flip_flag ''security'' ''enableSSL'' False ''security.enableSSL''
                    ''Enabled SSL for production environment'' s = (i1, ch1, s1)"
      by (metis prod_cases3)
    obtain i2 ch2 s2 where f2: "flip_flag ''security'' ''enableHSTS'' False ''security.enableHSTS''
                         ''Enabled HSTS for production environment'' s1 = (i2, ch2, s2)"
      by (metis prod_cases3)
    obtain i3 ch3 s3 where f3: "flip_flag ''database'' ''enableLogging'' True ''database.enableLogging''
                              ''Disabled database logging for production performance'' s2 = (i3, ch3, s3)"
      by (metis prod_cases3)
    from that f1 f2 f3 flip_flag_effect(1) [OF f1] flip_flag_effect(1) [OF f2]
      flip_flag_effect(1) [OF f3] truthy_platform_environment [OF assms]
    show ?thesis unfolding fixProductionSecurity_def by (auto split: option.splits if_splits)
  qed
  then show ?thesis by (cases "fixProductionSecurity s") simp
qed

lemma enable_performance_returns: "fst (enable_performance b fn r l s) = None"
proof (cases "dot (dot (jget (config s) ''performance'') b) ''enabled'' = Some (JBool False)")
  case True
  from assign3_succeeds [OF True, of "''enabled''" "JBool True"] obtain c' where
    "assign3 ''performance'' b ''enabled'' (JBool True) (config s) = Some c'" by blast
  then show ?thesis by (simp add: enable_performance_def Let_def)
next
  case False
  then show ?thesis by (simp add: enable_performance_def Let_def)
qed

lemma optimizePerformanceSettings_returns: "fst (optimizePerformanceSettings s) = None"
  using enable_performance_returns
  by (auto simp: optimizePerformanceSettings_def and_then_def split: prod.splits option.splits)
     (metis fst_conv option.distinct(1))+

lemma fixLoggingSettings_returns:
  assumes "log_directory_ok (config s)"
  shows "fst (fixLoggingSettings h s) = None"
  using assms unfolding fixLoggingSettings_def Let_def log_directory_ok_def
  by (auto split: option.splits json.splits simp: truthy_opt_def)

lemma origins_ok_cong:
  "dot (jget c' ''security'') ''corsEnabled'' = dot (jget c ''security'') ''corsEnabled'' \<Longrightarrow>
   dot (jget c' ''security'') ''allowedOrigins'' = dot (jget c ''security'') ''allowedOrigins'' \<Longrightarrow>
   origins_ok c' = origins_ok c"
  by (auto simp: origins_ok_def split: option.splits)

lemma log_directory_ok_cong:
  "dot (jget c' ''logging'') ''enableFile'' = dot (jget c ''logging'') ''enableFile'' \<Longrightarrow>
   dot (jget c' ''logging'') ''logDirectory'' = dot (jget c ''logging'') ''logDirectory'' \<Longrightarrow>
   log_directory_ok c' = log_directory_ok c"
  by (auto simp: log_directory_ok_def split: option.splits json.splits)

lemma log_directory_ok_step:
  assumes "step F W E2 E3 s t" and "E2 \<subseteq> auto_paths2" and "E3 \<subseteq> auto_paths3"
  shows "log_directory_ok (config t) = log_directory_ok (config s)"
proof (rule log_directory_ok_cong)
  show "dot (jget (config t) ''logging'') ''enableFile'' = dot (jget (config s) ''logging'') ''enableFile''"
    by (rule step_dot [OF assms(1)]) (use assms(2,3) in \<open>auto simp: auto_paths2_def auto_paths3_def\<close>)
  show "dot (jget (config t) ''logging'') ''logDirectory'' = dot (jget (config s) ''logging'') ''logDirectory''"
    by (rule step_dot [OF assms(1)]) (use assms(2,3) in \<open>auto simp: auto_paths2_def auto_paths3_def\<close>)
qed

lemma platform_step:
  assumes "step F W E2 E3 s t" and "E2 \<subseteq> auto_paths2" and "E3 \<subseteq> auto_paths3"
  shows "jget (config t) ''platform'' = jget (config s) ''platform''"
  by (rule step_jget [OF assms(1)]) (use assms(2,3) in \<open>auto simp: auto_paths2_def auto_paths3_def\<close>)

lemma step_nothing:
  assumes "step F W {} {} s t"
  shows "jget (config t) a = jget (config s) a"
  by (rule step_jget [OF assms]) simp_all

lemma inserted_container_or_missing:
  "inserted v v' \<Longrightarrow> container_or_missing v \<Longrightarrow> container_or_missing v'"
  by (auto simp: inserted_def container_or_missing_def is_container_def)

lemma analyzeAndFix_returns:
  assumes ws: "well_shaped (config s)" and ni: "\<not> interactive s"
  shows "fst (analyzeAndFix rt h s) = None"
proof -
  from ws have shape: "is_container (config s)" "container_or_missing (jget (config s) ''performance'')"
    "container_or_missing (jget (config s) ''logging'')" "origins_ok (config s)"
    "log_directory_ok (config s)"
    by (simp_all add: well_shaped_def)
  from ensure_sections_succeeds [OF shape(1,2)] obtain c' where
    e: "ensure_sections (config s) = (None, c')"
    and pl: "truthy_opt (jget c' ''platform'')"
    and lg: "inserted (jget (config s) ''logging'') (jget c' ''logging'')"
    by blast
  note en = ensure_sections_ensured [OF e]
  let ?s0 = "(log_line Analyzing s)\<lparr>config := c'\<rparr>"
  have ni0: "\<not> interactive ?s0" using ni by (simp add: log_line_def)
  have pl0: "truthy_opt (jget (config ?s0) ''platform'')" using pl by simp
  have lg0: "container_or_missing (jget (config ?s0) ''logging'')"
    using inserted_container_or_missing [OF lg shape(3)] by simp
  have or0: "origins_ok (config ?s0)"
    using origins_ok_cong [of c' "config s"] ensured_dot [OF en, of "''security''"] shape(4) by simp
  have ld0: "log_directory_ok (config ?s0)"
    using log_directory_ok_cong [of c' "config s"] ensured_dot [OF en, of "''logging''"] shape(5)
    by simp
  obtain i1 s1 where p: "fixPlaceholderApiUrl rt ?s0 = (i1, s1)" by (cases "fixPlaceholderApiUrl rt ?s0")
  note q1 = fixPlaceholderApiUrl_quiet [OF p ni0]
  have i1: "i1 = None" by (rule q1(2))
  have c1: "jget (config s1) a = jget (config ?s0) a" for a by (rule step_nothing [OF q1(1)])
  have ni1: "\<not> interactive s1" using step_interactive [OF q1(1)] ni0 by simp
  have or1: "origins_ok (config s1)" using origins_ok_cong [of "config s1" "config ?s0"] c1 or0 by simp
  have pl1: "truthy_opt (jget (config s1) ''platform'')" using c1 pl0 by simp
  obtain i2 s2 where w: "fixWildcardCors rt s1 = (i2, s2)" by (cases "fixWildcardCors rt s1")
  have i2: "i2 = None" using fixWildcardCors_returns [OF ni1 pl1 or1, of rt] w by simp
  note q2 = fixWildcardCors_quiet [OF w ni1]
  have c2: "jget (config s2) a = jget (config ?s0) a" for a using step_nothing [OF q2, of a] c1 by simp
  have pl2: "truthy_opt (jget (config s2) ''platform'')" using c2 pl0 by simp
  have lg2: "container_or_missing (jget (config s2) ''logging'')" using c2 lg0 by simp
  have ld2: "log_directory_ok (config s2)"
    using log_directory_ok_cong [of "config s2" "config ?s0"] c2 ld0 by simp
  obtain i3 s3 where v: "fixEnvironmentSettings s2 = (i3, s3)" by (cases "fixEnvironmentSettings s2")
  have i3: "i3 = None" using fixEnvironmentSettings_returns [OF pl2 lg2] v by simp
  note st3 = fixEnvironmentSettings_step [OF v]
  have pl3: "truthy_opt (jget (config s3) ''platform'')"
    using platform_step [OF st3] pl2 by (simp add: auto_paths2_def)
  have ld3: "log_directory_ok (config s3)"
    using log_directory_ok_step [OF st3] ld2 by (simp add: auto_paths2_def)
  obtain i4 s4 where f: "fixProductionSecurity s3 = (i4, s4)" by (cases "fixProductionSecurity s3")
  have i4: "i4 = None" using fixProductionSecurity_returns [OF pl3] f by simp
  note st4 = fixProductionSecurity_step [OF f]
  have ld4: "log_directory_ok (config s4)"
    using log_directory_ok_step [OF st4] ld3 by (simp add: auto_paths2_def)
  obtain i5 s5 where o: "optimizePerformanceSettings s4 = (i5, s5)"
    by (cases "optimizePerformanceSettings s4")
  have i5: "i5 = None" using optimizePerformanceSettings_returns [of s4] o by simp
  note st5 = optimizePerformanceSettings_step [OF o]
  have ld5: "log_directory_ok (config s5)"
    using log_directory_ok_step [OF st5] ld4 by (simp add: auto_paths3_def)
  have l: "fst (fixLoggingSettings h s5) = None" by (rule fixLoggingSettings_returns [OF ld5])
  from e p w v f o l i1 i2 i3 i4 i5 show ?thesis
    by (simp add: analyzeAndFix_def and_then_def)
qed

text \<open>
  Claim C9. Validation fails for every configuration whose \<^verbatim>\<open>platform.version\<close> is
  \<^verbatim>\<open>"1.2"\<close>; the version check accepts \<^verbatim>\<open>"1.2.3"\<close>, so that a configuration with
  that version never fails with the version error; and whenever validation succeeds
  the version, as the test converts it to a string, is digits, a dot, digits, a dot,
  digits and nothing else.
\<close>

theorem version_semantic:
  "(dot (jget c ''platform'') ''version'' = Some (JStr ''1.2'') \<longrightarrow>
      validateConfiguration rt (Doc c) \<noteq> Inr ())
   \<and> versionRegex_test ''1.2.3''
   \<and> (dot (jget c ''platform'') ''version'' = Some (JStr ''1.2.3'') \<longrightarrow>
      validateConfiguration rt (Doc c) \<noteq> Inl VersionNotSemantic)
   \<and> (validateConfiguration rt (Doc c) = Inr () \<longrightarrow>
      (\<exists>v. dot (jget c ''platform'') ''version'' = Some v \<and> semver_shaped (ToString rt v)))"
proof (intro conjI impI)
  assume v: "dot (jget c ''platform'') ''version'' = Some (JStr ''1.2'')"
  show "validateConfiguration rt (Doc c) \<noteq> Inr ()"
  proof
    assume "validateConfiguration rt (Doc c) = Inr ()"
    then have "check_platform rt c = None" by (simp add: validate_Doc_iff)
    from check_platform_version [OF this] v
    have "versionRegex_test ''1.2''" by (simp add: ToString_def)
    then show False by (simp add: versionRegex_test_def is_digit_def)
  qed
next
  show "versionRegex_test ''1.2.3''" by (simp add: versionRegex_test_def is_digit_def)
next
  assume v: "dot (jget c ''platform'') ''version'' = Some (JStr ''1.2.3'')"
  show "validateConfiguration rt (Doc c) \<noteq> Inl VersionNotSemantic"
  proof
    assume "validateConfiguration rt (Doc c) = Inl VersionNotSemantic"
    then have "Some VersionNotSemantic \<in> set [check_sections c, check_platform rt c, check_global c,
             check_authentication rt c, check_api rt c, check_logging c]"
      by (auto simp: validateConfiguration_def dest: first_failure_Inl)
    then show False
      using check_platform_not_VersionNotSemantic [OF v, of rt]
        check_sections_range [of c] check_global_range [of c] check_authentication_range [of rt c]
        check_api_range [of rt c] check_logging_range [of c]
      by auto
  qed
next
  assume "validateConfiguration rt (Doc c) = Inr ()"
  then have "check_platform rt c = None" by (simp add: validate_Doc_iff)
  from check_platform_version [OF this]
  show "\<exists>v. dot (jget c ''platform'') ''version'' = Some v \<and> semver_shaped (ToString rt v)"
    by (simp add: versionRegex_test_iff)
qed

theorem version_semantic_witness:
  "dot (jget (cfg_minimal ''1.2'' ''production'' []) ''platform'') ''version'' = Some (JStr ''1.2'')
   \<and> validateConfiguration plain_engine (Doc (cfg_minimal ''1.2'' ''production'' [])) \<noteq> Inr ()
   \<and> dot (jget (cfg_minimal ''1.2.3'' ''production'' []) ''platform'') ''version'' = Some (JStr ''1.2.3'')
   \<and> validateConfiguration plain_engine (Doc (cfg_minimal ''1.2.3'' ''production'' [])) = Inr ()
   \<and> semver_shaped (ToString plain_engine (JStr ''1.2.3''))"
proof -
  have a: "dot (jget (cfg_minimal ''1.2'' ''production'' []) ''platform'') ''version'' = Some (JStr ''1.2'')"
    by (simp add: cfg_minimal_def dot_def)
  have b: "dot (jget (cfg_minimal ''1.2.3'' ''production'' []) ''platform'') ''version'' = Some (JStr ''1.2.3'')"
    by (simp add: cfg_minimal_def dot_def)
  have c: "validateConfiguration plain_engine (Doc (cfg_minimal ''1.2.3'' ''production'' [])) = Inr ()"
    by (simp add: eval_simps)
  from version_semantic [of "cfg_minimal ''1.2'' ''production'' []" plain_engine] a
  have 1: "validateConfiguration plain_engine (Doc (cfg_minimal ''1.2'' ''production'' [])) \<noteq> Inr ()"
    by blast
  from version_semantic [of "cfg_minimal ''1.2.3'' ''production'' []" plain_engine] b c
  have 2: "semver_shaped (ToString plain_engine (JStr ''1.2.3''))"
    by auto
  from a b c 1 2 show ?thesis by blast
qed

text \<open>
  Claim C4, as stated, fails: a configuration whose \<^verbatim>\<open>authentication\<close> section is
  present and sets neither \<^verbatim>\<open>sessionTimeout\<close> nor \<^verbatim>\<open>maxLoginAttempts\<close> passes
  validation, although no session timeout of at least 60 and no number of attempts
  between 1 and 10 is there.
\<close>

theorem authentication_unset_counterexample:
  "validateConfiguration plain_engine
     (Doc (cfg_minimal ''1.2.3'' ''production''
             [(''authentication'', JObj [(''enabled'', JBool True)])])) = Inr ()
   \<and> jget (cfg_minimal ''1.2.3'' ''production''
             [(''authentication'', JObj [(''enabled'', JBool True)])]) ''authentication''
       = Some (JObj [(''enabled'', JBool True)])
   \<and> \<not> spec_auth_in_range (JObj [(''enabled'', JBool True)])"
  by (simp add: eval_simps spec_auth_in_range_def)

text \<open>
  Claim C4, amended. For every configuration in which the \<^verbatim>\<open>authentication\<close> section
  is present (and truthy, as every object is), validation succeeds only if
  \<^verbatim>\<open>authentication.sessionTimeout\<close>, where it is a number other than 0, is at least 60
  and \<^verbatim>\<open>authentication.maxLoginAttempts\<close>, where it is a number other than 0, lies
  between 1 and 10. A field that is missing is not checked.
\<close>

theorem authentication_ranges:
  assumes "validateConfiguration rt (Doc c) = Inr ()"
    and "jget c ''authentication'' = Some a" and "truthy a"
  shows "(case jget a ''sessionTimeout'' of Some (JNum n) \<Rightarrow> n = 0 \<or> 60 \<le> n | _ \<Rightarrow> True)
       \<and> (case jget a ''maxLoginAttempts'' of Some (JNum n) \<Rightarrow> n = 0 \<or> (1 \<le> n \<and> n \<le> 10) | _ \<Rightarrow> True)"
proof -
  from assms(1) have "check_authentication rt c = None" by (simp add: validate_Doc_iff)
  with assms(2,3) show ?thesis
    by (auto simp: check_authentication_def Let_def truthy_opt_def dot_def js_lt_def js_gt_def
        lt_opt_def gt_opt_def ToNumber_def split: if_splits option.splits json.splits)
qed

theorem authentication_ranges_witness:
  "validateConfiguration plain_engine
     (Doc (cfg_minimal ''1.2.3'' ''production''
             [(''authentication'', JObj [(''sessionTimeout'', JNum 3600), (''maxLoginAttempts'', JNum 5)])])) = Inr ()
   \<and> jget (cfg_minimal ''1.2.3'' ''production''
             [(''authentication'', JObj [(''sessionTimeout'', JNum 3600), (''maxLoginAttempts'', JNum 5)])])
        ''authentication''
       = Some (JObj [(''sessionTimeout'', JNum 3600), (''maxLoginAttempts'', JNum 5)])
   \<and> truthy (JObj [(''sessionTimeout'', JNum 3600), (''maxLoginAttempts'', JNum 5)])
   \<and> (case jget (JObj [(''sessionTimeout'', JNum 3600), (''maxLoginAttempts'', JNum 5)]) ''sessionTimeout'' of
         Some (JNum n) \<Rightarrow> n = 0 \<or> 60 \<le> n | _ \<Rightarrow> True)
   \<and> (case jget (JObj [(''sessionTimeout'', JNum 3600), (''maxLoginAttempts'', JNum 5)]) ''maxLoginAttempts'' of
         Some (JNum n) \<Rightarrow> n = 0 \<or> (1 \<le> n \<and> n \<le> 10) | _ \<Rightarrow> True)"
proof -
  have v: "validateConfiguration plain_engine
     (Doc (cfg_minimal ''1.2.3'' ''production''
             [(''authentication'', JObj [(''sessionTimeout'', JNum 3600), (''maxLoginAttempts'', JNum 5)])])) = Inr ()"
    by (simp add: eval_simps)
  have g: "jget (cfg_minimal ''1.2.3'' ''production''
             [(''authentication'', JObj [(''sessionTimeout'', JNum 3600), (''maxLoginAttempts'', JNum 5)])])
        ''authentication''
       = Some (JObj [(''sessionTimeout'', JNum 3600), (''maxLoginAttempts'', JNum 5)])"
    by (simp add: cfg_minimal_def)
  have t: "truthy (JObj [(''sessionTimeout'', JNum 3600), (''maxLoginAttempts'', JNum 5)])" by simp
  from authentication_ranges [OF v g t] v g t show ?thesis by blast
qed

text \<open>
  Claim C5, as stated, fails: on a production configuration that says nothing about
  SSL the rule pass completes and \<^verbatim>\<open>security.enableSSL\<close> is still absent, not
  \<^verbatim>\<open>true\<close>.
\<close>

theorem production_ssl_absent_counterexample:
  "dot (jget (cfg_minimal ''1.2.3'' ''production'' []) ''platform'') ''environment''
     = Some (JStr ''production'')
   \<and> fst (analyzeAndFix plain_engine plain_host
            ((new_ConfigAutoFix False [])\<lparr>config := cfg_minimal ''1.2.3'' ''production'' []\<rparr>)) = None
   \<and> dot (jget (config (snd (analyzeAndFix plain_engine plain_host
            ((new_ConfigAutoFix False [])\<lparr>config := cfg_minimal ''1.2.3'' ''production'' []\<rparr>))))
          ''security'') ''enableSSL'' \<noteq> Some (JBool True)"
  by (simp add: run_simps)

lemma production_security_flags_completed:
  assumes env: "dot (jget (config s) ''platform'') ''environment'' = Some (JStr ''production'')"
    and r: "analyzeAndFix rt h s = (None, s')"
  shows "dot (jget (config s') ''security'') ''enableSSL''
           = flipped False (dot (jget (config s) ''security'') ''enableSSL'')
       \<and> dot (jget (config s') ''security'') ''enableHSTS''
           = flipped False (dot (jget (config s) ''security'') ''enableHSTS'')
       \<and> dot (jget (config s') ''database'') ''enableLogging''
           = flipped True (dot (jget (config s) ''database'') ''enableLogging'')
       \<and> dot (jget (config s') ''security'') ''enableSSL'' \<noteq> Some (JBool False)
       \<and> dot (jget (config s') ''security'') ''enableHSTS'' \<noteq> Some (JBool False)
       \<and> dot (jget (config s') ''database'') ''enableLogging'' \<noteq> Some (JBool True)"
proof -
  from r obtain c1 s1 s2 s3 s4 s5 where
    e: "ensure_sections (config s) = (None, c1)"
    and p: "fixPlaceholderApiUrl rt ((log_line Analyzing s)\<lparr>config := c1\<rparr>) = (None, s1)"
    and w: "fixWildcardCors rt s1 = (None, s2)"
    and v: "fixEnvironmentSettings s2 = (None, s3)"
    and f: "fixProductionSecurity s3 = (None, s4)"
    and o: "optimizePerformanceSettings s4 = (None, s5)"
    and l: "fixLoggingSettings h s5 = (None, s')"
    by (rule analyzeAndFix_chain)
  note pre = before_environment_rule [OF e p w]
  have env2: "dot (jget (config s2) ''platform'') ''environment'' = Some (JStr ''production'')"
    using pre [of "''platform''" "''environment''"] env by simp
  have s3: "s3 = s2" using fixEnvironmentSettings_other [OF v] env2 by simp
  note eff = fixProductionSecurity_effect [OF f [unfolded s3] env2]
  note st = optimizePerformanceSettings_step [OF o]
  note same = fixLoggingSettings_same(1) [OF l]
  have ssl: "dot (jget (config s') ''security'') ''enableSSL''
           = flipped False (dot (jget (config s) ''security'') ''enableSSL'')"
    using eff(2) step_dot [OF st, of "''security''" "''enableSSL''"] same
      pre [of "''security''" "''enableSSL''"] by simp
  have hsts: "dot (jget (config s') ''security'') ''enableHSTS''
           = flipped False (dot (jget (config s) ''security'') ''enableHSTS'')"
    using eff(3) step_dot [OF st, of "''security''" "''enableHSTS''"] same
      pre [of "''security''" "''enableHSTS''"] by simp
  have db: "dot (jget (config s') ''database'') ''enableLogging''
           = flipped True (dot (jget (config s) ''database'') ''enableLogging'')"
    using eff(4) step_dot [OF st, of "''database''" "''enableLogging''"] same
      pre [of "''database''" "''enableLogging''"] by simp
  from ssl hsts db show ?thesis by (simp add: flipped_def)
qed


text \<open>
  Claim C5, amended. For every configuration whose \<^verbatim>\<open>platform.environment\<close> is
  \<^verbatim>\<open>"production"\<close>, after a rule pass that completes, in either mode,
  \<^verbatim>\<open>security.enableSSL\<close> and \<^verbatim>\<open>security.enableHSTS\<close> are \<^verbatim>\<open>true\<close> where they were
  \<^verbatim>\<open>false\<close> and \<^verbatim>\<open>database.enableLogging\<close> is \<^verbatim>\<open>false\<close> where it was \<^verbatim>\<open>true\<close>; a
  field that was absent or held any other value is as it was. So none of the first
  two is \<^verbatim>\<open>false\<close> and the third is not \<^verbatim>\<open>true\<close>. In non-interactive mode the pass
  completes on every well-shaped configuration.
\<close>

theorem production_security_flags:
  assumes env: "dot (jget (config s) ''platform'') ''environment'' = Some (JStr ''production'')"
  shows "(analyzeAndFix rt h s = (None, s') \<longrightarrow>
            dot (jget (config s') ''security'') ''enableSSL''
              = flipped False (dot (jget (config s) ''security'') ''enableSSL'')
          \<and> dot (jget (config s') ''security'') ''enableHSTS''
              = flipped False (dot (jget (config s) ''security'') ''enableHSTS'')
          \<and> dot (jget (config s') ''database'') ''enableLogging''
              = flipped True (dot (jget (config s) ''database'') ''enableLogging'')
          \<and> dot (jget (config s') ''security'') ''enableSSL'' \<noteq> Some (JBool False)
          \<and> dot (jget (config s') ''security'') ''enableHSTS'' \<noteq> Some (JBool False)
          \<and> dot (jget (config s') ''database'') ''enableLogging'' \<noteq> Some (JBool True))
       \<and> (well_shaped (config s) \<and> \<not> interactive s \<longrightarrow> fst (analyzeAndFix rt h s) = None)"
  using production_security_flags_completed [OF env] analyzeAndFix_returns by blast

theorem production_security_flags_witness:
  "dot (jget (config ((new_ConfigAutoFix False [])\<lparr>config := cfg_ssl_off\<rparr>)) ''platform'') ''environment''
     = Some (JStr ''production'')
   \<and> well_shaped (config ((new_ConfigAutoFix False [])\<lparr>config := cfg_ssl_off\<rparr>))
   \<and> \<not> interactive ((new_ConfigAutoFix False [])\<lparr>config := cfg_ssl_off\<rparr>)
   \<and> fst (analyzeAndFix plain_engine plain_host ((new_ConfigAutoFix False [])\<lparr>config := cfg_ssl_off\<rparr>))
       = None
   \<and> dot (jget (config (snd (analyzeAndFix plain_engine plain_host
            ((new_ConfigAutoFix False [])\<lparr>config := cfg_ssl_off\<rparr>)))) ''security'') ''enableSSL''
       = Some (JBool True)"
proof -
  let ?s = "(new_ConfigAutoFix False [])\<lparr>config := cfg_ssl_off\<rparr>"
  have env: "dot (jget (config ?s) ''platform'') ''environment'' = Some (JStr ''production'')"
    by (simp add: cfg_ssl_off_def cfg_minimal_def dot_def)
  have ws: "well_shaped (config ?s)"
    by (simp add: well_shaped_def is_container_def container_or_missing_def origins_ok_def
        log_directory_ok_def cfg_ssl_off_def cfg_minimal_def dot_def truthy_opt_def)
  have ni: "\<not> interactive ?s" by (simp add: new_ConfigAutoFix_def)
  note t = production_security_flags [OF env, of plain_engine plain_host
      "snd (analyzeAndFix plain_engine plain_host ?s)"]
  from t ws ni have n: "fst (analyzeAndFix plain_engine plain_host ?s) = None" by blast
  then have r: "analyzeAndFix plain_engine plain_host ?s
      = (None, snd (analyzeAndFix plain_engine plain_host ?s))"
    by (metis prod.collapse)
  have a: "dot (jget (config ?s) ''security'') ''enableSSL'' = Some (JBool False)"
    by (simp add: cfg_ssl_off_def cfg_minimal_def dot_def)
  from t r a have "dot (jget (config (snd (analyzeAndFix plain_engine plain_host ?s))) ''security'')
      ''enableSSL'' = Some (JBool True)"
    by (simp add: flipped_def)
  with env ws ni n show ?thesis by blast
qed

lemma development_enables_database_logging_completed:
  assumes env: "dot (jget (config s) ''platform'') ''environment'' = Some (JStr ''development'')"
    and db: "dot (jget (config s) ''database'') ''enableLogging'' = Some (JBool False)"
    and r: "analyzeAndFix rt h s = (None, s')"
  shows "dot (jget (config s') ''database'') ''enableLogging'' = Some (JBool True)
       \<and> \<lparr>fix_field = ''database.enableLogging'', fix_from = Some (JBool False),
           fix_to = JBool True,
           fix_reason = ''Enabled database logging for development environment''\<rparr>
          \<in> set (fixes_list s')"
proof -
  from r obtain c1 s1 s2 s3 s4 s5 where
    e: "ensure_sections (config s) = (None, c1)"
    and p: "fixPlaceholderApiUrl rt ((log_line Analyzing s)\<lparr>config := c1\<rparr>) = (None, s1)"
    and w: "fixWildcardCors rt s1 = (None, s2)"
    and v: "fixEnvironmentSettings s2 = (None, s3)"
    and f: "fixProductionSecurity s3 = (None, s4)"
    and o: "optimizePerformanceSettings s4 = (None, s5)"
    and l: "fixLoggingSettings h s5 = (None, s')"
    by (rule analyzeAndFix_chain)
  note pre = before_environment_rule [OF e p w]
  have env2: "dot (jget (config s2) ''platform'') ''environment'' = Some (JStr ''development'')"
    using pre [of "''platform''" "''environment''"] env by simp
  have db2: "dot (jget (config s2) ''database'') ''enableLogging'' = Some (JBool False)"
    using pre [of "''database''" "''enableLogging''"] db by simp
  note eff = fixEnvironmentSettings_effect [OF v env2]
  have db3: "dot (jget (config s3) ''database'') ''enableLogging'' = Some (JBool True)"
    using eff(1) db2 by (simp add: flipped_def)
  have in3: "flip_entry False ''database.enableLogging''
      ''Enabled database logging for development environment'' \<in> set (fixes_list s3)"
    using eff(2) db2 by simp
  have env3: "dot (jget (config s3) ''platform'') ''environment'' = Some (JStr ''development'')"
    using step_dot [OF fixEnvironmentSettings_step [OF v], of "''platform''" "''environment''"] env2
    by simp
  have s4: "s4 = s3" using fixProductionSecurity_other [OF f] env3 by simp
  note st = optimizePerformanceSettings_step [OF o [unfolded s4]]
  have db5: "dot (jget (config s5) ''database'') ''enableLogging'' = Some (JBool True)"
    using step_dot [OF st, of "''database''" "''enableLogging''"] db3 by simp
  have in5: "flip_entry False ''database.enableLogging''
      ''Enabled database logging for development environment'' \<in> set (fixes_list s5)"
    using step_fixes_mono [OF st] in3 by blast
  from db5 in5 fixLoggingSettings_same(1,2) [OF l] show ?thesis
    by (simp add: flip_entry_def)
qed


text \<open>
  Claim C8. For every development configuration with \<^verbatim>\<open>database.enableLogging\<close> equal
  to \<^verbatim>\<open>false\<close>, a rule pass that completes, in either mode, leaves
  \<^verbatim>\<open>database.enableLogging\<close> equal to \<^verbatim>\<open>true\<close> and has recorded the fix entry for
  the field \<^verbatim>\<open>database.enableLogging\<close> with \<^verbatim>\<open>from: false\<close> and \<^verbatim>\<open>to: true\<close>. In
  non-interactive mode the pass completes on every well-shaped configuration.
\<close>

theorem development_enables_database_logging:
  assumes env: "dot (jget (config s) ''platform'') ''environment'' = Some (JStr ''development'')"
    and db: "dot (jget (config s) ''database'') ''enableLogging'' = Some (JBool False)"
  shows "(analyzeAndFix rt h s = (None, s') \<longrightarrow>
            dot (jget (config s') ''database'') ''enableLogging'' = Some (JBool True)
          \<and> \<lparr>fix_field = ''database.enableLogging'', fix_from = Some (JBool False),
              fix_to = JBool True,
              fix_reason = ''Enabled database logging for development environment''\<rparr>
             \<in> set (fixes_list s'))
       \<and> (well_shaped (config s) \<and> \<not> interactive s \<longrightarrow> fst (analyzeAndFix rt h s) = None)"
  using development_enables_database_logging_completed [OF env db] analyzeAndFix_returns by blast

theorem development_enables_database_logging_witness:
  "dot (jget (config ((new_ConfigAutoFix False [])\<lparr>config := cfg_development\<rparr>)) ''platform'') ''environment''
     = Some (JStr ''development'')
   \<and> dot (jget (config ((new_ConfigAutoFix False [])\<lparr>config := cfg_development\<rparr>)) ''database'') ''enableLogging''
     = Some (JBool False)
   \<and> well_shaped (config ((new_ConfigAutoFix False [])\<lparr>config := cfg_development\<rparr>))
   \<and> \<not> interactive ((new_ConfigAutoFix False [])\<lparr>config := cfg_development\<rparr>)
   \<and> fst (analyzeAndFix plain_engine plain_host ((new_ConfigAutoFix False [])\<lparr>config := cfg_development\<rparr>))
       = None
   \<and> dot (jget (config (snd (analyzeAndFix plain_engine plain_host
       ((new_ConfigAutoFix False [])\<lparr>config := cfg_development\<rparr>)))) ''database'') ''enableLogging''
       = Some (JBool True)
   \<and> \<lparr>fix_field = ''database.enableLogging'', fix_from = Some (JBool False),
       fix_to = JBool True,
       fix_reason = ''Enabled database logging for development environment''\<rparr>
      \<in> set (fixes_list (snd (analyzeAndFix plain_engine plain_host
       ((new_ConfigAutoFix False [])\<lparr>config := cfg_development\<rparr>))))"
proof -
  let ?s = "(new_ConfigAutoFix False [])\<lparr>config := cfg_development\<rparr>"
  have env: "dot (jget (config ?s) ''platform'') ''environment'' = Some (JStr ''development'')"
    and db: "dot (jget (config ?s) ''database'') ''enableLogging'' = Some (JBool False)"
    by (simp_all add: cfg_development_def cfg_minimal_def dot_def)
  have ws: "well_shaped (config ?s)"
    by (simp add: well_shaped_def is_container_def container_or_missing_def origins_ok_def
        log_directory_ok_def cfg_development_def cfg_minimal_def dot_def truthy_opt_def)
  have ni: "\<not> interactive ?s" by (simp add: new_ConfigAutoFix_def)
  note t = development_enables_database_logging [OF env db, of plain_engine plain_host
      "snd (analyzeAndFix plain_engine plain_host ?s)"]
  from t ws ni have n: "fst (analyzeAndFix plain_engine plain_host ?s) = None" by blast
  then have r: "analyzeAndFix plain_engine plain_host ?s
      = (None, snd (analyzeAndFix plain_engine plain_host ?s))"
    by (metis prod.collapse)
  from t r env db ws ni n show ?thesis by blast
qed

lemma wildcard_kept_and_warned_completed:
  assumes env: "dot (jget (config s) ''platform'') ''environment'' = Some (JStr ''production'')"
    and cors: "dot (jget (config s) ''security'') ''corsEnabled'' = Some (JBool True)"
    and ao: "dot (jget (config s) ''security'') ''allowedOrigins'' = Some origins"
    and star: "includes_star origins = Some True"
    and ni: "\<not> interactive s"
    and fresh: "fixes_list s = []" "warnings s = []"
    and r: "analyzeAndFix rt h s = (None, s')"
  shows "dot (jget (config s') ''security'') ''allowedOrigins'' = Some origins
       \<and> (\<forall>f \<in> set (fixes_list s'). fix_field f \<noteq> ''security.allowedOrigins'')
       \<and> filter (\<lambda>w. warn_field w = ''security.allowedOrigins'') (warnings s')
           = [\<lparr>warn_type = ''security'', warn_field = ''security.allowedOrigins'',
               warn_current = origins,
               warn_issue = ''Wildcard CORS in production is a security risk''\<rparr>]"
proof -
  from r obtain c1 s1 s2 where
    e: "ensure_sections (config s) = (None, c1)"
    and p: "fixPlaceholderApiUrl rt ((log_line Analyzing s)\<lparr>config := c1\<rparr>) = (None, s1)"
    and w: "fixWildcardCors rt s1 = (None, s2)"
    and rest: "and_then fixEnvironmentSettings
       (and_then fixProductionSecurity
          (and_then optimizePerformanceSettings (fixLoggingSettings h))) s2 = (None, s')"
    by (rule analyzeAndFix_chain2)
  let ?s0 = "(log_line Analyzing s)\<lparr>config := c1\<rparr>"
  note en = ensure_sections_ensured [OF e]
  have ni0: "\<not> interactive ?s0" using ni by (simp add: log_line_def)
  note q = fixPlaceholderApiUrl_quiet(1) [OF p ni0]
  have v1: "dot (jget (config s1) a) k = dot (jget (config s) a) k" if "a \<noteq> ''performance''" for a k
    using step_dot [OF q, of a k] ensured_dot [OF en, of a k] that by simp
  have ni1: "\<not> interactive s1" using step_interactive [OF q] ni0 by simp
  have f1: "fixes_list s1 = []" using step_no_fix [OF q] fresh by (simp add: log_line_def)
  from step_warnings [OF q] fresh obtain ws where ws: "warnings s1 = ws"
    "warn_field ` set ws \<subseteq> {''api.baseUrl''}"
    by (auto simp: log_line_def)
  have s2: "s2 = log_line HintInteractiveCors
                 (log_line WildcardInProduction (push_warning (wildcard_warning origins) s1))"
    using fixWildcardCors_warns [of s1 origins rt] v1 env cors ao star ni1 w
    by (simp add: truthy_opt_def)
  note st = environment_rules_step [OF rest]
  have c2: "config s2 = config s1" "fixes_list s2 = []"
    "warnings s2 = ws @ [wildcard_warning origins]"
    using s2 f1 ws by (simp_all add: mut_defs)
  have a: "dot (jget (config s') ''security'') ''allowedOrigins'' = Some origins"
    using step_dot [OF st, of "''security''" "''allowedOrigins''"] c2 v1 ao
    by (simp add: auto_paths2_def auto_paths3_def)
  have b: "\<forall>f \<in> set (fixes_list s'). fix_field f \<noteq> ''security.allowedOrigins''"
    using step_fix_fields [OF st] c2 by (auto simp: auto_fields_def)
  have "warnings s' = ws @ [wildcard_warning origins]"
    using step_no_warning [OF st] c2 by simp
  moreover have "filter (\<lambda>w. warn_field w = ''security.allowedOrigins'') ws = []"
    using ws(2) by (auto simp: filter_empty_conv)
  ultimately have c: "filter (\<lambda>w. warn_field w = ''security.allowedOrigins'') (warnings s')
      = [wildcard_warning origins]"
    by (simp add: wildcard_warning_def)
  from a b c show ?thesis by (simp add: wildcard_warning_def)
qed


text \<open>
  Claim C6. For every production configuration with \<^verbatim>\<open>security.corsEnabled\<close> true and
  \<^verbatim>\<open>security.allowedOrigins\<close> containing \<^verbatim>\<open>"*"\<close>, a non-interactive rule pass that
  completes, started on the fresh object, leaves \<^verbatim>\<open>security.allowedOrigins\<close> as it
  was, records no fix for that field and records exactly one warning for it, the one
  about the wildcard, which holds the origins found. The pass completes on every
  well-shaped configuration.
\<close>

theorem wildcard_kept_and_warned:
  assumes env: "dot (jget (config s) ''platform'') ''environment'' = Some (JStr ''production'')"
    and cors: "dot (jget (config s) ''security'') ''corsEnabled'' = Some (JBool True)"
    and ao: "dot (jget (config s) ''security'') ''allowedOrigins'' = Some origins"
    and star: "includes_star origins = Some True"
    and ni: "\<not> interactive s"
    and fresh: "fixes_list s = []" "warnings s = []"
  shows "(analyzeAndFix rt h s = (None, s') \<longrightarrow>
            dot (jget (config s') ''security'') ''allowedOrigins'' = Some origins
          \<and> (\<forall>f \<in> set (fixes_list s'). fix_field f \<noteq> ''security.allowedOrigins'')
          \<and> filter (\<lambda>w. warn_field w = ''security.allowedOrigins'') (warnings s')
              = [\<lparr>warn_type = ''security'', warn_field = ''security.allowedOrigins'',
                  warn_current = origins,
                  warn_issue = ''Wildcard CORS in production is a security risk''\<rparr>])
       \<and> (well_shaped (config s) \<longrightarrow> fst (analyzeAndFix rt h s) = None)"
proof (intro conjI impI)
  assume r: "analyzeAndFix rt h s = (None, s')"
  from wildcard_kept_and_warned_completed [OF env cors ao star ni fresh r]
  show "dot (jget (config s') ''security'') ''allowedOrigins'' = Some origins"
    and "\<forall>f \<in> set (fixes_list s'). fix_field f \<noteq> ''security.allowedOrigins''"
    and "filter (\<lambda>w. warn_field w = ''security.allowedOrigins'') (warnings s')
              = [\<lparr>warn_type = ''security'', warn_field = ''security.allowedOrigins'',
                  warn_current = origins,
                  warn_issue = ''Wildcard CORS in production is a security risk''\<rparr>]"
    by simp_all
next
  assume "well_shaped (config s)"
  then show "fst (analyzeAndFix rt h s) = None" using ni by (rule analyzeAndFix_returns)
qed

theorem wildcard_kept_and_warned_witness:
  "dot (jget (config ((new_ConfigAutoFix False [])\<lparr>config := cfg_wildcard\<rparr>)) ''platform'') ''environment''
     = Some (JStr ''production'')
   \<and> dot (jget (config ((new_ConfigAutoFix False [])\<lparr>config := cfg_wildcard\<rparr>)) ''security'') ''corsEnabled''
     = Some (JBool True)
   \<and> dot (jget (config ((new_ConfigAutoFix False [])\<lparr>config := cfg_wildcard\<rparr>)) ''security'') ''allowedOrigins''
     = Some (JArr [JStr ''*''] [])
   \<and> includes_star (JArr [JStr ''*''] []) = Some True
   \<and> \<not> interactive ((new_ConfigAutoFix False [])\<lparr>config := cfg_wildcard\<rparr>)
   \<and> well_shaped (config ((new_ConfigAutoFix False [])\<lparr>config := cfg_wildcard\<rparr>))
   \<and> fst (analyzeAndFix plain_engine plain_host ((new_ConfigAutoFix False [])\<lparr>config := cfg_wildcard\<rparr>)) = None
   \<and> dot (jget (config (snd (analyzeAndFix plain_engine plain_host
            ((new_ConfigAutoFix False [])\<lparr>config := cfg_wildcard\<rparr>)))) ''security'') ''allowedOrigins''
       = Some (JArr [JStr ''*''] [])
   \<and> filter (\<lambda>w. warn_field w = ''security.allowedOrigins'')
        (warnings (snd (analyzeAndFix plain_engine plain_host
            ((new_ConfigAutoFix False [])\<lparr>config := cfg_wildcard\<rparr>))))
       = [\<lparr>warn_type = ''security'', warn_field = ''security.allowedOrigins'',
           warn_current = JArr [JStr ''*''] [],
           warn_issue = ''Wildcard CORS in production is a security risk''\<rparr>]"
proof -
  let ?s = "(new_ConfigAutoFix False [])\<lparr>config := cfg_wildcard\<rparr>"
  have env: "dot (jget (config ?s) ''platform'') ''environment'' = Some (JStr ''production'')"
    and cors: "dot (jget (config ?s) ''security'') ''corsEnabled'' = Some (JBool True)"
    and ao: "dot (jget (config ?s) ''security'') ''allowedOrigins'' = Some (JArr [JStr ''*''] [])"
    by (simp_all add: cfg_wildcard_def cfg_minimal_def dot_def)
  have star: "includes_star (JArr [JStr ''*''] []) = Some True" by simp
  have ni: "\<not> interactive ?s" and fresh: "fixes_list ?s = []" "warnings ?s = []"
    by (simp_all add: new_ConfigAutoFix_def)
  have ws: "well_shaped (config ?s)"
    by (simp add: well_shaped_def is_container_def container_or_missing_def origins_ok_def
        log_directory_ok_def cfg_wildcard_def cfg_minimal_def dot_def truthy_opt_def)
  note t = wildcard_kept_and_warned [OF env cors ao star ni fresh, of plain_engine plain_host
      "snd (analyzeAndFix plain_engine plain_host ?s)"]
  from t ws have n: "fst (analyzeAndFix plain_engine plain_host ?s) = None" by blast
  then have r: "analyzeAndFix plain_engine plain_host ?s
      = (None, snd (analyzeAndFix plain_engine plain_host ?s))"
    by (metis prod.collapse)
  from t r have "dot (jget (config (snd (analyzeAndFix plain_engine plain_host ?s))) ''security'')
        ''allowedOrigins'' = Some (JArr [JStr ''*''] [])"
    and "filter (\<lambda>w. warn_field w = ''security.allowedOrigins'')
        (warnings (snd (analyzeAndFix plain_engine plain_host ?s)))
       = [\<lparr>warn_type = ''security'', warn_field = ''security.allowedOrigins'',
           warn_current = JArr [JStr ''*''] [],
           warn_issue = ''Wildcard CORS in production is a security risk''\<rparr>]"
    by simp_all
  with env cors ao star ni ws n show ?thesis by blast
qed

text \<open>
  Claim C10. In non-interactive mode, whatever the configuration and however the rule
  pass ends, \<^verbatim>\<open>api.baseUrl\<close> and \<^verbatim>\<open>security.allowedOrigins\<close> are as they were. A
  top-level entry that is none of the seven sections is as it was; the sections
  \<^verbatim>\<open>platform\<close>, \<^verbatim>\<open>global\<close> and \<^verbatim>\<open>api\<close> are as they were or, where they were missing
  (falsy), the empty object. Two levels deep every value is as it was except
  \<^verbatim>\<open>database.enableLogging\<close>, \<^verbatim>\<open>logging.level\<close>, \<^verbatim>\<open>security.enableSSL\<close>,
  \<^verbatim>\<open>security.enableHSTS\<close> and the objects \<^verbatim>\<open>performance.caching\<close> and
  \<^verbatim>\<open>performance.compression\<close>; three levels deep every value is as it was except
  \<^verbatim>\<open>performance.caching.enabled\<close> and \<^verbatim>\<open>performance.compression.enabled\<close> and what
  lies below the four fields. Every fix entry the pass adds names one of the six
  fields.
\<close>

theorem noninteractive_frame:
  assumes r: "analyzeAndFix rt h s = (i, s')" and ni: "\<not> interactive s"
  shows "dot (jget (config s') ''api'') ''baseUrl'' = dot (jget (config s) ''api'') ''baseUrl''
       \<and> dot (jget (config s') ''security'') ''allowedOrigins''
           = dot (jget (config s) ''security'') ''allowedOrigins''
       \<and> (\<forall>a. a \<notin> set sections \<longrightarrow> jget (config s') a = jget (config s) a)
       \<and> (\<forall>a \<in> {''platform'', ''global'', ''api''}. inserted (jget (config s) a) (jget (config s') a))
       \<and> (\<forall>a k. (a, k) \<notin> auto_paths2 \<and> (a, k) \<noteq> (''performance'', ''caching'')
                \<and> (a, k) \<noteq> (''performance'', ''compression'')
              \<longrightarrow> dot (jget (config s') a) k = dot (jget (config s) a) k)
       \<and> (\<forall>a b k. (a, b) \<notin> auto_paths2 \<and> (a, b, k) \<notin> auto_paths3
              \<longrightarrow> dot (dot (jget (config s') a) b) k = dot (dot (jget (config s) a) b) k)
       \<and> (\<exists>fs. fixes_list s' = fixes_list s @ fs \<and> fix_field ` set fs \<subseteq> auto_fields)"
proof -
  from r ni obtain j c1 where e: "ensure_sections (config s) = (j, c1)"
    and st: "step auto_fields {''api.baseUrl'', ''security.allowedOrigins''} auto_paths2 auto_paths3
           (s\<lparr>config := c1\<rparr>) s'"
    by (rule analyzeAndFix_quiet)
  note en = ensure_sections_ensured [OF e]
  have p2: "dot (jget (config s') a) k = dot (jget (config s) a) k"
    if "(a, k) \<notin> auto_paths2" "(a, k) \<noteq> (''performance'', ''caching'')"
       "(a, k) \<noteq> (''performance'', ''compression'')" for a k
  proof -
    have "\<forall>k'. (a, k, k') \<notin> auto_paths3" using that by (auto simp: auto_paths3_def)
    from step_dot [OF st that(1) this] ensured_dot [OF en that(2,3)] show ?thesis by simp
  qed
  have p3: "dot (dot (jget (config s') a) b) k = dot (dot (jget (config s) a) b) k"
    if "(a, b) \<notin> auto_paths2" "(a, b, k) \<notin> auto_paths3" for a b k
    using step_dot_dot [OF st that] ensured_dot_dot [OF en, of a b k] by simp
  have top: "jget (config s') a = jget c1 a"
    if "a \<noteq> ''database''" "a \<noteq> ''logging''" "a \<noteq> ''security''" "a \<noteq> ''performance''" for a
    using step_jget [OF st, of a] that by (simp add: auto_paths2_def auto_paths3_def)
  have other: "jget (config s') a = jget (config s) a" if "a \<notin> set sections" for a
  proof -
    from that have "jget (config s') a = jget c1 a" by (intro top) (auto simp: sections_def)
    with en that show ?thesis by (simp add: ensured_def)
  qed
  have ins: "inserted (jget (config s) a) (jget (config s') a)"
    if "a \<in> {''platform'', ''global'', ''api''}" for a
  proof -
    from that have "jget (config s') a = jget c1 a" by (intro top) auto
    moreover from that have "a \<noteq> ''performance''" by auto
    ultimately show ?thesis using en by (simp add: ensured_def)
  qed
  have fx: "\<exists>fs. fixes_list s' = fixes_list s @ fs \<and> fix_field ` set fs \<subseteq> auto_fields"
    using st by (simp add: step_def)
  have a: "dot (jget (config s') ''api'') ''baseUrl'' = dot (jget (config s) ''api'') ''baseUrl''"
    by (rule p2) (simp_all add: auto_paths2_def)
  have b: "dot (jget (config s') ''security'') ''allowedOrigins''
           = dot (jget (config s) ''security'') ''allowedOrigins''"
    by (rule p2) (simp_all add: auto_paths2_def)
  show ?thesis
  proof (intro conjI allI ballI impI)
    show "dot (jget (config s') ''api'') ''baseUrl'' = dot (jget (config s) ''api'') ''baseUrl''"
      by (rule a)
    show "dot (jget (config s') ''security'') ''allowedOrigins''
           = dot (jget (config s) ''security'') ''allowedOrigins''"
      by (rule b)
    show "jget (config s') a = jget (config s) a" if "a \<notin> set sections" for a
      by (rule other [OF that])
    show "inserted (jget (config s) a) (jget (config s') a)"
      if "a \<in> {''platform'', ''global'', ''api''}" for a
      by (rule ins [OF that])
    show "dot (jget (config s') a) k = dot (jget (config s) a) k"
      if "(a, k) \<notin> auto_paths2 \<and> (a, k) \<noteq> (''performance'', ''caching'')
                \<and> (a, k) \<noteq> (''performance'', ''compression'')" for a k
      using that by (intro p2) simp_all
    show "dot (dot (jget (config s') a) b) k = dot (dot (jget (config s) a) b) k"
      if "(a, b) \<notin> auto_paths2 \<and> (a, b, k) \<notin> auto_paths3" for a b k
      using that by (intro p3) simp_all
    show "\<exists>fs. fixes_list s' = fixes_list s @ fs \<and> fix_field ` set fs \<subseteq> auto_fields"
      by (rule fx)
  qed
qed


theorem noninteractive_frame_witness:
  "\<not> interactive ((new_ConfigAutoFix False [])\<lparr>config := cfg_wildcard\<rparr>)
   \<and> dot (jget (config (snd (analyzeAndFix plain_engine plain_host
            ((new_ConfigAutoFix False [])\<lparr>config := cfg_wildcard\<rparr>)))) ''api'') ''baseUrl''
       = Some (JStr ''https://api.example.com'')
   \<and> dot (jget (config (snd (analyzeAndFix plain_engine plain_host
            ((new_ConfigAutoFix False [])\<lparr>config := cfg_wildcard\<rparr>)))) ''security'') ''allowedOrigins''
       = Some (JArr [JStr ''*''] [])
   \<and> jget (config (snd (analyzeAndFix plain_engine plain_host
            ((new_ConfigAutoFix False [])\<lparr>config := cfg_wildcard\<rparr>)))) ''features''
       = Some (JObj [(''enabled'', JBool True)])"
proof -
  let ?s = "(new_ConfigAutoFix False [])\<lparr>config := cfg_wildcard\<rparr>"
  have ni: "\<not> interactive ?s" by (simp add: new_ConfigAutoFix_def)
  have r: "analyzeAndFix plain_engine plain_host ?s
      = (fst (analyzeAndFix plain_engine plain_host ?s), snd (analyzeAndFix plain_engine plain_host ?s))"
    by simp
  have n: "''features'' \<notin> set sections" by (simp add: sections_def)
  have v: "dot (jget (config ?s) ''api'') ''baseUrl'' = Some (JStr ''https://api.example.com'')"
    "dot (jget (config ?s) ''security'') ''allowedOrigins'' = Some (JArr [JStr ''*''] [])"
    "jget (config ?s) ''features'' = Some (JObj [(''enabled'', JBool True)])"
    by (simp_all add: cfg_wildcard_def cfg_minimal_def dot_def)
  from noninteractive_frame [OF r ni] n v ni show ?thesis by metis
qed

text \<open>
  Claim C1 against the code. The fixer is run non-interactively on a development
  configuration whose database logging is off. It applies two fixes, writes the
  file, reports that the configuration was saved and prints no error line, and
  \<^verbatim>\<open>main\<close> exits with code 1, where the claim says 0: \<^verbatim>\<open>run\<close> returns
  \<^verbatim>\<open>this.fixes.length === 0 && this.warnings.length === 0\<close>.
\<close>

theorem autofix_exits_1_after_successful_fix:
  "fst (autofix_main plain_engine plain_host [''--no-interactive''] [] (only_file (Doc cfg_development)))
     = Some 1
   \<and> map fix_field (fixes_list (fst (snd (autofix_main plain_engine plain_host [''--no-interactive''] []
          (only_file (Doc cfg_development))))))
     = [''database.enableLogging'', ''logging.level'']
   \<and> last (out (fst (snd (autofix_main plain_engine plain_host [''--no-interactive''] []
          (only_file (Doc cfg_development)))))) = SavedSuccessfully
   \<and> lines_of_colour Red (out (fst (snd (autofix_main plain_engine plain_host [''--no-interactive''] []
          (only_file (Doc cfg_development)))))) = []
   \<and> dot (jget (case snd (snd (autofix_main plain_engine plain_host [''--no-interactive''] []
                 (only_file (Doc cfg_development)))) default_path of Doc c \<Rightarrow> c | _ \<Rightarrow> JNull)
            ''database'') ''enableLogging'' = Some (JBool True)"
  by (simp add: run_simps only_file_def cfg_development_def lines_of_colour_def)

text \<open>
  Claim C2 against the code. With \<^verbatim>\<open>--validate-only\<close> and a configuration that fails
  validation (its version is \<^verbatim>\<open>"1.2"\<close>; the validator exits with 1), the orchestrator
  skips both of its branches and returns 0, where the claim says 1.
\<close>

theorem validate_only_exits_0_on_invalid:
  "validate_exit plain_engine (Doc (cfg_minimal ''1.2'' ''production'' [])) = 1
   \<and> fst (automate_main plain_engine plain_host [''--validate-only''] []
            (only_file (Doc (cfg_minimal ''1.2'' ''production'' [])))) = 0
   \<and> validate_exit plain_engine NoFile = 1
   \<and> fst (automate_main plain_engine plain_host [''--validate-only''] [] (only_file NoFile)) = 0"
  by (simp add: run_simps only_file_def)

text \<open>
  Claim C7, as stated, fails for the write: on a host where the configuration file
  cannot be written, the non-interactive fixer on a development configuration with
  database logging off returns failure; no line in the colour of warnings is written,
  the only red line is the error \<^verbatim>\<open>Failed to save configuration\<close>, and the run does
  not report that the configuration was saved.
\<close>

theorem write_failure_counterexample:
  "fst (run plain_engine broken_host (Doc cfg_development) (new_ConfigAutoFix False [])) = Some False
   \<and> lines_of_colour Yellow
        (out (fst (snd (run plain_engine broken_host (Doc cfg_development) (new_ConfigAutoFix False [])))))
       = []
   \<and> lines_of_colour Red
        (out (fst (snd (run plain_engine broken_host (Doc cfg_development) (new_ConfigAutoFix False [])))))
       = [ErrorLine FailedToSave]
   \<and> SavedSuccessfully \<notin>
        set (out (fst (snd (run plain_engine broken_host (Doc cfg_development) (new_ConfigAutoFix False [])))))"
  by (simp add: run_simps broken_host_def cfg_development_def lines_of_colour_def)

text \<open>
  Claim C7, amended. A failure to create the configured log directory changes nothing
  but the lines written: whatever \<^verbatim>\<open>mkdirSync\<close> does, \<^verbatim>\<open>run\<close> returns the same value,
  leaves the same file and the same configuration, fixes and warnings; the failure is
  written as one line in the colour of warnings and the rule returns normally. A
  failure to write the fixed configuration, once the write is attempted (there are
  fixes, and the mode is non-interactive or the operator answered yes), is thrown as
  \<^verbatim>\<open>Failed to save configuration\<close>: \<^verbatim>\<open>run\<close> returns false, the file is as it was,
  and the last line written is the error, in red.
\<close>

theorem filesystem_errors:
  "(fst (run rt (h\<lparr>mkdir_fails := m\<rparr>) f s) = fst (run rt h f s)
      \<and> snd (snd (run rt (h\<lparr>mkdir_fails := m\<rparr>) f s)) = snd (snd (run rt h f s))
      \<and> same_but_out (fst (snd (run rt h f s))) (fst (snd (run rt (h\<lparr>mkdir_fails := m\<rparr>) f s))))
   \<and> (jget (config s) ''logging'' = Some lg \<and> truthy_opt (jget lg ''enableFile'')
        \<and> jget lg ''logDirectory'' = Some (JStr d) \<and> d \<noteq> []
        \<and> \<not> dir_exists h d \<and> mkdir_fails h d
      \<longrightarrow> fixLoggingSettings h s = (None, log_line (CouldNotCreateLogDirectory d) s)
          \<and> colour_of (CouldNotCreateLogDirectory d) = Yellow)
   \<and> (write_fails h \<and> loadConfig f s = (None, s1) \<and> analyzeAndFix rt h s1 = (None, s2)
        \<and> fixes_list s2 \<noteq> []
        \<and> (\<not> interactive s2 \<or> (\<exists>a rest. answers s2 = a # rest \<and> is_yes a))
      \<longrightarrow> fst (run rt h f s) = Some False \<and> snd (snd (run rt h f s)) = f
          \<and> last (out (fst (snd (run rt h f s)))) = ErrorLine FailedToSave
          \<and> colour_of (ErrorLine FailedToSave) = Red)"
proof (intro conjI impI)
  show "fst (run rt (h\<lparr>mkdir_fails := m\<rparr>) f s) = fst (run rt h f s)"
    "snd (snd (run rt (h\<lparr>mkdir_fails := m\<rparr>) f s)) = snd (snd (run rt h f s))"
    "same_but_out (fst (snd (run rt h f s))) (fst (snd (run rt (h\<lparr>mkdir_fails := m\<rparr>) f s)))"
    using run_mkdir [where rt = rt and h = h and m = m and f = f and s = s] by simp_all
next
  assume a: "jget (config s) ''logging'' = Some lg \<and> truthy_opt (jget lg ''enableFile'')
        \<and> jget lg ''logDirectory'' = Some (JStr d) \<and> d \<noteq> []
        \<and> \<not> dir_exists h d \<and> mkdir_fails h d"
  then show "fixLoggingSettings h s = (None, log_line (CouldNotCreateLogDirectory d) s)"
    by (intro fixLoggingSettings_mkdir_fails [of s lg d h]) simp_all
  show "colour_of (CouldNotCreateLogDirectory d) = Yellow" by simp
next
  assume a: "write_fails h \<and> loadConfig f s = (None, s1) \<and> analyzeAndFix rt h s1 = (None, s2)
        \<and> fixes_list s2 \<noteq> []
        \<and> (\<not> interactive s2 \<or> (\<exists>a rest. answers s2 = a # rest \<and> is_yes a))"
  then have wf: "write_fails h" and ld: "loadConfig f s = (None, s1)"
    and pass: "analyzeAndFix rt h s1 = (None, s2)" and fx: "fixes_list s2 \<noteq> []"
    and go: "\<not> interactive s2 \<or> (\<exists>a rest. answers s2 = a # rest \<and> is_yes a)"
    by blast+
  note w = run_write_fails [OF wf ld pass fx go]
  show "fst (run rt h f s) = Some False" by (rule w(1))
  show "snd (snd (run rt h f s)) = f" by (rule w(2))
  show "last (out (fst (snd (run rt h f s)))) = ErrorLine FailedToSave" by (rule w(3))
  show "colour_of (ErrorLine FailedToSave) = Red" by simp
qed

theorem filesystem_errors_witness:
  "jget (config ((new_ConfigAutoFix False [])\<lparr>config := cfg_file_logging\<rparr>)) ''logging''
     = Some (JObj [(''level'', JStr ''debug''), (''enableFile'', JBool True),
                   (''logDirectory'', JStr ''./var/log'')])
   \<and> \<not> dir_exists broken_host ''./var/log'' \<and> mkdir_fails broken_host ''./var/log''
   \<and> fixLoggingSettings broken_host ((new_ConfigAutoFix False [])\<lparr>config := cfg_file_logging\<rparr>)
       = (None, log_line (CouldNotCreateLogDirectory ''./var/log'')
                  ((new_ConfigAutoFix False [])\<lparr>config := cfg_file_logging\<rparr>))
   \<and> write_fails broken_host
   \<and> fst (loadConfig (Doc cfg_file_logging) (new_ConfigAutoFix False [])) = None
   \<and> fst (analyzeAndFix plain_engine broken_host
            (snd (loadConfig (Doc cfg_file_logging) (new_ConfigAutoFix False [])))) = None
   \<and> fixes_list (snd (analyzeAndFix plain_engine broken_host
            (snd (loadConfig (Doc cfg_file_logging) (new_ConfigAutoFix False []))))) \<noteq> []
   \<and> fst (run plain_engine broken_host (Doc cfg_file_logging) (new_ConfigAutoFix False [])) = Some False
   \<and> snd (snd (run plain_engine broken_host (Doc cfg_file_logging) (new_ConfigAutoFix False [])))
       = Doc cfg_file_logging
   \<and> last (out (fst (snd (run plain_engine broken_host (Doc cfg_file_logging) (new_ConfigAutoFix False [])))))
       = ErrorLine FailedToSave
   \<and> fst (run plain_engine (broken_host\<lparr>mkdir_fails := mkdir_fails plain_host\<rparr>)
            (Doc cfg_file_logging) (new_ConfigAutoFix False [])) = Some False"
proof -
  let ?lg = "JObj [(''level'', JStr ''debug''), (''enableFile'', JBool True),
                   (''logDirectory'', JStr ''./var/log'')]"
  let ?t = "(new_ConfigAutoFix False [])\<lparr>config := cfg_file_logging\<rparr>"
  let ?s = "new_ConfigAutoFix False []"
  let ?s1 = "snd (loadConfig (Doc cfg_file_logging) ?s)"
  let ?s2 = "snd (analyzeAndFix plain_engine broken_host ?s1)"
  have lg: "jget (config ?t) ''logging'' = Some ?lg"
    by (simp add: cfg_file_logging_def cfg_minimal_def)
  have ef: "truthy_opt (jget ?lg ''enableFile'')" and ld: "jget ?lg ''logDirectory'' = Some (JStr ''./var/log'')"
    and ne: "''./var/log'' \<noteq> []"
    by (simp_all add: truthy_opt_def)
  have de: "\<not> dir_exists broken_host ''./var/log''" and mf: "mkdir_fails broken_host ''./var/log''"
    and wf: "write_fails broken_host"
    by (simp_all add: broken_host_def)
  have l0: "fst (loadConfig (Doc cfg_file_logging) ?s) = None" by (simp add: loadConfig_def)
  then have l1: "loadConfig (Doc cfg_file_logging) ?s = (None, ?s1)" by (metis prod.collapse)
  have p0: "fst (analyzeAndFix plain_engine broken_host ?s1) = None"
    by (simp add: run_simps broken_host_def cfg_file_logging_def)
  then have p1: "analyzeAndFix plain_engine broken_host ?s1 = (None, ?s2)" by (metis prod.collapse)
  have fx: "fixes_list ?s2 \<noteq> []"
    by (simp add: run_simps broken_host_def cfg_file_logging_def)
  have ni: "\<not> interactive ?s2"
    by (simp add: run_simps broken_host_def cfg_file_logging_def)
  note a = filesystem_errors [where rt = plain_engine and h = broken_host
      and m = "mkdir_fails plain_host" and f = "Doc cfg_file_logging" and s = ?t and lg = ?lg
      and d = "''./var/log''" and ?s1.0 = ?s1 and ?s2.0 = ?s2]
  note b = filesystem_errors [where rt = plain_engine and h = broken_host
      and m = "mkdir_fails plain_host" and f = "Doc cfg_file_logging" and s = ?s and lg = ?lg
      and d = "''./var/log''" and ?s1.0 = ?s1 and ?s2.0 = ?s2]
  from a lg ef ld ne de mf
  have 2: "fixLoggingSettings broken_host ?t
       = (None, log_line (CouldNotCreateLogDirectory ''./var/log'') ?t)"
    by blast
  from b wf l1 p1 fx ni
  have 3: "fst (run plain_engine broken_host (Doc cfg_file_logging) ?s) = Some False"
    "snd (snd (run plain_engine broken_host (Doc cfg_file_logging) ?s)) = Doc cfg_file_logging"
    "last (out (fst (snd (run plain_engine broken_host (Doc cfg_file_logging) ?s)))) = ErrorLine FailedToSave"
    by blast+
  from b 3(1)
  have 1: "fst (run plain_engine (broken_host\<lparr>mkdir_fails := mkdir_fails plain_host\<rparr>)
            (Doc cfg_file_logging) ?s) = Some False"
    by simp
  from lg de mf 2 wf l0 p0 fx 3 1 show ?thesis by blast
qed

text \<open>
  Claim C3, as stated, fails: a production configuration that passes validation and
  has SSL switched off is not left alone. Validator, non-interactive Auto-fixer and
  Validator pass, but the fixer records one fix, for \<^verbatim>\<open>security.enableSSL\<close>.
\<close>

theorem valid_production_fixed_counterexample:
  "validateConfiguration plain_engine (Doc cfg_ssl_off) = Inr ()
   \<and> dot (jget cfg_ssl_off ''platform'') ''environment'' = Some (JStr ''production'')
   \<and> map fix_field (fixes_list (fst (snd (autofix_main plain_engine plain_host [''--no-interactive''] []
          (only_file (Doc cfg_ssl_off))))))
       = [''security.enableSSL'']
   \<and> fst (automate_main plain_engine plain_host [''--no-interactive''] [] (only_file (Doc cfg_ssl_off))) = 0"
  by (simp add: run_simps only_file_def cfg_ssl_off_def)

text \<open>
  Claim C3, amended. Take a production configuration that passes validation and in
  which no rule of the fixer finds the value it corrects (\<^verbatim>\<open>security.enableSSL\<close> and
  \<^verbatim>\<open>security.enableHSTS\<close> are not \<^verbatim>\<open>false\<close>, \<^verbatim>\<open>database.enableLogging\<close> is not
  \<^verbatim>\<open>true\<close>, \<^verbatim>\<open>performance.caching.enabled\<close> and \<^verbatim>\<open>performance.compression.enabled\<close>
  are not \<^verbatim>\<open>false\<close>) and, unless the run is non-interactive, no prompt is raised
  (\<^verbatim>\<open>api.baseUrl\<close> is not the placeholder and no wildcard CORS is detected). Then the
  first validation passes, the fixer the orchestrator starts records no fix and
  leaves every file as it was, the second validation passes, and the orchestrator
  returns 0.
\<close>

theorem settled_production_idempotent:
  assumes valid: "validateConfiguration rt (Doc c) = Inr ()"
    and prod: "dot (jget c ''platform'') ''environment'' = Some (JStr ''production'')"
    and clean: "no_rule_applies c"
    and quiet: "''--no-interactive'' \<in> set args \<or> no_prompt c"
    and on_disk: "files default_path = Doc c"
    and args: "''--help'' \<notin> set args" "''--validate-only'' \<notin> set args"
    and node: "node_available h"
  shows "validate_exit rt (files default_path) = 0
       \<and> fixes_list (fst (snd (autofix_main rt h
            (if ''--no-interactive'' \<in> set args then [''--no-interactive''] else []) stdin files))) = []
       \<and> snd (snd (autofix_main rt h
            (if ''--no-interactive'' \<in> set args then [''--no-interactive''] else []) stdin files)) = files
       \<and> validate_exit rt (snd (snd (autofix_main rt h
            (if ''--no-interactive'' \<in> set args then [''--no-interactive''] else []) stdin files))
            default_path) = 0
       \<and> automate_main rt h args stdin files = (0, files)"
proof -
  let ?fixArgs = "if ''--no-interactive'' \<in> set args then [''--no-interactive''] else []"
  let ?i = "''--no-interactive'' \<notin> set args"
  have v: "validate_exit rt (files default_path) = 0"
    using valid on_disk by (simp add: validate_exit_def)
  have st: "settled ((new_ConfigAutoFix ?i stdin)\<lparr>config := c\<rparr>)"
    using prod clean quiet by (auto simp: settled_def new_ConfigAutoFix_def)
  note rs = run_settled [OF st, of rt h]
  have path: "(case find (\<lambda>arg. take 2 arg \<noteq> ''--'') ?fixArgs of
                 None \<Rightarrow> default_path
               | Some p \<Rightarrow> if p = [] then default_path else p) = default_path"
    by simp
  have inter: "(''--no-interactive'' \<notin> set ?fixArgs) = ?i" by simp
  have nohelp: "''--help'' \<notin> set ?fixArgs" by simp
  obtain r s' f' where run: "run rt h (Doc c) (new_ConfigAutoFix ?i stdin) = (r, s', f')"
    by (metis prod_cases3)
  from rs run have s': "fixes_list s' = []" and f': "f' = Doc c" by simp_all
  have m: "autofix_main rt h ?fixArgs stdin files
      = ((case r of None \<Rightarrow> None | Some b \<Rightarrow> Some (if b then 0 else 1)), s', files)"
  proof -
    have "files(default_path := Doc c) = files" using on_disk by auto
    with run f' show ?thesis
      unfolding autofix_main_def Let_def path inter using nohelp on_disk by simp
  qed
  have fx: "fixes_list (fst (snd (autofix_main rt h ?fixArgs stdin files))) = []"
    and fl: "snd (snd (autofix_main rt h ?fixArgs stdin files)) = files"
    using m s' by simp_all
  have au: "automate_main rt h args stdin files = (0, files)"
    using args node v m by (simp add: automate_main_def Let_def)
  from v fx fl au show ?thesis by simp
qed

theorem settled_production_idempotent_witness:
  "validateConfiguration plain_engine (Doc (cfg_minimal ''1.2.3'' ''production'' [])) = Inr ()
   \<and> dot (jget (cfg_minimal ''1.2.3'' ''production'' []) ''platform'') ''environment''
       = Some (JStr ''production'')
   \<and> no_rule_applies (cfg_minimal ''1.2.3'' ''production'' [])
   \<and> no_prompt (cfg_minimal ''1.2.3'' ''production'' [])
   \<and> only_file (Doc (cfg_minimal ''1.2.3'' ''production'' [])) default_path
       = Doc (cfg_minimal ''1.2.3'' ''production'' [])
   \<and> node_available plain_host
   \<and> fixes_list (fst (snd (autofix_main plain_engine plain_host [] []
          (only_file (Doc (cfg_minimal ''1.2.3'' ''production'' [])))))) = []
   \<and> automate_main plain_engine plain_host [] [] (only_file (Doc (cfg_minimal ''1.2.3'' ''production'' [])))
       = (0, only_file (Doc (cfg_minimal ''1.2.3'' ''production'' [])))"
proof -
  let ?c = "cfg_minimal ''1.2.3'' ''production'' []"
  have valid: "validateConfiguration plain_engine (Doc ?c) = Inr ()" by (simp add: eval_simps)
  have prod: "dot (jget ?c ''platform'') ''environment'' = Some (JStr ''production'')"
    by (simp add: cfg_minimal_def dot_def)
  have clean: "no_rule_applies ?c" by (simp add: no_rule_applies_def cfg_minimal_def dot_def)
  have np: "no_prompt ?c"
    by (simp add: no_prompt_def wildcard_detected_def cfg_minimal_def dot_def truthy_opt_def)
  then have quiet: "''--no-interactive'' \<in> set ([] :: string list) \<or> no_prompt ?c" by simp
  have on_disk: "only_file (Doc ?c) default_path = Doc ?c" by (simp add: only_file_def)
  have args: "''--help'' \<notin> set ([] :: string list)" "''--validate-only'' \<notin> set ([] :: string list)"
    by simp_all
  have node: "node_available plain_host" by (simp add: plain_host_def)
  from settled_production_idempotent [where files = "only_file (Doc ?c)" and stdin = "[]",
      OF valid prod clean quiet on_disk args node]
  have "fixes_list (fst (snd (autofix_main plain_engine plain_host [] [] (only_file (Doc ?c))))) = []"
    "automate_main plain_engine plain_host [] [] (only_file (Doc ?c)) = (0, only_file (Doc ?c))"
    by simp_all
  with valid prod clean np on_disk node show ?thesis by blast
qed

end
